theory Spec2Isabelle
  imports Complex_Main "HOL-Library.AList" "HOL-Library.Sublist"
    "HOL-Library.Char_ord" "HOL-Library.List_Lexorder"
begin

section \<open>Python values shared by both modules\<close>

text \<open>
  Exceptions are values. Only the classes that the modelled code can meet are listed;
  all of them derive from \<^verbatim>\<open>Exception\<close>, so every \<^verbatim>\<open>except Exception\<close>
  handler of the source catches each of them.
\<close>

datatype py_error =
    AttributeError
  | CalledProcessError
  | FileNotFoundError
  | OSError
  | ValueError
  | KeyError
  | ZeroDivisionError
  | OverflowError

text \<open>Truth value of an \<^verbatim>\<open>Optional[str]\<close> or an optional dictionary in a condition.\<close>

definition truthy :: "'a list option \<Rightarrow> bool" where
  "truthy v = (case v of None \<Rightarrow> False | Some xs \<Rightarrow> xs \<noteq> [])"

section \<open>auto\_edit.py: the resumable edit pipeline\<close>

subsection \<open>Data model\<close>

text \<open>
  \<^verbatim>\<open>@dataclass EditConfig\<close>. Python floats are modelled by reals, so the rounding of
  floating-point arithmetic is outside the model; \<^verbatim>\<open>chunk_duration\<close> is an
  \<^verbatim>\<open>int\<close> in the source and stays one here.
\<close>

record EditConfig =
  input_video :: string
  output_video :: string
  speed_multiplier :: real
  remove_silence :: bool
  silence_threshold :: real
  silence_duration :: real
  jump_cut_threshold :: real
  apply_transitions :: bool
  apply_zoom_effects :: bool
  add_subtitles :: bool
  add_subscribe_popup :: bool
  add_sound_effects :: bool
  background_music :: "string option"
  background_music_volume :: real
  chunk_duration :: int
  max_workers :: int
  extract_subtitles :: bool
  generate_metadata :: bool
  openrouter_api_key :: "string option"

text \<open>\<^verbatim>\<open>@dataclass ChunkInfo\<close>.\<close>

record ChunkInfo =
  chunk_id :: nat
  start_time :: real
  end_time :: real
  duration :: real
  input_path :: string
  output_path :: string
  processed :: bool
  checksum :: "string option"

text \<open>
  The dictionary kept in \<^verbatim>\<open>self.state\<close> and written to \<^verbatim>\<open>edit_state.json\<close>.
  A key that may be absent is an option. \<^verbatim>\<open>current_step\<close> is written only by
  \<^verbatim>\<open>_load_state\<close> for a fresh state.
\<close>

record edit_metadata =
  input_checksum :: "string option"
  total_chunks :: "nat option"
  total_duration :: "real option"
  concat_output :: "string option"
  transcript :: "string option"

record edit_state =
  chunks :: "ChunkInfo list"
  current_step :: "string option"
  completed_steps :: "string list"
  metadata :: edit_metadata

text \<open>The attributes that \<^verbatim>\<open>VideoEditor.__init__\<close> sets on \<^verbatim>\<open>self\<close>.\<close>

record VideoEditor =
  config :: EditConfig
  work_dir :: string
  chunks_dir :: string
  temp_dir :: string
  state_file :: string
  state :: edit_state

text \<open>
  The part of the disk the editor touches: the regular files and the directories that
  exist (by path), and the document stored in the state file, if there is one. (A state
  file that \<^verbatim>\<open>json.load\<close> rejects makes the constructor raise before
  \<^verbatim>\<open>run\<close> is reached; that case is left out.)
\<close>

record disk =
  files :: "string set"
  dirs :: "string set"
  state_doc :: "edit_state option"

text \<open>
  What a call of an external tool (or of one of the editor's helpers built around such
  calls) does: it may raise, and it may create or overwrite files. No tool used by the
  editor deletes a file.
\<close>

record tool_outcome =
  raised :: "py_error option"
  written :: "string set"

text \<open>
  The helpers that \<^verbatim>\<open>_process_chunk\<close> calls, in the order of the source:
  \<^verbatim>\<open>_remove_silence\<close>, \<^verbatim>\<open>_apply_speed\<close>, \<^verbatim>\<open>_apply_jump_cuts\<close>,
  \<^verbatim>\<open>_apply_zoom_effects\<close>, \<^verbatim>\<open>_add_transitions\<close>, \<^verbatim>\<open>_add_sound_effects\<close>,
  \<^verbatim>\<open>_reencode_for_concat\<close>. Each runs \<^verbatim>\<open>ffmpeg\<close>, \<^verbatim>\<open>ffprobe\<close>,
  \<^verbatim>\<open>scenedetect\<close> or \<^verbatim>\<open>shutil.copy2\<close> on an input path and an output path; some
  fall back to a copy when \<^verbatim>\<open>ffmpeg\<close> fails, and every one of them can still
  raise.
\<close>

datatype helper =
    Remove_silence
  | Apply_speed
  | Apply_jump_cuts
  | Apply_zoom_effects
  | Add_transitions
  | Add_sound_effects
  | Reencode_for_concat

text \<open>
  What the environment answers. Each answer is a function of the arguments of the call:
  \<^item> \<open>file_checksum\<close>: reading and hashing an existing file gives its digest or raises;
  \<^item> \<open>probe_duration\<close>: \<^verbatim>\<open>ffprobe\<close> on a video gives its duration or raises;
  \<^item> \<open>save_error\<close>: writing the state file may raise;
  \<^item> \<open>split_result\<close>: the \<^verbatim>\<open>ffmpeg\<close> call that extracts one chunk;
  \<^item> \<open>helper_result\<close>: one helper of \<^verbatim>\<open>_process_chunk\<close> on an input and an output
    path;
  \<^item> \<open>unlink_fails\<close>: whether deleting a temporary file raises;
  \<^item> \<open>later_steps\<close>: steps 4 to 10 of \<^verbatim>\<open>run\<close> (concatenation, subtitles,
    popup, music, final copy, transcript, metadata), which only call external tools and
    record their completion; they are taken as one answer: an exception or none, and
    the editor and the disk afterwards.
\<close>

record environment =
  file_checksum :: "string \<Rightarrow> py_error + string"
  probe_duration :: "string \<Rightarrow> py_error + real"
  save_error :: "edit_state \<Rightarrow> py_error option"
  split_result :: "ChunkInfo \<Rightarrow> tool_outcome"
  helper_result :: "helper \<Rightarrow> string \<Rightarrow> string \<Rightarrow> tool_outcome"
  unlink_fails :: "string \<Rightarrow> bool"
  later_steps :: "ChunkInfo list \<Rightarrow> VideoEditor \<Rightarrow> disk \<Rightarrow> py_error option \<times> VideoEditor \<times> disk"

subsection \<open>Paths and directories\<close>

text \<open>\<^verbatim>\<open>str(directory / name)\<close> for a relative \<^verbatim>\<open>name\<close>.\<close>

definition path_join :: "string \<Rightarrow> string \<Rightarrow> string" where
  "path_join d n = d @ ''/'' @ n"

fun digits10 :: "nat \<Rightarrow> string" where
  "digits10 n =
     (if n < 10 then [char_of (48 + n)]
      else digits10 (n div 10) @ [char_of (48 + n mod 10)])"

declare digits10.simps [simp del]

text \<open>The format specification \<^verbatim>\<open>{n:03d}\<close>: decimal, padded with zeros to width 3.\<close>

definition fmt03d :: "nat \<Rightarrow> string" where
  "fmt03d n = (let s = digits10 n in replicate (3 - length s) (CHR ''0'') @ s)"

text \<open>A path lies under a directory.\<close>

definition under :: "string \<Rightarrow> string \<Rightarrow> bool" where
  "under d p = prefix (d @ ''/'') p"

text \<open>\<^verbatim>\<open>d.mkdir(parents=True, exist_ok=True)\<close> and \<^verbatim>\<open>shutil.rmtree(d)\<close>.\<close>

definition mkdir_p :: "string \<Rightarrow> disk \<Rightarrow> disk" where
  "mkdir_p d dk = dk\<lparr>dirs := insert d (dirs dk)\<rparr>"

definition rmtree :: "string \<Rightarrow> disk \<Rightarrow> disk" where
  "rmtree d dk =
     dk\<lparr>files := Set.filter (\<lambda>p. \<not> under d p) (files dk),
        dirs := Set.filter (\<lambda>q. q \<noteq> d \<and> \<not> under d q) (dirs dk)\<rparr>"

subsection \<open>Construction and state persistence\<close>

text \<open>\<^verbatim>\<open>_load_state\<close>: the stored document, or a fresh state.\<close>

definition fresh_state :: edit_state where
  "fresh_state =
     \<lparr>chunks = [], current_step = Some ''init'', completed_steps = [],
      metadata = \<lparr>input_checksum = None, total_chunks = None, total_duration = None,
                  concat_output = None, transcript = None\<rparr>\<rparr>"

definition load_state :: "disk \<Rightarrow> edit_state" where
  "load_state dk = (case state_doc dk of Some s \<Rightarrow> s | None \<Rightarrow> fresh_state)"

text \<open>
  \<^verbatim>\<open>VideoEditor.__init__\<close>: the attributes are \<^verbatim>\<open>config\<close>, \<^verbatim>\<open>work_dir\<close>,
  \<^verbatim>\<open>chunks_dir\<close>, \<^verbatim>\<open>temp_dir\<close>, \<^verbatim>\<open>state_file\<close> and \<^verbatim>\<open>state\<close>; the two
  directories are created.
\<close>

definition init_editor :: "EditConfig \<Rightarrow> string \<Rightarrow> disk \<Rightarrow> VideoEditor \<times> disk" where
  "init_editor cfg wd dk =
     (let cd = path_join wd ''chunks''; td = path_join wd ''temp''
      in (\<lparr>config = cfg, work_dir = wd, chunks_dir = cd, temp_dir = td,
           state_file = path_join wd ''edit_state.json'', state = load_state dk\<rparr>,
          mkdir_p td (mkdir_p cd dk)))"

text \<open>
  Reading \<^verbatim>\<open>self.chunk_dir\<close>. The constructor sets \<^verbatim>\<open>chunks_dir\<close>; nothing in the
  class defines an attribute \<^verbatim>\<open>chunk_dir\<close>, so the read raises
  \<^verbatim>\<open>AttributeError\<close> on every editor.
\<close>

definition chunk_dir :: "VideoEditor \<Rightarrow> py_error + string" where
  "chunk_dir ed = Inl AttributeError"

text \<open>
  \<^verbatim>\<open>_save_state\<close>: write \<^verbatim>\<open>self.state\<close> to the state file; an error of the write
  propagates to the caller.
\<close>

definition save_state :: "environment \<Rightarrow> VideoEditor \<Rightarrow> disk \<Rightarrow> py_error + disk" where
  "save_state env ed dk =
     (case save_error env (state ed) of
        Some e \<Rightarrow> Inl e
      | None \<Rightarrow> Inr (dk\<lparr>state_doc := Some (state ed)\<rparr>))"

text \<open>\<^verbatim>\<open>_calculate_checksum\<close>: opening a file that does not exist raises.\<close>

definition calculate_checksum :: "environment \<Rightarrow> string \<Rightarrow> disk \<Rightarrow> py_error + string" where
  "calculate_checksum env path dk =
     (if path \<in> files dk then file_checksum env path else Inl FileNotFoundError)"

subsection \<open>Chunk boundaries\<close>

text \<open>
  The chunk built in one iteration of the loop of \<^verbatim>\<open>_calculate_chunks\<close>, from the
  loop variables \<^verbatim>\<open>chunk_id\<close> and \<^verbatim>\<open>start\<close>. (In floating point the field
  \<^verbatim>\<open>duration\<close> of the last chunk is the rounded difference.)
\<close>

definition make_chunk :: "VideoEditor \<Rightarrow> real \<Rightarrow> nat \<Rightarrow> real \<Rightarrow> ChunkInfo" where
  "make_chunk ed dur cid start =
     (let end = min (start + real_of_int (chunk_duration (config ed))) dur in
      \<lparr>chunk_id = cid,
       start_time = start,
       end_time = end,
       duration = end - start,
       input_path = path_join (chunks_dir ed) (''chunk_'' @ fmt03d cid @ ''_input.mp4''),
       output_path = path_join (chunks_dir ed) (''chunk_'' @ fmt03d cid @ ''_output.mp4''),
       processed = False,
       checksum = None\<rparr>)"

text \<open>
  The loop \<^verbatim>\<open>while start < duration\<close>. The source does not check that
  \<^verbatim>\<open>chunk_duration\<close> is positive, so the loop need not end: the result is an option
  and \<open>None\<close> stands for a loop that runs forever.
\<close>

partial_function (option) chunk_loop ::
  "VideoEditor \<Rightarrow> real \<Rightarrow> ChunkInfo list \<Rightarrow> nat \<Rightarrow> real \<Rightarrow> ChunkInfo list option" where
  "chunk_loop ed dur acc cid start =
     (if start < dur
      then chunk_loop ed dur (acc @ [make_chunk ed dur cid start]) (cid + 1)
             (end_time (make_chunk ed dur cid start))
      else Some acc)"

text \<open>
  \<^verbatim>\<open>_calculate_chunks\<close>. Chunks already in the state are returned as they are;
  otherwise the duration is probed, the chunks are computed and the state is saved.
  The result is the list returned, or the exception raised, together with the editor
  and the disk afterwards.
\<close>

definition calculate_chunks ::
  "environment \<Rightarrow> VideoEditor \<Rightarrow> disk \<Rightarrow>
     ((py_error + ChunkInfo list) \<times> VideoEditor \<times> disk) option" where
  "calculate_chunks env ed dk =
     (if chunks (state ed) \<noteq> [] then Some (Inr (chunks (state ed)), ed, dk)
      else case probe_duration env (input_video (config ed)) of
        Inl e \<Rightarrow> Some (Inl e, ed, dk)
      | Inr dur \<Rightarrow>
          (case chunk_loop ed dur [] 0 0 of
             None \<Rightarrow> None
           | Some cs \<Rightarrow>
               (let ed' = ed\<lparr>state := (state ed)\<lparr>chunks := cs,
                             metadata := (metadata (state ed))
                               \<lparr>total_chunks := Some (length cs),
                                total_duration := Some dur\<rparr>\<rparr>\<rparr>
                in case save_state env ed' dk of
                     Inl e \<Rightarrow> Some (Inl e, ed', dk)
                   | Inr dk' \<Rightarrow> Some (Inr cs, ed', dk'))))"

subsection \<open>Splitting\<close>

text \<open>
  \<^verbatim>\<open>_split_into_chunks\<close>: a chunk whose input file exists is skipped; otherwise
  \<^verbatim>\<open>ffmpeg\<close> runs with \<^verbatim>\<open>check=True\<close>, and its failure ends the loop with an
  exception.
\<close>

fun split_into_chunks :: "environment \<Rightarrow> ChunkInfo list \<Rightarrow> disk \<Rightarrow> py_error option \<times> disk" where
  "split_into_chunks env [] dk = (None, dk)"
| "split_into_chunks env (c # cs) dk =
     (if input_path c \<in> files dk then split_into_chunks env cs dk
      else
        (let dk1 = dk\<lparr>files := files dk \<union> written (split_result env c)\<rparr>
         in case raised (split_result env c) of
              Some e \<Rightarrow> (Some e, dk1)
            | None \<Rightarrow> split_into_chunks env cs dk1))"

subsection \<open>Processing one chunk\<close>

text \<open>
  The local state of the \<^verbatim>\<open>try\<close> block of \<^verbatim>\<open>_process_chunk\<close>: the variables
  \<^verbatim>\<open>current_input\<close> and \<^verbatim>\<open>temp_files\<close>, the disk, and the exception raised
  so far, if any. Once an exception is raised the rest of the block is skipped.
\<close>

record chunk_run =
  current_input :: string
  temp_files :: "string list"
  area :: disk
  failure :: "py_error option"

text \<open>One helper call \<^verbatim>\<open>self._helper(current_input, out)\<close>.\<close>

definition run_helper :: "environment \<Rightarrow> helper \<Rightarrow> string \<Rightarrow> chunk_run \<Rightarrow> chunk_run" where
  "run_helper env h out cr =
     (if failure cr \<noteq> None then cr
      else
        (let res = helper_result env h (current_input cr) out;
             dk1 = (area cr)\<lparr>files := files (area cr) \<union> written res\<rparr>
         in case raised res of
              Some e \<Rightarrow> cr\<lparr>area := dk1, failure := Some e\<rparr>
            | None \<Rightarrow> cr\<lparr>area := dk1\<rparr>))"

text \<open>
  One of the steps 1 to 6: name the temporary output, append it to
  \<^verbatim>\<open>temp_files\<close>, call the helper, and make the output the next input.
\<close>

definition temp_step ::
  "environment \<Rightarrow> VideoEditor \<Rightarrow> ChunkInfo \<Rightarrow> helper \<Rightarrow> string \<Rightarrow> chunk_run \<Rightarrow> chunk_run" where
  "temp_step env ed c h sfx cr =
     (if failure cr \<noteq> None then cr
      else
        (let out = path_join (temp_dir ed) (''chunk_'' @ fmt03d (chunk_id c) @ sfx);
             cr1 = run_helper env h out (cr\<lparr>temp_files := temp_files cr @ [out]\<rparr>)
         in if failure cr1 \<noteq> None then cr1 else cr1\<lparr>current_input := out\<rparr>))"

text \<open>
  The steps 1 to 6 that the configuration switches on, in the order of the source, each
  with its helper and the suffix of its temporary file. Step 3 always runs.
\<close>

definition chunk_steps :: "EditConfig \<Rightarrow> (helper \<times> string) list" where
  "chunk_steps cfg =
     (if remove_silence cfg then [(Remove_silence, ''_nosilence.mp4'')] else []) @
     (if speed_multiplier cfg \<noteq> 1 then [(Apply_speed, ''_speed.mp4'')] else []) @
     [(Apply_jump_cuts, ''_jumpcuts.mp4'')] @
     (if apply_zoom_effects cfg then [(Apply_zoom_effects, ''_zoom.mp4'')] else []) @
     (if apply_transitions cfg then [(Add_transitions, ''_trans.mp4'')] else []) @
     (if add_sound_effects cfg then [(Add_sound_effects, ''_sfx.mp4'')] else [])"

text \<open>
  The \<^verbatim>\<open>try\<close> block of \<^verbatim>\<open>_process_chunk\<close> up to the final re-encoding into
  \<^verbatim>\<open>chunk.output_path\<close>.
\<close>

definition run_steps :: "environment \<Rightarrow> VideoEditor \<Rightarrow> ChunkInfo \<Rightarrow> disk \<Rightarrow> chunk_run" where
  "run_steps env ed c dk =
     run_helper env Reencode_for_concat (output_path c)
       (fold (\<lambda>(h, sfx). temp_step env ed c h sfx) (chunk_steps (config ed))
          \<lparr>current_input = input_path c, temp_files = [], area = dk, failure = None\<rparr>)"

text \<open>
  The whole \<^verbatim>\<open>try\<close> block: after the steps, the checksum of the output and the
  \<^verbatim>\<open>processed\<close> flag.
\<close>

definition process_body ::
  "environment \<Rightarrow> VideoEditor \<Rightarrow> ChunkInfo \<Rightarrow> disk \<Rightarrow> chunk_run \<times> ChunkInfo" where
  "process_body env ed c dk =
     (let cr = run_steps env ed c dk
      in if failure cr \<noteq> None then (cr, c)
         else case calculate_checksum env (output_path c) (area cr) of
                Inl e \<Rightarrow> (cr\<lparr>failure := Some e\<rparr>, c)
              | Inr h \<Rightarrow> (cr, c\<lparr>checksum := Some h, processed := True\<rparr>))"

text \<open>
  The \<^verbatim>\<open>finally\<close> block: every temporary file that exists is deleted; a deletion
  that raises is only logged.
\<close>

definition cleanup :: "environment \<Rightarrow> string list \<Rightarrow> disk \<Rightarrow> disk" where
  "cleanup env tmp dk =
     dk\<lparr>files := files dk - Set.filter (\<lambda>t. \<not> unlink_fails env t) (set tmp)\<rparr>"

text \<open>
  \<^verbatim>\<open>_process_chunk\<close>: a chunk whose output file exists is skipped with
  \<^verbatim>\<open>True\<close>; otherwise the result is \<^verbatim>\<open>True\<close> when the block ended without an
  exception and \<^verbatim>\<open>False\<close> when the handler caught one. The chunk object comes back
  with its checksum and flag set on success.
\<close>

definition process_chunk ::
  "environment \<Rightarrow> VideoEditor \<Rightarrow> ChunkInfo \<Rightarrow> disk \<Rightarrow> bool \<times> ChunkInfo \<times> disk" where
  "process_chunk env ed c dk =
     (if output_path c \<in> files dk then (True, c, dk)
      else case process_body env ed c dk of
             (cr, c1) \<Rightarrow> (failure cr = None, c1, cleanup env (temp_files cr) (area cr)))"

subsection \<open>The pipeline driver\<close>

text \<open>
  The start of \<^verbatim>\<open>run\<close>: compare the stored checksum of the input with a fresh one.
  On a mismatch the state is replaced (by \<open>reset_state\<close>) and saved, and then the
  old chunk and temporary directories are to be cleared (\<open>clear_old_work\<close>); on a
  first run the checksum is stored. The result is the exception raised, if any, and the editor and disk
  afterwards.
\<close>

definition reset_state :: "string \<Rightarrow> edit_state" where
  "reset_state current =
     \<lparr>chunks = [], current_step = None, completed_steps = [],
      metadata = \<lparr>input_checksum = Some current, total_chunks = None,
                  total_duration = None, concat_output = None, transcript = None\<rparr>\<rparr>"

definition clear_old_work :: "VideoEditor \<Rightarrow> disk \<Rightarrow> py_error + disk" where
  "clear_old_work ed dk =
     (case chunk_dir ed of
        Inl e \<Rightarrow> Inl e
      | Inr cd \<Rightarrow>
          (let dk1 = (if cd \<in> dirs dk then mkdir_p cd (rmtree cd dk) else dk);
               dk2 = (if temp_dir ed \<in> dirs dk1
                      then mkdir_p (temp_dir ed) (rmtree (temp_dir ed) dk1) else dk1)
           in Inr dk2))"

definition validate_input ::
  "environment \<Rightarrow> VideoEditor \<Rightarrow> disk \<Rightarrow> py_error option \<times> VideoEditor \<times> disk" where
  "validate_input env ed dk =
     (case calculate_checksum env (input_video (config ed)) dk of
        Inl e \<Rightarrow> (Some e, ed, dk)
      | Inr current \<Rightarrow>
          (let saved = input_checksum (metadata (state ed)) in
           if truthy saved \<and> saved \<noteq> Some current then
             (let ed1 = ed\<lparr>state := reset_state current\<rparr>
              in case save_state env ed1 dk of
                   Inl e \<Rightarrow> (Some e, ed1, dk)
                 | Inr dk1 \<Rightarrow>
                     (case clear_old_work ed1 dk1 of
                        Inl e \<Rightarrow> (Some e, ed1, dk1)
                      | Inr dk2 \<Rightarrow> (None, ed1, dk2)))
           else if \<not> truthy saved then
             (let ed1 = ed\<lparr>state := (state ed)\<lparr>metadata :=
                          (metadata (state ed))\<lparr>input_checksum := Some current\<rparr>\<rparr>\<rparr>
              in case save_state env ed1 dk of
                   Inl e \<Rightarrow> (Some e, ed1, dk)
                 | Inr dk1 \<Rightarrow> (None, ed1, dk1))
           else (None, ed, dk)))"

text \<open>\<^verbatim>\<open>self.state["completed_steps"].append(name)\<close> followed by \<^verbatim>\<open>_save_state\<close>.\<close>

definition complete_step ::
  "environment \<Rightarrow> string \<Rightarrow> VideoEditor \<Rightarrow> disk \<Rightarrow> py_error option \<times> VideoEditor \<times> disk" where
  "complete_step env name ed dk =
     (let ed1 = ed\<lparr>state := (state ed)\<lparr>completed_steps := completed_steps (state ed) @ [name]\<rparr>\<rparr>
      in case save_state env ed1 dk of
           Inl e \<Rightarrow> (Some e, ed1, dk)
         | Inr dk1 \<Rightarrow> (None, ed1, dk1))"

text \<open>Step 2 of \<^verbatim>\<open>run\<close>, for the chunk list of step 1.\<close>

definition split_step ::
  "environment \<Rightarrow> ChunkInfo list \<Rightarrow> VideoEditor \<Rightarrow> disk \<Rightarrow>
     (py_error + ChunkInfo list) \<times> VideoEditor \<times> disk" where
  "split_step env cs ed dk =
     (if ''chunk_splitting'' \<notin> set (completed_steps (state ed)) then
        (case split_into_chunks env cs dk of
           (Some e, dk1) \<Rightarrow> (Inl e, ed, dk1)
         | (None, dk1) \<Rightarrow>
             (case complete_step env ''chunk_splitting'' ed dk1 of
                (Some e, ed2, dk2) \<Rightarrow> (Inl e, ed2, dk2)
              | (None, ed2, dk2) \<Rightarrow> (Inr cs, ed2, dk2)))
      else (Inr cs, ed, dk))"

text \<open>Steps 1 and 2 of \<^verbatim>\<open>run\<close>: the chunk list, computed or read from the state.\<close>

definition prepare_chunks ::
  "environment \<Rightarrow> VideoEditor \<Rightarrow> disk \<Rightarrow>
     ((py_error + ChunkInfo list) \<times> VideoEditor \<times> disk) option" where
  "prepare_chunks env ed dk =
     (if ''chunk_calculation'' \<notin> set (completed_steps (state ed)) then
        (case calculate_chunks env ed dk of
           None \<Rightarrow> None
         | Some (Inl e, ed1, dk1) \<Rightarrow> Some (Inl e, ed1, dk1)
         | Some (Inr cs, ed1, dk1) \<Rightarrow>
             (case complete_step env ''chunk_calculation'' ed1 dk1 of
                (Some e, ed2, dk2) \<Rightarrow> Some (Inl e, ed2, dk2)
              | (None, ed2, dk2) \<Rightarrow> Some (split_step env cs ed2 dk2)))
      else Some (split_step env (chunks (state ed)) ed dk))"

text \<open>
  The inner loop of step 3: the first entry of \<^verbatim>\<open>self.state["chunks"]\<close> with the
  chunk's id is replaced by the chunk.
\<close>

fun update_state_chunk :: "ChunkInfo \<Rightarrow> ChunkInfo list \<Rightarrow> ChunkInfo list" where
  "update_state_chunk c [] = []"
| "update_state_chunk c (x # xs) =
     (if chunk_id x = chunk_id c then c # xs else x # update_state_chunk c xs)"

text \<open>
  Step 3 of \<^verbatim>\<open>run\<close>: the loop over the chunks. It ends early when a chunk fails
  (\<^verbatim>\<open>return False\<close>) or when saving the state raises. The list returned holds the
  chunk objects as the loop left them.
\<close>

datatype loop_outcome = Completed | Chunk_failed | Save_raised py_error

fun process_chunks ::
  "environment \<Rightarrow> VideoEditor \<Rightarrow> ChunkInfo list \<Rightarrow> disk \<Rightarrow>
     loop_outcome \<times> ChunkInfo list \<times> VideoEditor \<times> disk" where
  "process_chunks env ed [] dk = (Completed, [], ed, dk)"
| "process_chunks env ed (c # cs) dk =
     (if \<not> processed c then
        (case process_chunk env ed c dk of
           (False, c1, dk1) \<Rightarrow> (Chunk_failed, c1 # cs, ed, dk1)
         | (True, c1, dk1) \<Rightarrow>
             (let ed1 = ed\<lparr>state := (state ed)
                          \<lparr>chunks := update_state_chunk c1 (chunks (state ed))\<rparr>\<rparr>
              in case save_state env ed1 dk1 of
                   Inl e \<Rightarrow> (Save_raised e, c1 # cs, ed1, dk1)
                 | Inr dk2 \<Rightarrow>
                     (case process_chunks env ed1 cs dk2 of
                        (r, cs', ed', dk') \<Rightarrow> (r, c1 # cs', ed', dk'))))
      else
        (case process_chunks env ed cs dk of
           (r, cs', ed', dk') \<Rightarrow> (r, c # cs', ed', dk')))"

text \<open>
  \<^verbatim>\<open>run\<close>. Every exception below is caught by the handler of \<^verbatim>\<open>run\<close>, which
  returns \<^verbatim>\<open>False\<close>; a failed chunk returns \<^verbatim>\<open>False\<close> directly. The result is
  \<open>None\<close> only when the chunk loop of \<^verbatim>\<open>_calculate_chunks\<close> does not end.
\<close>

definition run :: "environment \<Rightarrow> VideoEditor \<Rightarrow> disk \<Rightarrow> (bool \<times> VideoEditor \<times> disk) option" where
  "run env ed dk =
     (case validate_input env ed dk of
        (Some e, ed0, dk0) \<Rightarrow> Some (False, ed0, dk0)
      | (None, ed0, dk0) \<Rightarrow>
          (case prepare_chunks env ed0 dk0 of
             None \<Rightarrow> None
           | Some (Inl e, ed1, dk1) \<Rightarrow> Some (False, ed1, dk1)
           | Some (Inr cs, ed1, dk1) \<Rightarrow>
               (case process_chunks env ed1 cs dk1 of
                  (Completed, cs', ed2, dk2) \<Rightarrow>
                    (case later_steps env cs' ed2 dk2 of
                       (Some e, ed3, dk3) \<Rightarrow> Some (False, ed3, dk3)
                     | (None, ed3, dk3) \<Rightarrow> Some (True, ed3, dk3))
                | (Chunk_failed, cs', ed2, dk2) \<Rightarrow> Some (False, ed2, dk2)
                | (Save_raised e, cs', ed2, dk2) \<Rightarrow> Some (False, ed2, dk2))))"


section \<open>update/src/state\_store.py: the persistent job and session store\<close>

subsection \<open>Data model\<close>

datatype JobStatus = PENDING | IN_PROGRESS | COMPLETED | FAILED | SKIPPED | RETRYING

text \<open>\<^verbatim>\<open>JobStatus.X.value\<close>: the string stored in the jobs file.\<close>

fun JobStatus_value :: "JobStatus \<Rightarrow> string" where
  "JobStatus_value PENDING = ''pending''"
| "JobStatus_value IN_PROGRESS = ''in_progress''"
| "JobStatus_value COMPLETED = ''completed''"
| "JobStatus_value FAILED = ''failed''"
| "JobStatus_value SKIPPED = ''skipped''"
| "JobStatus_value RETRYING = ''retrying''"

datatype SessionStatus = VALID | STALE | EXPIRED | INVALID

text \<open>A JSON object that the store passes through without looking inside.\<close>

type_synonym json_dict = "(string \<times> string) list"

text \<open>
  One entry of a job's \<^verbatim>\<open>diagnostics\<close> list; the keys are \<^verbatim>\<open>timestamp\<close>,
  \<^verbatim>\<open>status\<close>, \<^verbatim>\<open>step\<close> and \<^verbatim>\<open>data\<close>.
\<close>

record diagnostic_entry =
  diag_timestamp :: string
  diag_status :: string
  diag_step :: "string option"
  diag_data :: json_dict

text \<open>
  A job entry as \<^verbatim>\<open>add_job\<close> builds it. The keys \<^verbatim>\<open>current_step\<close>,
  \<^verbatim>\<open>start_time\<close> and \<^verbatim>\<open>end_time\<close> are the fields \<open>job_current_step\<close>,
  \<open>job_start_time\<close> and \<open>job_end_time\<close> (the plain names belong to the editor's
  records). JSON \<^verbatim>\<open>null\<close> is \<open>None\<close>; timestamps are the strings that
  \<^verbatim>\<open>isoformat()\<close> gives.
\<close>

record job =
  job_id :: string
  job_data :: json_dict
  status :: string
  created_at :: string
  updated_at :: string
  attempts :: int
  max_attempts :: int
  last_error :: "string option"
  diagnostics :: "diagnostic_entry list"
  job_current_step :: "string option"
  job_start_time :: "string option"
  job_end_time :: "string option"
  export_metadata :: "json_dict option"

text \<open>
  The jobs file: \<^verbatim>\<open>{"metadata": {...}, "jobs": {id: entry}}\<close>. The dictionary of
  jobs keeps its insertion order, in Python and in the JSON text, so it is an
  association list.
\<close>

record jobs_metadata =
  jobs_created_at :: "string option"
  version :: "string option"
  total_jobs :: "int option"
  last_updated :: "string option"

record jobs_state =
  jobs_meta :: jobs_metadata
  jobs :: "(string \<times> job) list"

text \<open>The session file: \<^verbatim>\<open>{"metadata": {...}, "session": {...}}\<close>; an absent key
  and a \<^verbatim>\<open>null\<close> are both \<open>None\<close>, as \<^verbatim>\<open>dict.get\<close> reads them.\<close>

record session_record =
  last_state_saved_at :: "string option"
  session_valid :: "bool option"
  state_file_path :: "string option"
  login_count :: "int option"
  last_validation_at :: "string option"

text \<open>What a state file holds: a JSON document, or bytes that \<^verbatim>\<open>json.load\<close> rejects.\<close>

datatype 'a stored = Garbled | Document 'a

text \<open>
  The state directory: the jobs file and the session file (\<open>None\<close> when the file does
  not exist) and the backups of the jobs file, by the timestamp in their name.
\<close>

record store_disk =
  jobs_file :: "jobs_state stored option"
  jobs_backups :: "(string \<times> jobs_state stored) list"
  session_file :: "session_record stored option"

text \<open>\<^verbatim>\<open>self.settings\<close>, with the keys the store reads; an absent key is \<open>None\<close>.\<close>

record session_settings =
  max_age_seconds :: "real option"

record retry_policy =
  policy_max_attempts :: "int option"
  base_backoff_seconds :: "real option"
  max_backoff_seconds :: "real option"
  backoff_multiplier :: "real option"
  jitter :: "bool option"

record settings =
  session_cfg :: "session_settings option"
  retry_cfg :: "retry_policy option"

definition DEFAULT_SESSION_MAX_AGE :: real where "DEFAULT_SESSION_MAX_AGE = 3600"
definition DEFAULT_MAX_ATTEMPTS :: int where "DEFAULT_MAX_ATTEMPTS = 3"
definition DEFAULT_BASE_BACKOFF :: real where "DEFAULT_BASE_BACKOFF = 2"
definition DEFAULT_MAX_BACKOFF :: real where "DEFAULT_MAX_BACKOFF = 60"
definition DEFAULT_BACKOFF_MULTIPLIER :: real where "DEFAULT_BACKOFF_MULTIPLIER = 2"

text \<open>\<^verbatim>\<open>_get_default_settings\<close>.\<close>

definition get_default_settings :: settings where
  "get_default_settings =
     \<lparr>session_cfg = Some \<lparr>max_age_seconds = Some DEFAULT_SESSION_MAX_AGE\<rparr>,
      retry_cfg = Some \<lparr>policy_max_attempts = Some DEFAULT_MAX_ATTEMPTS,
                       base_backoff_seconds = Some DEFAULT_BASE_BACKOFF,
                       max_backoff_seconds = Some DEFAULT_MAX_BACKOFF,
                       backoff_multiplier = Some DEFAULT_BACKOFF_MULTIPLIER,
                       jitter = Some True\<rparr>\<rparr>"

text \<open>
  What the environment does during one call of a store operation: whether reading a
  state file raises, whether the backup copy raises, how the write of the state file
  ends, and what the clock reads (as \<^verbatim>\<open>isoformat()\<close> and as
  \<^verbatim>\<open>strftime("%Y%m%d_%H%M%S")\<close>). All readings of the clock within one call are
  taken to be the same.
\<close>

datatype write_outcome = Written | Open_failed | Dump_failed

record call_env =
  read_fails :: bool
  copy_fails :: bool
  write_result :: write_outcome
  now_iso :: string
  now_stamp :: string

subsection \<open>Reading and writing the jobs file\<close>

text \<open>
  \<^verbatim>\<open>_backup_state_file\<close>: copy an existing file to a backup named by the time, then
  delete all but the last five backups in the order of their names. An error of the
  copy is caught here and only printed.
\<close>

definition prune_backups :: "(string \<times> 'a) list \<Rightarrow> (string \<times> 'a) list" where
  "prune_backups baks =
     (let names = sort (map fst baks) in
      if length names > 5
      then filter (\<lambda>(n, _). n \<notin> set (take (length names - 5) names)) baks
      else baks)"

definition backup_state_file ::
  "call_env \<Rightarrow> 'a stored option \<Rightarrow> (string \<times> 'a stored) list \<Rightarrow> (string \<times> 'a stored) list" where
  "backup_state_file env file baks =
     (case file of
        None \<Rightarrow> baks
      | Some content \<Rightarrow>
          if copy_fails env then baks
          else prune_backups (AList.update (now_stamp env) content baks))"

text \<open>The body of the \<^verbatim>\<open>try\<close> in \<^verbatim>\<open>_load_jobs_state\<close>.\<close>

definition read_jobs_file :: "call_env \<Rightarrow> store_disk \<Rightarrow> py_error + jobs_state" where
  "read_jobs_file env dk =
     (if read_fails env then Inl OSError
      else case jobs_file dk of
        None \<Rightarrow> Inl FileNotFoundError
      | Some Garbled \<Rightarrow> Inl ValueError
      | Some (Document d) \<Rightarrow> Inr d)"

text \<open>\<^verbatim>\<open>_load_jobs_state\<close>: any error gives the empty state.\<close>

definition load_jobs_state :: "call_env \<Rightarrow> store_disk \<Rightarrow> jobs_state" where
  "load_jobs_state env dk =
     (case read_jobs_file env dk of
        Inr d \<Rightarrow> d
      | Inl e \<Rightarrow>
          \<lparr>jobs_meta = \<lparr>jobs_created_at = None, version = None, total_jobs = None,
                        last_updated = None\<rparr>,
           jobs = []\<rparr>)"

text \<open>
  The body of the \<^verbatim>\<open>try\<close> in \<^verbatim>\<open>_save_jobs_state\<close>: back up, update the
  metadata (\<open>saved_doc\<close>), write. When the write raises, the backup has been made already; when it
  raises after the file was opened, the file is left truncated.
\<close>

definition saved_doc :: "call_env \<Rightarrow> jobs_state \<Rightarrow> jobs_state" where
  "saved_doc env st =
     st\<lparr>jobs_meta := (jobs_meta st)
          \<lparr>last_updated := Some (now_iso env),
           total_jobs := Some (int (length (jobs st)))\<rparr>\<rparr>"

definition write_jobs_file ::
  "call_env \<Rightarrow> jobs_state \<Rightarrow> store_disk \<Rightarrow> py_error \<times> store_disk + store_disk" where
  "write_jobs_file env st dk =
     (let dk1 = dk\<lparr>jobs_backups := backup_state_file env (jobs_file dk) (jobs_backups dk)\<rparr>;
          st1 = saved_doc env st
      in case write_result env of
           Written \<Rightarrow> Inr (dk1\<lparr>jobs_file := Some (Document st1)\<rparr>)
         | Open_failed \<Rightarrow> Inl (OSError, dk1)
         | Dump_failed \<Rightarrow> Inl (OSError, dk1\<lparr>jobs_file := Some Garbled\<rparr>))"

text \<open>
  \<^verbatim>\<open>_save_jobs_state\<close>: the handler prints the error and returns normally, so the
  caller cannot tell a failed write from a successful one.
\<close>

definition save_jobs_state :: "call_env \<Rightarrow> jobs_state \<Rightarrow> store_disk \<Rightarrow> store_disk" where
  "save_jobs_state env st dk =
     (case write_jobs_file env st dk of
        Inr dk' \<Rightarrow> dk'
      | Inl (e, dk') \<Rightarrow> dk')"

subsection \<open>Job operations\<close>

text \<open>The entry that \<^verbatim>\<open>add_job\<close> builds.\<close>

definition new_job_entry :: "settings \<Rightarrow> call_env \<Rightarrow> string \<Rightarrow> json_dict \<Rightarrow> job" where
  "new_job_entry cfg env jid jdata =
     \<lparr>job_id = jid,
      job_data = jdata,
      status = JobStatus_value PENDING,
      created_at = now_iso env,
      updated_at = now_iso env,
      attempts = 0,
      max_attempts =
        (case retry_cfg cfg of
           None \<Rightarrow> DEFAULT_MAX_ATTEMPTS
         | Some rp \<Rightarrow>
             (case policy_max_attempts rp of None \<Rightarrow> DEFAULT_MAX_ATTEMPTS | Some m \<Rightarrow> m)),
      last_error = None,
      diagnostics = [],
      job_current_step = None,
      job_start_time = None,
      job_end_time = None,
      export_metadata = None\<rparr>"

text \<open>
  The body of the \<^verbatim>\<open>try\<close> in \<^verbatim>\<open>add_job\<close>: load, assign
  \<^verbatim>\<open>state["jobs"][job_id]\<close>, save, \<^verbatim>\<open>return True\<close>. Loading and saving catch
  their own errors, so this body has no raising branch.
\<close>

definition add_job_body ::
  "settings \<Rightarrow> call_env \<Rightarrow> string \<Rightarrow> json_dict \<Rightarrow> store_disk \<Rightarrow> py_error + bool \<times> store_disk" where
  "add_job_body cfg env jid jdata dk =
     (let st = load_jobs_state env dk;
          st1 = st\<lparr>jobs := AList.update jid (new_job_entry cfg env jid jdata) (jobs st)\<rparr>
      in Inr (True, save_jobs_state env st1 dk))"

text \<open>\<^verbatim>\<open>add_job\<close>: the handler of the \<^verbatim>\<open>try\<close> returns \<^verbatim>\<open>False\<close>.\<close>

definition add_job ::
  "settings \<Rightarrow> call_env \<Rightarrow> string \<Rightarrow> json_dict \<Rightarrow> store_disk \<Rightarrow> bool \<times> store_disk" where
  "add_job cfg env jid jdata dk =
     (case add_job_body cfg env jid jdata dk of
        Inr r \<Rightarrow> r
      | Inl e \<Rightarrow> (False, dk))"

text \<open>The changes \<^verbatim>\<open>mark_job_status\<close> makes to the entry it found.\<close>

definition update_job ::
  "call_env \<Rightarrow> JobStatus \<Rightarrow> string option \<Rightarrow> string option \<Rightarrow> json_dict option \<Rightarrow> job \<Rightarrow> job" where
  "update_job env st error_message cur_step diag j =
     (let j1 = j\<lparr>status := JobStatus_value st, updated_at := now_iso env\<rparr>;
          j2 = (if truthy error_message then j1\<lparr>last_error := error_message\<rparr> else j1);
          j3 = (if truthy cur_step then j2\<lparr>job_current_step := cur_step\<rparr> else j2);
          j4 = (if st = IN_PROGRESS then
                  (let j' = (if \<not> truthy (job_start_time j3)
                             then j3\<lparr>job_start_time := Some (now_iso env)\<rparr> else j3)
                   in j'\<lparr>attempts := attempts j' + 1\<rparr>)
                else if st \<in> {COMPLETED, FAILED, SKIPPED} then
                  j3\<lparr>job_end_time := Some (now_iso env)\<rparr>
                else if st = RETRYING then j3\<lparr>attempts := attempts j3 + 1\<rparr>
                else j3)
      in case diag of
           None \<Rightarrow> j4
         | Some d \<Rightarrow>
             if d = [] then j4
             else j4\<lparr>diagnostics := diagnostics j4 @
                      [\<lparr>diag_timestamp = now_iso env, diag_status = JobStatus_value st,
                        diag_step = cur_step, diag_data = d\<rparr>]\<rparr>)"

text \<open>
  The body of the \<^verbatim>\<open>try\<close> in \<^verbatim>\<open>mark_job_status\<close>. An unknown id returns
  \<^verbatim>\<open>False\<close> before anything is written; otherwise the entry is changed in place,
  the state is saved and the result is \<^verbatim>\<open>True\<close>.
\<close>

definition mark_job_status_body ::
  "call_env \<Rightarrow> string \<Rightarrow> JobStatus \<Rightarrow> string option \<Rightarrow> string option \<Rightarrow> json_dict option \<Rightarrow>
     store_disk \<Rightarrow> py_error + bool \<times> store_disk" where
  "mark_job_status_body env jid st error_message cur_step diag dk =
     (let state = load_jobs_state env dk in
      case map_of (jobs state) jid of
        None \<Rightarrow> Inr (False, dk)
      | Some j \<Rightarrow>
          (let state1 = state\<lparr>jobs := AList.update jid
                           (update_job env st error_message cur_step diag j) (jobs state)\<rparr>
           in Inr (True, save_jobs_state env state1 dk)))"

definition mark_job_status ::
  "call_env \<Rightarrow> string \<Rightarrow> JobStatus \<Rightarrow> string option \<Rightarrow> string option \<Rightarrow> json_dict option \<Rightarrow>
     store_disk \<Rightarrow> bool \<times> store_disk" where
  "mark_job_status env jid st error_message cur_step diag dk =
     (case mark_job_status_body env jid st error_message cur_step diag dk of
        Inr r \<Rightarrow> r
      | Inl e \<Rightarrow> (False, dk))"

text \<open>\<^verbatim>\<open>get_job\<close>, \<^verbatim>\<open>get_jobs_by_status\<close>, \<^verbatim>\<open>get_pending_jobs\<close>.\<close>

definition get_job :: "call_env \<Rightarrow> string \<Rightarrow> store_disk \<Rightarrow> job option" where
  "get_job env jid dk = map_of (jobs (load_jobs_state env dk)) jid"

definition get_jobs_by_status :: "call_env \<Rightarrow> JobStatus \<Rightarrow> store_disk \<Rightarrow> job list" where
  "get_jobs_by_status env st dk =
     filter (\<lambda>j. status j = JobStatus_value st) (map snd (jobs (load_jobs_state env dk)))"

definition get_pending_jobs :: "call_env \<Rightarrow> store_disk \<Rightarrow> job list" where
  "get_pending_jobs env dk = get_jobs_by_status env PENDING dk"

text \<open>\<^verbatim>\<open>get_failed_jobs\<close>: the failed jobs that may be retried.\<close>

definition get_failed_jobs :: "call_env \<Rightarrow> store_disk \<Rightarrow> job list" where
  "get_failed_jobs env dk =
     filter (\<lambda>j. status j = JobStatus_value FAILED \<and> attempts j < max_attempts j)
       (map snd (jobs (load_jobs_state env dk)))"

text \<open>
  The loop of \<^verbatim>\<open>resume_failed_jobs\<close>. Each call of \<^verbatim>\<open>mark_job_status\<close> meets
  its own environment, given here by the id it is called with.
\<close>

fun resume_loop ::
  "(string \<Rightarrow> call_env) \<Rightarrow> job list \<Rightarrow> string list \<Rightarrow> store_disk \<Rightarrow> string list \<times> store_disk" where
  "resume_loop envs [] resumed dk = (resumed, dk)"
| "resume_loop envs (j # rest) resumed dk =
     (case mark_job_status (envs (job_id j)) (job_id j) PENDING None None None dk of
        (ok, dk') \<Rightarrow>
          resume_loop envs rest (if ok then resumed @ [job_id j] else resumed) dk')"

text \<open>
  \<^verbatim>\<open>resume_failed_jobs\<close>; \<open>env\<close> is the environment of the call of
  \<^verbatim>\<open>get_failed_jobs\<close>.
\<close>

definition resume_failed_jobs ::
  "call_env \<Rightarrow> (string \<Rightarrow> call_env) \<Rightarrow> store_disk \<Rightarrow> string list \<times> store_disk" where
  "resume_failed_jobs env envs dk = resume_loop envs (get_failed_jobs env dk) [] dk"

subsection \<open>Retry delay\<close>

text \<open>
  The least magnitude that is too large for a float. The largest finite float,
  \<^verbatim>\<open>sys.float_info.max\<close>, is \<open>2 ^ 1024 - 2 ^ 971\<close>; a result rounds to it below
  the midpoint \<open>2 ^ 1024 - 2 ^ 970\<close> and to infinity from there on.
\<close>

definition float_overflow :: real where
  "float_overflow = 2 ^ 1024 - 2 ^ 970"

text \<open>
  \<^verbatim>\<open>calculate_backoff_delay\<close>. \<open>rnd\<close> is the value of \<^verbatim>\<open>random.random()\<close> behind
  \<^verbatim>\<open>random.uniform(0.1, 0.3)\<close>, which computes \<^verbatim>\<open>a + (b - a) * random()\<close>.
  The multiplier is a float, as the default \<^verbatim>\<open>2.0\<close> is, so the power
  \<^verbatim>\<open>multiplier ** (attempt - 1)\<close> is a float power: it raises
  \<^verbatim>\<open>ZeroDivisionError\<close> for a zero base and a negative exponent, and
  \<^verbatim>\<open>OverflowError\<close> when the result is too large for a float (from attempt 1025 on
  for the multiplier 2.0); a result too small for a float is 0.0 without an error. The
  function has no handler, so both exceptions reach the caller. Apart from this bound the
  floats are real numbers here: rounding is left out.
\<close>

definition calculate_backoff_delay :: "settings \<Rightarrow> real \<Rightarrow> int \<Rightarrow> py_error + real" where
  "calculate_backoff_delay cfg rnd attempt =
     (let rp = (case retry_cfg cfg of
                  None \<Rightarrow> \<lparr>policy_max_attempts = None, base_backoff_seconds = None,
                            max_backoff_seconds = None, backoff_multiplier = None,
                            jitter = None\<rparr>
                | Some r \<Rightarrow> r);
          base_backoff = (case base_backoff_seconds rp of None \<Rightarrow> DEFAULT_BASE_BACKOFF | Some b \<Rightarrow> b);
          max_backoff = (case max_backoff_seconds rp of None \<Rightarrow> DEFAULT_MAX_BACKOFF | Some m \<Rightarrow> m);
          multiplier = (case backoff_multiplier rp of None \<Rightarrow> DEFAULT_BACKOFF_MULTIPLIER | Some m \<Rightarrow> m);
          use_jitter = (case jitter rp of None \<Rightarrow> True | Some b \<Rightarrow> b)
      in if multiplier = 0 \<and> attempt - 1 < 0 then Inl ZeroDivisionError
         else if float_overflow \<le> \<bar>multiplier powi (attempt - 1)\<bar> then Inl OverflowError
         else
           (let delay = base_backoff * (multiplier powi (attempt - 1));
                delay1 = min delay max_backoff
            in if use_jitter
               then Inr (delay1 + (1 / 10 + (3 / 10 - 1 / 10) * rnd) * delay1)
               else Inr delay1))"

subsection \<open>Session freshness\<close>

text \<open>\<^verbatim>\<open>s.replace('Z', '+00:00')\<close>.\<close>

definition replace_Z :: "string \<Rightarrow> string" where
  "replace_Z s = concat (map (\<lambda>c. if c = CHR ''Z'' then ''+00:00'' else [c]) s)"

text \<open>The body of the \<^verbatim>\<open>try\<close> in \<^verbatim>\<open>_load_session_state\<close>, and the function.\<close>

definition read_session_file :: "call_env \<Rightarrow> store_disk \<Rightarrow> py_error + session_record" where
  "read_session_file env dk =
     (if read_fails env then Inl OSError
      else case session_file dk of
        None \<Rightarrow> Inl FileNotFoundError
      | Some Garbled \<Rightarrow> Inl ValueError
      | Some (Document d) \<Rightarrow> Inr d)"

definition load_session_state :: "call_env \<Rightarrow> store_disk \<Rightarrow> session_record" where
  "load_session_state env dk =
     (case read_session_file env dk of
        Inr d \<Rightarrow> d
      | Inl e \<Rightarrow>
          \<lparr>last_state_saved_at = None, session_valid = None, state_file_path = None,
           login_count = None, last_validation_at = None\<rparr>)"

text \<open>
  \<^verbatim>\<open>check_session_ttl\<close>. The library call
  \<^verbatim>\<open>datetime.fromisoformat(s).replace(tzinfo=None)\<close> is the parameter \<open>fromisoformat\<close>:
  it gives the wall-clock reading of the timestamp in seconds, or raises. \<open>now\<close> is
  \<^verbatim>\<open>datetime.now()\<close> on the same scale, so \<open>now - t\<close> is
  \<^verbatim>\<open>(datetime.now() - t).total_seconds()\<close>.
\<close>

definition check_session_ttl ::
  "(string \<Rightarrow> py_error + real) \<Rightarrow> settings \<Rightarrow> real \<Rightarrow> call_env \<Rightarrow> store_disk \<Rightarrow> SessionStatus" where
  "check_session_ttl fromisoformat cfg now env dk =
     (let session = load_session_state env dk in
      case last_state_saved_at session of
        None \<Rightarrow> INVALID
      | Some last_saved \<Rightarrow>
          if last_saved = [] then INVALID
          else
            (case fromisoformat (replace_Z last_saved) of
               Inl e \<Rightarrow> INVALID
             | Inr last_saved_dt \<Rightarrow>
                 (let max_age =
                        (case session_cfg cfg of
                           None \<Rightarrow> DEFAULT_SESSION_MAX_AGE
                         | Some sc \<Rightarrow>
                             (case max_age_seconds sc of
                                None \<Rightarrow> DEFAULT_SESSION_MAX_AGE
                              | Some m \<Rightarrow> m));
                      age_seconds = now - last_saved_dt
                  in if age_seconds > max_age then EXPIRED
                     else if age_seconds > max_age * (8 / 10) then STALE
                     else VALID)))"

subsection \<open>Auxiliary notions\<close>

text \<open>
  The test of \<^verbatim>\<open>get_failed_jobs\<close> on one entry, and the entry after
  \<^verbatim>\<open>mark_job_status(job_id, JobStatus.PENDING)\<close>; both only name terms of the
  proofs about \<^verbatim>\<open>resume_failed_jobs\<close>.
\<close>

definition eligible :: "job \<Rightarrow> bool" where
  "eligible j = (status j = JobStatus_value FAILED \<and> attempts j < max_attempts j)"

definition pend :: "(string \<Rightarrow> call_env) \<Rightarrow> string \<Rightarrow> job \<Rightarrow> job" where
  "pend envs k j = update_job (envs k) PENDING None None None j"

section \<open>Concrete inputs\<close>

definition example_config :: EditConfig where
  "example_config =
     \<lparr>input_video = ''downloads/raw.mp4'', output_video = ''output/final.mp4'',
      speed_multiplier = 12 / 10, remove_silence = True, silence_threshold = - 40,
      silence_duration = 1 / 2, jump_cut_threshold = 3 / 10, apply_transitions = True,
      apply_zoom_effects = True, add_subtitles = True, add_subscribe_popup = True,
      add_sound_effects = True, background_music = None,
      background_music_volume = 15 / 100, chunk_duration = 300, max_workers = 2,
      extract_subtitles = True, generate_metadata = True, openrouter_api_key = None\<rparr>"

definition example_editor :: VideoEditor where
  "example_editor =
     \<lparr>config = example_config, work_dir = ''work'', chunks_dir = ''work/chunks'',
      temp_dir = ''work/temp'', state_file = ''work/edit_state.json'',
      state = fresh_state\<rparr>"

definition example_env :: environment where
  "example_env =
     \<lparr>file_checksum = (\<lambda>_. Inr ''9f2c''),
      probe_duration = (\<lambda>_. Inr 650),
      save_error = (\<lambda>_. None),
      split_result = (\<lambda>c. \<lparr>raised = None, written = {input_path c}\<rparr>),
      helper_result = (\<lambda>h i out. \<lparr>raised = None, written = {out}\<rparr>),
      unlink_fails = (\<lambda>_. False),
      later_steps = (\<lambda>cs ed dk. (None, ed, dk))\<rparr>"

definition example_disk :: disk where
  "example_disk =
     \<lparr>files = {''downloads/raw.mp4''}, dirs = {''work'', ''work/chunks'', ''work/temp''},
      state_doc = None\<rparr>"

definition example_job :: job where
  "example_job =
     \<lparr>job_id = ''job-1'', job_data = [(''title'', ''Demo'')], status = ''pending'',
      created_at = ''2024-05-01T09:00:00'', updated_at = ''2024-05-01T09:00:00'',
      attempts = 0, max_attempts = 3, last_error = None, diagnostics = [],
      job_current_step = None, job_start_time = None, job_end_time = None,
      export_metadata = None\<rparr>"

definition example_jobs_state :: jobs_state where
  "example_jobs_state =
     \<lparr>jobs_meta = \<lparr>jobs_created_at = Some ''2024-05-01T08:00:00'', version = Some ''1.0.0'',
                   total_jobs = Some 1, last_updated = Some ''2024-05-01T09:00:00''\<rparr>,
      jobs = [(''job-1'', example_job)]\<rparr>"

definition example_store :: store_disk where
  "example_store =
     \<lparr>jobs_file = Some (Document example_jobs_state), jobs_backups = [],
      session_file = None\<rparr>"

definition call_at :: "string \<Rightarrow> string \<Rightarrow> call_env" where
  "call_at t stamp =
     \<lparr>read_fails = False, copy_fails = False, write_result = Written,
      now_iso = t, now_stamp = stamp\<rparr>"

definition example_job_used :: job where
  "example_job_used =
     example_job\<lparr>status := ''failed'', attempts := 2, last_error := Some ''timeout'',
                 job_start_time := Some ''2024-05-01T09:10:00'',
                 job_end_time := Some ''2024-05-01T09:20:00''\<rparr>"

definition example_store_used :: store_disk where
  "example_store_used =
     example_store\<lparr>jobs_file := Some (Document (example_jobs_state\<lparr>jobs := [(''job-1'', example_job_used)]\<rparr>))\<rparr>"

definition retry_jobs_state :: jobs_state where
  "retry_jobs_state =
     example_jobs_state\<lparr>jobs :=
       [(''job-a'', example_job\<lparr>job_id := ''job-a'', status := ''failed'', attempts := 1\<rparr>),
        (''job-b'', example_job\<lparr>job_id := ''job-b'', status := ''failed'', attempts := 3\<rparr>),
        (''job-c'', example_job\<lparr>job_id := ''job-c'', status := ''completed'', attempts := 1\<rparr>)]\<rparr>"

definition retry_store :: store_disk where
  "retry_store =
     \<lparr>jobs_file = Some (Document retry_jobs_state), jobs_backups = [], session_file = None\<rparr>"

definition policy_settings :: "real \<Rightarrow> real \<Rightarrow> real \<Rightarrow> bool \<Rightarrow> settings" where
  "policy_settings b m mx jit =
     \<lparr>session_cfg = None,
      retry_cfg = Some \<lparr>policy_max_attempts = None, base_backoff_seconds = Some b,
                       max_backoff_seconds = Some mx, backoff_multiplier = Some m,
                       jitter = Some jit\<rparr>\<rparr>"

definition example_fromisoformat :: "string \<Rightarrow> py_error + real" where
  "example_fromisoformat s =
     (if s = ''2024-05-01T10:00:00+00:00'' then Inr 1000 else Inl ValueError)"

definition session_store :: "string option \<Rightarrow> store_disk" where
  "session_store saved =
     \<lparr>jobs_file = None, jobs_backups = [],
      session_file = Some (Document
        \<lparr>last_state_saved_at = saved, session_valid = Some True,
         state_file_path = Some ''state/browser.json'', login_count = Some 1,
         last_validation_at = Some ''2024-05-01T10:00:00''\<rparr>)\<rparr>"

definition stale_state :: edit_state where
  "stale_state =
     \<lparr>chunks = [\<lparr>chunk_id = 0, start_time = 0, end_time = 200, duration = 200,
                  input_path = ''work/chunks/chunk_000_input.mp4'',
                  output_path = ''work/chunks/chunk_000_output.mp4'',
                  processed = True, checksum = Some ''c0c0''\<rparr>],
      current_step = Some ''init'',
      completed_steps = [''chunk_calculation'', ''chunk_splitting''],
      metadata = \<lparr>input_checksum = Some ''0ld5'', total_chunks = Some 1,
                  total_duration = Some 200, concat_output = None, transcript = None\<rparr>\<rparr>"

definition stale_disk :: disk where
  "stale_disk =
     \<lparr>files = {''downloads/raw.mp4'', ''work/chunks/chunk_000_input.mp4'',
               ''work/chunks/chunk_000_output.mp4''},
      dirs = {''work'', ''work/chunks'', ''work/temp''},
      state_doc = Some stale_state\<rparr>"

definition changed_env :: environment where
  "changed_env =
     \<lparr>file_checksum = (\<lambda>_. Inr ''n3w1''),
      probe_duration = (\<lambda>_. Inr 120),
      save_error = (\<lambda>_. None),
      split_result = (\<lambda>c. \<lparr>raised = Some CalledProcessError, written = {}\<rparr>),
      helper_result = (\<lambda>h i out. \<lparr>raised = Some CalledProcessError, written = {}\<rparr>),
      unlink_fails = (\<lambda>_. False),
      later_steps = (\<lambda>cs ed dk. (None, ed, dk))\<rparr>"

definition resume_chunk :: "nat \<Rightarrow> real \<Rightarrow> real \<Rightarrow> ChunkInfo" where
  "resume_chunk n s e =
     \<lparr>chunk_id = n, start_time = s, end_time = e, duration = e - s,
      input_path = ''work/chunks/chunk_'' @ fmt03d n @ ''_input.mp4'',
      output_path = ''work/chunks/chunk_'' @ fmt03d n @ ''_output.mp4'',
      processed = False, checksum = None\<rparr>"

definition resume_state :: edit_state where
  "resume_state =
     \<lparr>chunks = [resume_chunk 0 0 300, resume_chunk 1 300 450],
      current_step = Some ''init'',
      completed_steps = [''chunk_calculation'', ''chunk_splitting''],
      metadata = \<lparr>input_checksum = Some ''9f2c'', total_chunks = Some 2,
                  total_duration = Some 450, concat_output = None, transcript = None\<rparr>\<rparr>"

definition resume_editor :: VideoEditor where
  "resume_editor = example_editor\<lparr>state := resume_state\<rparr>"

definition resume_disk :: disk where
  "resume_disk =
     \<lparr>files = {''downloads/raw.mp4'', ''work/chunks/chunk_000_input.mp4'',
               ''work/chunks/chunk_001_input.mp4''},
      dirs = {''work'', ''work/chunks'', ''work/temp''},
      state_doc = Some resume_state\<rparr>"

definition failing_env :: environment where
  "failing_env =
     example_env\<lparr>helper_result :=
       (\<lambda>h i out. if out = ''work/chunks/chunk_001_output.mp4''
                   then \<lparr>raised = Some CalledProcessError, written = {}\<rparr>
                   else \<lparr>raised = None, written = {out}\<rparr>)\<rparr>"

definition flagged_chunk :: ChunkInfo where
  "flagged_chunk =
     \<lparr>chunk_id = 0, start_time = 0, end_time = 200, duration = 200,
      input_path = ''work/chunks/chunk_000_input.mp4'',
      output_path = ''work/chunks/chunk_000_output.mp4'',
      processed = True, checksum = Some ''c0c0''\<rparr>"

definition flagged_state :: edit_state where
  "flagged_state =
     \<lparr>chunks = [flagged_chunk],
      current_step = Some ''init'',
      completed_steps = [''chunk_calculation'', ''chunk_splitting''],
      metadata = \<lparr>input_checksum = Some ''9f2c'', total_chunks = Some 1,
                  total_duration = Some 200, concat_output = None, transcript = None\<rparr>\<rparr>"

definition flagged_disk :: disk where
  "flagged_disk =
     \<lparr>files = {''downloads/raw.mp4'', ''work/chunks/chunk_000_input.mp4''},
      dirs = {''work'', ''work/chunks'', ''work/temp''},
      state_doc = Some flagged_state\<rparr>"

definition broken_env :: environment where
  "broken_env =
     example_env\<lparr>helper_result :=
       (\<lambda>h i out. \<lparr>raised = Some CalledProcessError, written = {}\<rparr>)\<rparr>"

definition flagged_editor :: VideoEditor where
  "flagged_editor = example_editor\<lparr>state := flagged_state\<rparr>"

section \<open>Verification\<close>

lemma end_time_make_chunk:
  "end_time (make_chunk ed dur cid start) = min (start + real_of_int (chunk_duration (config ed))) dur"
  by (simp add: make_chunk_def Let_def)

lemma chunk_loop_closed:
  assumes C: "0 < chunk_duration (config ed)"
  shows "chunk_loop ed dur acc cid start =
     Some (acc @ map (\<lambda>k. make_chunk ed dur (cid + k)
                        (start + real k * real_of_int (chunk_duration (config ed))))
                 [0..<nat \<lceil>(dur - start) / real_of_int (chunk_duration (config ed))\<rceil>])"
proof (induction "nat \<lceil>(dur - start) / real_of_int (chunk_duration (config ed))\<rceil>"
        arbitrary: acc cid start)
  case 0
  define c where "c = real_of_int (chunk_duration (config ed))"
  have cpos: "0 < c" using C by (simp add: c_def)
  from 0 have "\<lceil>(dur - start) / c\<rceil> \<le> 0" by (simp add: c_def)
  then have "(dur - start) / c \<le> 0" by (simp add: ceiling_le_iff)
  then have "dur - start \<le> 0" using cpos by (simp add: divide_le_0_iff)
  then have "\<not> start < dur" by simp
  then show ?case using 0 by (subst chunk_loop.simps) simp
next
  case (Suc n)
  define c where "c = real_of_int (chunk_duration (config ed))"
  have cpos: "0 < c" using C by (simp add: c_def)
  have cge1: "1 \<le> c" using C by (simp add: c_def)
  define z where "z = \<lceil>(dur - start) / c\<rceil>"
  from Suc(2) have "Suc n = nat z" by (simp add: c_def z_def)
  then have "z = int (Suc n)" by linarith
  then have n: "\<lceil>(dur - start) / c\<rceil> = int (Suc n)" by (simp add: z_def)
  then have "0 < \<lceil>(dur - start) / c\<rceil>" by simp
  then have "0 < (dur - start) / c" by simp
  then have lt: "start < dur" using cpos by (simp add: zero_less_divide_iff)
  let ?e = "min (start + c) dur"
  have nn: "n = nat \<lceil>(dur - ?e) / c\<rceil>"
  proof (cases "start + c \<le> dur")
    case True
    then have "?e = start + c" by simp
    moreover have "(dur - (start + c)) / c = (dur - start) / c - 1"
      using cpos by (simp add: field_simps)
    ultimately show ?thesis using n by simp
  next
    case False
    then have e: "?e = dur" by simp
    from False have "(dur - start) / c < 1" using cpos by (simp add: field_simps)
    then have "\<lceil>(dur - start) / c\<rceil> \<le> 1" by (simp add: ceiling_le_iff)
    with n have "n = 0" by simp
    then show ?thesis using e by simp
  qed
  have step: "chunk_loop ed dur acc cid start =
      chunk_loop ed dur (acc @ [make_chunk ed dur cid start]) (cid + 1) ?e"
    using lt by (subst chunk_loop.simps) (simp add: end_time_make_chunk c_def)
  have IH: "chunk_loop ed dur (acc @ [make_chunk ed dur cid start]) (cid + 1) ?e =
      Some ((acc @ [make_chunk ed dur cid start]) @
        map (\<lambda>k. make_chunk ed dur (cid + 1 + k) (?e + real k * c)) [0..<n])"
    using Suc(1)[of ?e "acc @ [make_chunk ed dur cid start]" "cid + 1"] nn
    by (simp add: c_def)
  have tail: "map (\<lambda>k. make_chunk ed dur (cid + 1 + k) (?e + real k * c)) [0..<n]
      = map (\<lambda>k. make_chunk ed dur (cid + Suc k) (start + real (Suc k) * c)) [0..<n]"
  proof (cases "n = 0")
    case True then show ?thesis by simp
  next
    case False
    have "start + c \<le> dur"
    proof (rule ccontr)
      assume "\<not> start + c \<le> dur"
      then have "(dur - start) / c < 1" using cpos by (simp add: field_simps)
      then have "\<lceil>(dur - start) / c\<rceil> \<le> 1" by (simp add: ceiling_le_iff)
      with n False show False by simp
    qed
    then have "?e = start + c" by simp
    then show ?thesis by (simp add: algebra_simps)
  qed
  have "[0..<Suc n] = 0 # map Suc [0..<n]"
    by (simp add: upt_conv_Cons map_Suc_upt del: upt_Suc)
  then have "map (\<lambda>k. make_chunk ed dur (cid + k) (start + real k * c)) [0..<Suc n]
     = make_chunk ed dur cid start #
       map (\<lambda>k. make_chunk ed dur (cid + Suc k) (start + real (Suc k) * c)) [0..<n]"
    by (simp add: comp_def del: upt_Suc)
  with step IH tail show ?case
    using Suc(2) by (simp add: c_def del: upt_Suc)
qed


text \<open>
  Claim C1. When no chunk list is cached in the state, \<^verbatim>\<open>ffprobe\<close> reports a
  duration \<open>D > 0\<close>, the configured chunk duration is \<open>C > 0\<close> and the state file can
  be written, \<^verbatim>\<open>_calculate_chunks\<close> returns (the loop ends) a list that it also
  stores in the state and on disk, with \<open>\<lceil>D / C\<rceil>\<close> chunks numbered from 0; the first
  chunk starts at 0, every chunk starts where the one before ends, every chunk is
  non-empty and ends at \<open>min (start + C) D\<close>, and the last chunk ends at \<open>D\<close>
  exactly. So the chunks partition the interval from 0 to \<open>D\<close> without gap or
  overlap.
\<close>

theorem calculate_chunks_partition:
  assumes fresh: "chunks (state ed) = []"
    and probe: "probe_duration env (input_video (config ed)) = Inr D"
    and D: "0 < D"
    and C: "0 < chunk_duration (config ed)"
    and save: "\<forall>s. save_error env s = None"
  shows "\<exists>cs ed' dk'.
      calculate_chunks env ed dk = Some (Inr cs, ed', dk') \<and>
      chunks (state ed') = cs \<and> state_doc dk' = Some (state ed') \<and>
      length cs = nat \<lceil>D / real_of_int (chunk_duration (config ed))\<rceil> \<and>
      cs \<noteq> [] \<and> start_time (hd cs) = 0 \<and> end_time (last cs) = D \<and>
      (\<forall>i. Suc i < length cs \<longrightarrow> start_time (cs ! Suc i) = end_time (cs ! i)) \<and>
      (\<forall>i < length cs.
         chunk_id (cs ! i) = i \<and>
         start_time (cs ! i) < end_time (cs ! i) \<and>
         end_time (cs ! i) =
           min (start_time (cs ! i) + real_of_int (chunk_duration (config ed))) D \<and>
         duration (cs ! i) = end_time (cs ! i) - start_time (cs ! i))"
proof -
  define c where "c = real_of_int (chunk_duration (config ed))"
  define n where "n = nat \<lceil>D / c\<rceil>"
  define cs where "cs = map (\<lambda>k. make_chunk ed D k (real k * c)) [0..<n]"
  have cpos: "0 < c" using C by (simp add: c_def)
  have loop: "chunk_loop ed D [] 0 0 = Some cs"
    using chunk_loop_closed[OF C, of D "[]" 0 0] by (simp add: cs_def n_def c_def)
  have len: "length cs = n" by (simp add: cs_def)
  have "0 < D / c" using D cpos by simp
  then have "0 < \<lceil>D / c\<rceil>" by simp
  then have npos: "0 < n" by (simp add: n_def)
  have nth: "cs ! i = make_chunk ed D i (real i * c)" if "i < n" for i
    using that by (simp add: cs_def)
  have st: "start_time (cs ! i) = real i * c" if "i < n" for i
    using nth[OF that] by (simp add: make_chunk_def Let_def)
  have en: "end_time (cs ! i) = min (real i * c + c) D" if "i < n" for i
    using nth[OF that] by (simp add: make_chunk_def Let_def c_def)
  have below: "real i * c < D" if "i < n" for i
  proof -
    from that have "int i < \<lceil>D / c\<rceil>" by (simp add: n_def)
    then have "real i < D / c" by (simp add: less_ceiling_iff)
    then show ?thesis using cpos by (simp add: pos_less_divide_eq)
  qed
  have inner: "real (Suc i) * c \<le> D" if "Suc i < n" for i
    using below[OF that] by simp
  have chain: "start_time (cs ! Suc i) = end_time (cs ! i)" if "Suc i < n" for i
  proof -
    have "i < n" using that by simp
    then have "end_time (cs ! i) = min (real i * c + c) D" by (rule en)
    also have "real i * c + c = real (Suc i) * c" by (simp add: algebra_simps)
    also have "min (real (Suc i) * c) D = real (Suc i) * c" using inner[OF that] by simp
    finally show ?thesis using st[OF that] by simp
  qed
  have lastc: "end_time (last cs) = D"
  proof -
    have "cs \<noteq> []" using npos len by auto
    then have l: "last cs = cs ! (n - 1)" using len by (simp add: last_conv_nth)
    have "int n = \<lceil>D / c\<rceil>" using \<open>0 < \<lceil>D / c\<rceil>\<close> by (simp add: n_def)
    then have "D / c \<le> real n" by (metis le_of_int_ceiling of_int_of_nat_eq)
    then have "D \<le> real n * c" using cpos by (simp add: pos_divide_le_eq)
    moreover have "real (n - 1) * c + c = real n * c"
      using npos by (simp add: algebra_simps)
    ultimately have "min (real (n - 1) * c + c) D = D" by simp
    then show ?thesis using l en[of "n - 1"] npos by simp
  qed
  have ne: "cs \<noteq> []" using npos len by auto
  have hd0: "start_time (hd cs) = 0"
    using npos ne st[of 0] by (simp add: hd_conv_nth)
  have each: "chunk_id (cs ! i) = i \<and> start_time (cs ! i) < end_time (cs ! i) \<and>
      end_time (cs ! i) = min (start_time (cs ! i) + c) D \<and>
      duration (cs ! i) = end_time (cs ! i) - start_time (cs ! i)" if "i < n" for i
    using nth[OF that] below[OF that] cpos
    by (simp add: make_chunk_def Let_def c_def)
  let ?ed = "ed\<lparr>state := (state ed)\<lparr>chunks := cs,
                 metadata := (metadata (state ed))
                   \<lparr>total_chunks := Some (length cs), total_duration := Some D\<rparr>\<rparr>\<rparr>"
  have run: "calculate_chunks env ed dk =
      Some (Inr cs, ?ed, dk\<lparr>state_doc := Some (state ?ed)\<rparr>)"
    using fresh probe loop save by (simp add: calculate_chunks_def save_state_def Let_def)
  let ?dk = "dk\<lparr>state_doc := Some (state ?ed)\<rparr>"
  have chain': "\<forall>i. Suc i < length cs \<longrightarrow> start_time (cs ! Suc i) = end_time (cs ! i)"
    unfolding len using chain by blast
  have each': "\<forall>i < length cs.
         chunk_id (cs ! i) = i \<and>
         start_time (cs ! i) < end_time (cs ! i) \<and>
         end_time (cs ! i) =
           min (start_time (cs ! i) + real_of_int (chunk_duration (config ed))) D \<and>
         duration (cs ! i) = end_time (cs ! i) - start_time (cs ! i)"
    unfolding len using each[unfolded c_def] by blast
  have len': "length cs = nat \<lceil>D / real_of_int (chunk_duration (config ed))\<rceil>"
    using len by (simp only: n_def c_def)
  have st': "chunks (state ?ed) = cs" by simp
  have doc': "state_doc ?dk = Some (state ?ed)" by simp
  show ?thesis
    using run st' doc' len' ne hd0 lastc chain' each' by blast
qed


theorem calculate_chunks_partition_witness:
  "chunks (state example_editor) = [] \<and>
   probe_duration example_env (input_video (config example_editor)) = Inr 650 \<and>
   0 < chunk_duration (config example_editor) \<and>
   (\<exists>cs ed' dk'.
      calculate_chunks example_env example_editor example_disk = Some (Inr cs, ed', dk') \<and>
      map (\<lambda>c. (chunk_id c, start_time c, end_time c)) cs =
        [(0, 0, 300), (1, 300, 600), (2, 600, 650)])"
proof -
  have h1: "chunks (state example_editor) = []"
    by (simp add: example_editor_def fresh_state_def)
  have h2: "probe_duration example_env (input_video (config example_editor)) = Inr 650"
    by (simp add: example_env_def)
  have h3: "(0::real) < 650" by simp
  have h4: "0 < chunk_duration (config example_editor)"
    by (simp add: example_editor_def example_config_def)
  have h5: "\<forall>s. save_error example_env s = None"
    by (simp add: example_env_def)
  have cd: "real_of_int (chunk_duration (config example_editor)) = 300"
    by (simp add: example_editor_def example_config_def)
  from calculate_chunks_partition[OF h1 h2 h3 h4 h5, of example_disk]
  obtain cs ed' dk' where
    run: "calculate_chunks example_env example_editor example_disk = Some (Inr cs, ed', dk')"
    and len: "length cs = nat \<lceil>650 / real_of_int (chunk_duration (config example_editor))\<rceil>"
    and hd0: "start_time (hd cs) = 0"
    and chain: "\<forall>i. Suc i < length cs \<longrightarrow> start_time (cs ! Suc i) = end_time (cs ! i)"
    and each: "\<forall>i < length cs.
         chunk_id (cs ! i) = i \<and>
         start_time (cs ! i) < end_time (cs ! i) \<and>
         end_time (cs ! i) =
           min (start_time (cs ! i) + real_of_int (chunk_duration (config example_editor))) 650 \<and>
         duration (cs ! i) = end_time (cs ! i) - start_time (cs ! i)"
    by blast
  have len3: "length cs = 3" using len by (simp add: cd)
  then obtain a b c where abc: "cs = [a, b, c]"
    by (auto simp: numeral_3_eq_3 length_Suc_conv)
  have sa: "start_time a = 0" using hd0 abc by simp
  have ea: "end_time a = 300" using each[rule_format, of 0] abc sa cd by simp
  have sb: "start_time b = 300" using chain[rule_format, of 0] abc ea by simp
  have eb: "end_time b = 600"
    using each[rule_format, of 1] abc sb cd by simp
  have sc: "start_time c = 600" using chain[rule_format, of 1] abc eb by simp
  have ec: "end_time c = 650"
    using each[rule_format, of 2] abc sc cd by simp
  have ids: "chunk_id a = 0 \<and> chunk_id b = 1 \<and> chunk_id c = 2"
    using each[rule_format, of 0] each[rule_format, of 1] each[rule_format, of 2] abc by simp
  have m: "map (\<lambda>c. (chunk_id c, start_time c, end_time c)) cs =
        [(0, 0, 300), (1, 300, 600), (2, 600, 650)]"
    using abc sa ea sb eb sc ec ids by simp
  have "\<exists>cs ed' dk'.
      calculate_chunks example_env example_editor example_disk = Some (Inr cs, ed', dk') \<and>
      map (\<lambda>c. (chunk_id c, start_time c, end_time c)) cs =
        [(0, 0, 300), (1, 300, 600), (2, 600, 650)]"
    by (rule exI[of _ cs], rule exI[of _ ed'], rule exI[of _ dk']) (simp only: run m)
  with h1 h2 h4 show ?thesis by simp
qed

lemma load_jobs_state_ok:
  "\<not> read_fails env \<Longrightarrow> jobs_file dk = Some (Document d) \<Longrightarrow> load_jobs_state env dk = d"
  by (simp add: load_jobs_state_def read_jobs_file_def)

lemma save_jobs_state_doc:
  "write_result env = Written \<Longrightarrow>
   jobs_file (save_jobs_state env st dk) = Some (Document (saved_doc env st))"
  by (simp add: save_jobs_state_def write_jobs_file_def Let_def)

lemma mark_job_status_unknown:
  "map_of (jobs (load_jobs_state env dk)) jid = None \<Longrightarrow>
   mark_job_status env jid st em cs dg dk = (False, dk)"
  by (simp add: mark_job_status_def mark_job_status_body_def Let_def)

lemma mark_job_status_known:
  assumes "\<not> read_fails env" "jobs_file dk = Some (Document d)" "map_of (jobs d) jid = Some j"
  shows "mark_job_status env jid st em cs dg dk =
     (True, save_jobs_state env
        (d\<lparr>jobs := AList.update jid (update_job env st em cs dg j) (jobs d)\<rparr>) dk)"
  using assms by (simp add: mark_job_status_def mark_job_status_body_def Let_def load_jobs_state_ok)

lemma jobs_saved_doc: "jobs (saved_doc env st) = jobs st"
  by (simp add: saved_doc_def)

lemma attempts_update_job_IN_PROGRESS:
  "attempts (update_job env IN_PROGRESS em cs dg j) = attempts j + 1"
  by (simp add: update_job_def Let_def split: option.splits)

lemma start_time_update_job_IN_PROGRESS:
  "job_start_time (update_job env IN_PROGRESS em cs dg j) =
     (if truthy (job_start_time j) then job_start_time j else Some (now_iso env))"
  by (simp add: update_job_def Let_def split: option.splits)

lemma end_time_update_job_terminal:
  "st \<in> {COMPLETED, FAILED, SKIPPED} \<Longrightarrow>
   job_end_time (update_job env st em cs dg j) = Some (now_iso env)"
  by (auto simp add: update_job_def Let_def split: option.splits)

lemma status_update_job: "status (update_job env st em cs dg j) = JobStatus_value st"
  by (simp add: update_job_def Let_def split: option.splits)

lemma map_of_update_same: "map_of (AList.update k v al) k = Some v"
  by (simp add: AList.update_conv')

text \<open>
  Claim C3. For a job in the jobs file, with the file readable and writable, two
  calls of \<^verbatim>\<open>mark_job_status(id, IN_PROGRESS)\<close> in succession both return
  \<^verbatim>\<open>True\<close> and leave the job with its attempts increased by exactly 2 (by 1 after
  the first call). The first call sets \<^verbatim>\<open>start_time\<close> to its clock reading when no
  start time was set and keeps it otherwise; the second call leaves
  \<^verbatim>\<open>start_time\<close> as the first call left it. A call with a status among completed,
  failed and skipped stores that status and sets \<^verbatim>\<open>end_time\<close> to its clock
  reading.
\<close>

theorem mark_in_progress_twice:
  assumes r1: "\<not> read_fails e1" and w1: "write_result e1 = Written"
    and r2: "\<not> read_fails e2" and w2: "write_result e2 = Written"
    and doc: "jobs_file dk = Some (Document d)"
    and present: "map_of (jobs d) jid = Some j"
    and clock: "now_iso e1 \<noteq> []"
  shows "\<exists>dk1 dk2 d1 d2 j1 j2.
      mark_job_status e1 jid IN_PROGRESS em1 cs1 dg1 dk = (True, dk1) \<and>
      jobs_file dk1 = Some (Document d1) \<and> map_of (jobs d1) jid = Some j1 \<and>
      mark_job_status e2 jid IN_PROGRESS em2 cs2 dg2 dk1 = (True, dk2) \<and>
      jobs_file dk2 = Some (Document d2) \<and> map_of (jobs d2) jid = Some j2 \<and>
      attempts j1 = attempts j + 1 \<and> attempts j2 = attempts j + 2 \<and>
      job_start_time j1 =
        (if truthy (job_start_time j) then job_start_time j else Some (now_iso e1)) \<and>
      job_start_time j2 = job_start_time j1 \<and>
      (\<forall>st e em cs dg.
         st \<in> {COMPLETED, FAILED, SKIPPED} \<longrightarrow> \<not> read_fails e \<longrightarrow> write_result e = Written \<longrightarrow>
         (\<exists>dk' d' j'.
            mark_job_status e jid st em cs dg dk = (True, dk') \<and>
            jobs_file dk' = Some (Document d') \<and> map_of (jobs d') jid = Some j' \<and>
            status j' = JobStatus_value st \<and> job_end_time j' = Some (now_iso e)))"
proof -
  define j1 where "j1 = update_job e1 IN_PROGRESS em1 cs1 dg1 j"
  define st1 where "st1 = d\<lparr>jobs := AList.update jid j1 (jobs d)\<rparr>"
  define dk1 where "dk1 = save_jobs_state e1 st1 dk"
  define d1 where "d1 = saved_doc e1 st1"
  have run1: "mark_job_status e1 jid IN_PROGRESS em1 cs1 dg1 dk = (True, dk1)"
    unfolding dk1_def st1_def j1_def by (rule mark_job_status_known[OF r1 doc present])
  have file1: "jobs_file dk1 = Some (Document d1)"
    unfolding dk1_def d1_def by (rule save_jobs_state_doc[OF w1])
  have present1: "map_of (jobs d1) jid = Some j1"
    by (simp add: d1_def jobs_saved_doc st1_def map_of_update_same)
  define j2 where "j2 = update_job e2 IN_PROGRESS em2 cs2 dg2 j1"
  define st2 where "st2 = d1\<lparr>jobs := AList.update jid j2 (jobs d1)\<rparr>"
  define dk2 where "dk2 = save_jobs_state e2 st2 dk1"
  define d2 where "d2 = saved_doc e2 st2"
  have run2: "mark_job_status e2 jid IN_PROGRESS em2 cs2 dg2 dk1 = (True, dk2)"
    unfolding dk2_def st2_def j2_def by (rule mark_job_status_known[OF r2 file1 present1])
  have file2: "jobs_file dk2 = Some (Document d2)"
    unfolding dk2_def d2_def by (rule save_jobs_state_doc[OF w2])
  have present2: "map_of (jobs d2) jid = Some j2"
    by (simp add: d2_def jobs_saved_doc st2_def map_of_update_same)
  have a1: "attempts j1 = attempts j + 1"
    unfolding j1_def by (rule attempts_update_job_IN_PROGRESS)
  have a2: "attempts j2 = attempts j + 2"
    unfolding j2_def by (simp add: attempts_update_job_IN_PROGRESS a1)
  have s1: "job_start_time j1 =
      (if truthy (job_start_time j) then job_start_time j else Some (now_iso e1))"
    unfolding j1_def by (rule start_time_update_job_IN_PROGRESS)
  have set1: "truthy (job_start_time j1)"
    using clock by (simp add: s1 truthy_def)
  have s2: "job_start_time j2 = job_start_time j1"
    unfolding j2_def using set1 by (simp add: start_time_update_job_IN_PROGRESS)
  have terminal: "\<forall>st e em cs dg.
         st \<in> {COMPLETED, FAILED, SKIPPED} \<longrightarrow> \<not> read_fails e \<longrightarrow> write_result e = Written \<longrightarrow>
         (\<exists>dk' d' j'.
            mark_job_status e jid st em cs dg dk = (True, dk') \<and>
            jobs_file dk' = Some (Document d') \<and> map_of (jobs d') jid = Some j' \<and>
            status j' = JobStatus_value st \<and> job_end_time j' = Some (now_iso e))"
  proof (intro allI impI)
    fix st :: JobStatus and e :: call_env and em cs :: "string option" and dg :: "json_dict option"
    assume st: "st \<in> {COMPLETED, FAILED, SKIPPED}" and r: "\<not> read_fails e"
      and w: "write_result e = Written"
    define j' where "j' = update_job e st em cs dg j"
    define st' where "st' = d\<lparr>jobs := AList.update jid j' (jobs d)\<rparr>"
    have a: "mark_job_status e jid st em cs dg dk = (True, save_jobs_state e st' dk)"
      unfolding st'_def j'_def by (rule mark_job_status_known[OF r doc present])
    have b: "jobs_file (save_jobs_state e st' dk) = Some (Document (saved_doc e st'))"
      by (rule save_jobs_state_doc[OF w])
    have c: "map_of (jobs (saved_doc e st')) jid = Some j'"
      by (simp add: jobs_saved_doc st'_def map_of_update_same)
    have s: "status j' = JobStatus_value st"
      unfolding j'_def by (rule status_update_job)
    have t: "job_end_time j' = Some (now_iso e)"
      unfolding j'_def by (rule end_time_update_job_terminal[OF st])
    show "\<exists>dk' d' j'.
            mark_job_status e jid st em cs dg dk = (True, dk') \<and>
            jobs_file dk' = Some (Document d') \<and> map_of (jobs d') jid = Some j' \<and>
            status j' = JobStatus_value st \<and> job_end_time j' = Some (now_iso e)"
      by (rule exI[of _ "save_jobs_state e st' dk"], rule exI[of _ "saved_doc e st'"],
          rule exI[of _ j']) (simp only: a b c s t simp_thms)
  qed
  show ?thesis
    apply (rule exI[of _ dk1], rule exI[of _ dk2], rule exI[of _ d1],
           rule exI[of _ d2], rule exI[of _ j1], rule exI[of _ j2])
    apply (intro conjI)
    apply (rule run1)
    apply (rule file1)
    apply (rule present1)
    apply (rule run2)
    apply (rule file2)
    apply (rule present2)
    apply (rule a1)
    apply (rule a2)
    apply (rule s1)
    apply (rule s2)
    apply (rule terminal)
    done
qed

theorem mark_in_progress_twice_witness:
  "jobs_file example_store = Some (Document example_jobs_state) \<and>
   map_of (jobs example_jobs_state) ''job-1'' = Some example_job \<and>
   (\<exists>dk1 dk2 d2 j2.
      mark_job_status (call_at ''2024-05-01T10:00:00'' ''20240501_100000'') ''job-1''
        IN_PROGRESS None None None example_store = (True, dk1) \<and>
      mark_job_status (call_at ''2024-05-01T10:05:00'' ''20240501_100500'') ''job-1''
        IN_PROGRESS None None None dk1 = (True, dk2) \<and>
      jobs_file dk2 = Some (Document d2) \<and> map_of (jobs d2) ''job-1'' = Some j2 \<and>
      attempts j2 = 2 \<and> job_start_time j2 = Some ''2024-05-01T10:00:00'')"
proof -
  let ?e1 = "call_at ''2024-05-01T10:00:00'' ''20240501_100000''"
  let ?e2 = "call_at ''2024-05-01T10:05:00'' ''20240501_100500''"
  have h1: "\<not> read_fails ?e1" and h2: "write_result ?e1 = Written"
    and h3: "\<not> read_fails ?e2" and h4: "write_result ?e2 = Written"
    and h7: "now_iso ?e1 \<noteq> []"
    by (simp_all add: call_at_def)
  have h5: "jobs_file example_store = Some (Document example_jobs_state)"
    by (simp add: example_store_def)
  have h6: "map_of (jobs example_jobs_state) ''job-1'' = Some example_job"
    by (simp add: example_jobs_state_def)
  from mark_in_progress_twice[OF h1 h2 h3 h4 h5 h6 h7, of None None None None None None]
  obtain dk1 dk2 d2 and j1 j2 :: job where
    "mark_job_status ?e1 ''job-1'' IN_PROGRESS None None None example_store = (True, dk1)"
    "mark_job_status ?e2 ''job-1'' IN_PROGRESS None None None dk1 = (True, dk2)"
    "jobs_file dk2 = Some (Document d2)" "map_of (jobs d2) ''job-1'' = Some j2"
    "attempts j2 = attempts example_job + 2"
    "job_start_time j1 =
       (if truthy (job_start_time example_job) then job_start_time example_job
        else Some (now_iso ?e1))"
    "job_start_time j2 = job_start_time j1"
    by (elim exE conjE) (rule that)
  note f = this
  have g: "attempts example_job = 0" "job_start_time example_job = None"
    "now_iso ?e1 = ''2024-05-01T10:00:00''"
    by (simp_all add: example_job_def call_at_def)
  have a: "attempts j2 = 2" using f(5) g(1) by simp
  have b: "job_start_time j2 = Some ''2024-05-01T10:00:00''"
    using f(6) f(7) g(2) g(3) by (simp add: truthy_def)
  have "\<exists>dk1 dk2 d2 j2.
      mark_job_status ?e1 ''job-1'' IN_PROGRESS None None None example_store = (True, dk1) \<and>
      mark_job_status ?e2 ''job-1'' IN_PROGRESS None None None dk1 = (True, dk2) \<and>
      jobs_file dk2 = Some (Document d2) \<and> map_of (jobs d2) ''job-1'' = Some j2 \<and>
      attempts j2 = 2 \<and> job_start_time j2 = Some ''2024-05-01T10:00:00''"
    by (rule exI[of _ dk1], rule exI[of _ dk2], rule exI[of _ d2], rule exI[of _ j2])
       (simp only: f(1) f(2) f(3) f(4) a b simp_thms)
  with h5 h6 show ?thesis by simp
qed

lemma load_jobs_state_absent:
  assumes "\<forall>d. jobs_file dk = Some (Document d) \<longrightarrow> map_of (jobs d) jid = None"
  shows "map_of (jobs (load_jobs_state env dk)) jid = None"
proof (cases "read_jobs_file env dk")
  case (Inl e)
  then show ?thesis by (simp add: load_jobs_state_def)
next
  case (Inr d)
  then have "jobs_file dk = Some (Document d)"
    by (simp add: read_jobs_file_def split: if_splits option.splits stored.splits)
  with assms Inr show ?thesis by (simp add: load_jobs_state_def)
qed

text \<open>
  Claim C10. When the id is not a key of the jobs in the jobs file (or the file holds no
  document at all), \<^verbatim>\<open>mark_job_status\<close> returns \<^verbatim>\<open>False\<close> and the state
  directory afterwards is the one before: the jobs file is not written and no backup
  is made, whatever the environment would have done to a read, a copy or a write.
\<close>

theorem mark_unknown_job_writes_nothing:
  assumes "\<forall>d. jobs_file dk = Some (Document d) \<longrightarrow> map_of (jobs d) jid = None"
  shows "mark_job_status env jid st em cs dg dk = (False, dk)"
  by (rule mark_job_status_unknown[OF load_jobs_state_absent[OF assms]])

theorem mark_unknown_job_writes_nothing_witness:
  "map_of (jobs example_jobs_state) ''job-9'' = None \<and>
   mark_job_status (call_at ''2024-05-01T10:00:00'' ''20240501_100000'') ''job-9''
     COMPLETED None None None example_store = (False, example_store)"
proof -
  have m: "map_of (jobs example_jobs_state) ''job-9'' = None"
    by (simp add: example_jobs_state_def)
  have h: "\<forall>d. jobs_file example_store = Some (Document d) \<longrightarrow> map_of (jobs d) ''job-9'' = None"
    using m by (simp add: example_store_def)
  show ?thesis
    using m mark_unknown_job_writes_nothing[OF h] by simp
qed

lemma map_of_update_other: "k' \<noteq> k \<Longrightarrow> map_of (AList.update k v al) k' = map_of al k'"
  by (simp add: AList.update_conv')

lemma length_update_present:
  "map_of al k = Some v' \<Longrightarrow> length (AList.update k v al) = length al"
  by (induction al) (auto split: if_splits)

text \<open>
  Claim C9. When the id is already a key of the jobs file, \<^verbatim>\<open>add_job\<close> with that id
  returns \<^verbatim>\<open>True\<close> and the file then maps the id to a fresh entry: status
  pending, no attempts, creation and update times the time of this call, no start
  time, no end time, no diagnostics, no last error, no current step, and the payload
  just given. Nothing of the old entry is kept; no second entry is added and the other
  jobs are as before.
\<close>

theorem add_job_overwrites_existing:
  assumes w: "write_result env = Written" and r: "\<not> read_fails env"
    and doc: "jobs_file dk = Some (Document d)"
    and present: "map_of (jobs d) jid = Some old"
  shows "\<exists>dk' d' j'.
      add_job cfg env jid jdata dk = (True, dk') \<and>
      jobs_file dk' = Some (Document d') \<and>
      map_of (jobs d') jid = Some j' \<and>
      job_id j' = jid \<and> job_data j' = jdata \<and>
      status j' = JobStatus_value PENDING \<and> attempts j' = 0 \<and>
      created_at j' = now_iso env \<and> updated_at j' = now_iso env \<and>
      job_start_time j' = None \<and> job_end_time j' = None \<and>
      diagnostics j' = [] \<and> last_error j' = None \<and> job_current_step j' = None \<and>
      length (jobs d') = length (jobs d) \<and>
      (\<forall>k. k \<noteq> jid \<longrightarrow> map_of (jobs d') k = map_of (jobs d) k)"
proof -
  define j' where "j' = new_job_entry cfg env jid jdata"
  define st' where "st' = d\<lparr>jobs := AList.update jid j' (jobs d)\<rparr>"
  have run: "add_job cfg env jid jdata dk = (True, save_jobs_state env st' dk)"
    by (simp add: add_job_def add_job_body_def Let_def load_jobs_state_ok[OF r doc]
        st'_def j'_def)
  have written: "jobs_file (save_jobs_state env st' dk) = Some (Document (saved_doc env st'))"
    by (rule save_jobs_state_doc[OF w])
  have js: "jobs (saved_doc env st') = AList.update jid j' (jobs d)"
    by (simp add: jobs_saved_doc st'_def)
  have m: "map_of (jobs (saved_doc env st')) jid = Some j'"
    by (simp add: js map_of_update_same)
  have len: "length (jobs (saved_doc env st')) = length (jobs d)"
    by (simp add: js length_update_present[OF present])
  have others: "\<forall>k. k \<noteq> jid \<longrightarrow> map_of (jobs (saved_doc env st')) k = map_of (jobs d) k"
    by (simp add: js map_of_update_other)
  have fields: "job_id j' = jid" "job_data j' = jdata"
      "status j' = JobStatus_value PENDING" "attempts j' = 0"
      "created_at j' = now_iso env" "updated_at j' = now_iso env"
      "job_start_time j' = None" "job_end_time j' = None"
      "diagnostics j' = []" "last_error j' = None" "job_current_step j' = None"
    by (simp_all add: j'_def new_job_entry_def)
  show ?thesis
    apply (rule exI[of _ "save_jobs_state env st' dk"], rule exI[of _ "saved_doc env st'"],
        rule exI[of _ j'])
    using run written m len others fields by (intro conjI)
qed

theorem add_job_overwrites_existing_witness:
  "map_of (jobs (example_jobs_state\<lparr>jobs := [(''job-1'', example_job_used)]\<rparr>)) ''job-1''
     = Some example_job_used \<and>
   attempts example_job_used = 2 \<and>
   (\<exists>dk' d' j'.
      add_job get_default_settings (call_at ''2024-05-02T08:00:00'' ''20240502_080000'')
        ''job-1'' [(''title'', ''Again'')] example_store_used = (True, dk') \<and>
      jobs_file dk' = Some (Document d') \<and> map_of (jobs d') ''job-1'' = Some j' \<and>
      status j' = ''pending'' \<and> attempts j' = 0 \<and> last_error j' = None \<and>
      job_start_time j' = None \<and> job_end_time j' = None \<and>
      created_at j' = ''2024-05-02T08:00:00'')"
proof -
  let ?e = "call_at ''2024-05-02T08:00:00'' ''20240502_080000''"
  let ?d = "example_jobs_state\<lparr>jobs := [(''job-1'', example_job_used)]\<rparr>"
  have h1: "write_result ?e = Written" and h2: "\<not> read_fails ?e"
    and n: "now_iso ?e = ''2024-05-02T08:00:00''"
    by (simp_all add: call_at_def)
  have h3: "jobs_file example_store_used = Some (Document ?d)"
    by (simp add: example_store_used_def)
  have h4: "map_of (jobs ?d) ''job-1'' = Some example_job_used" by simp
  have u: "attempts example_job_used = 2" by (simp add: example_job_used_def)
  from add_job_overwrites_existing[OF h1 h2 h3 h4, of get_default_settings "[(''title'', ''Again'')]"]
  obtain dk' d' and j' :: job where
      "add_job get_default_settings ?e ''job-1'' [(''title'', ''Again'')] example_store_used = (True, dk')"
      "jobs_file dk' = Some (Document d')" "map_of (jobs d') ''job-1'' = Some j'"
      "status j' = JobStatus_value PENDING" "attempts j' = 0"
      "created_at j' = now_iso ?e"
      "job_start_time j' = None" "job_end_time j' = None" "last_error j' = None"
    by (elim exE conjE) (rule that)
  note f = this
  have "\<exists>dk' d' j'.
      add_job get_default_settings ?e ''job-1'' [(''title'', ''Again'')] example_store_used = (True, dk') \<and>
      jobs_file dk' = Some (Document d') \<and> map_of (jobs d') ''job-1'' = Some j' \<and>
      status j' = ''pending'' \<and> attempts j' = 0 \<and> last_error j' = None \<and>
      job_start_time j' = None \<and> job_end_time j' = None \<and>
      created_at j' = ''2024-05-02T08:00:00''"
    apply (rule exI[of _ dk'], rule exI[of _ d'], rule exI[of _ j'])
    using f n by simp
  with h4 u show ?thesis by simp
qed

lemma pend_fields:
  "status (pend envs k j) = JobStatus_value PENDING"
  "attempts (pend envs k j) = attempts j"
  "max_attempts (pend envs k j) = max_attempts j"
  "job_id (pend envs k j) = job_id j"
  by (simp_all add: pend_def update_job_def Let_def truthy_def)

lemma resume_loop_all:
  assumes ios: "\<forall>k. \<not> read_fails (envs k) \<and> write_result (envs k) = Written"
  shows "jobs_file dk = Some (Document dcur) \<Longrightarrow> distinct (map job_id js) \<Longrightarrow>
     \<forall>j \<in> set js. map_of (jobs dcur) (job_id j) \<noteq> None \<Longrightarrow>
     \<exists>dk' d'. resume_loop envs js resumed dk = (resumed @ map job_id js, dk') \<and>
        jobs_file dk' = Some (Document d') \<and>
        (\<forall>k. map_of (jobs d') k =
           (if k \<in> job_id ` set js then map_option (pend envs k) (map_of (jobs dcur) k)
            else map_of (jobs dcur) k))"
proof (induction js arbitrary: dk dcur resumed)
  case Nil
  then show ?case by simp
next
  case (Cons j rest)
  let ?k = "job_id j"
  from Cons.prems(3) obtain jc where jc: "map_of (jobs dcur) ?k = Some jc" by auto
  from ios have r: "\<not> read_fails (envs ?k)" and w: "write_result (envs ?k) = Written"
    by simp_all
  define st1 where "st1 = dcur\<lparr>jobs := AList.update ?k (pend envs ?k jc) (jobs dcur)\<rparr>"
  define dk1 where "dk1 = save_jobs_state (envs ?k) st1 dk"
  define d1 where "d1 = saved_doc (envs ?k) st1"
  have run1: "mark_job_status (envs ?k) ?k PENDING None None None dk = (True, dk1)"
    unfolding dk1_def st1_def pend_def
    by (rule mark_job_status_known[OF r Cons.prems(1) jc])
  have file1: "jobs_file dk1 = Some (Document d1)"
    unfolding dk1_def d1_def by (rule save_jobs_state_doc[OF w])
  have look1: "map_of (jobs d1) k = (if k = ?k then Some (pend envs ?k jc) else map_of (jobs dcur) k)"
    for k
    by (simp add: d1_def jobs_saved_doc st1_def AList.update_conv')
  have dist: "distinct (map job_id rest)" and notin: "?k \<notin> job_id ` set rest"
    using Cons.prems(2) by simp_all
  have pres: "\<forall>j' \<in> set rest. map_of (jobs d1) (job_id j') \<noteq> None"
    using Cons.prems(3) by (simp add: look1)
  from Cons.IH[OF file1 dist pres, of "resumed @ [?k]"]
  obtain dk' d' where
    loop: "resume_loop envs rest (resumed @ [?k]) dk1 = ((resumed @ [?k]) @ map job_id rest, dk')"
    and file': "jobs_file dk' = Some (Document d')"
    and look': "\<forall>k. map_of (jobs d') k =
           (if k \<in> job_id ` set rest then map_option (pend envs k) (map_of (jobs d1) k)
            else map_of (jobs d1) k)"
    by (elim exE conjE) (rule that)
  have a: "resume_loop envs (j # rest) resumed dk = (resumed @ map job_id (j # rest), dk')"
    using run1 loop by simp
  have b: "\<forall>k. map_of (jobs d') k =
           (if k \<in> job_id ` set (j # rest) then map_option (pend envs k) (map_of (jobs dcur) k)
            else map_of (jobs dcur) k)"
  proof
    fix k
    show "map_of (jobs d') k =
           (if k \<in> job_id ` set (j # rest) then map_option (pend envs k) (map_of (jobs dcur) k)
            else map_of (jobs dcur) k)"
    proof (cases "k = ?k")
      case True
      then show ?thesis using notin look'[rule_format, of k] jc by (simp add: look1)
    next
      case False
      then show ?thesis using look'[rule_format, of k] by (simp add: look1)
    qed
  qed
  show ?case
    apply (rule exI[of _ dk'], rule exI[of _ d'])
    using a file' b by (intro conjI)
qed


lemma job_ids_of_filtered:
  "\<forall>(k, j) \<in> set al. job_id j = k \<Longrightarrow>
   map job_id (filter P (map snd al)) = map fst (filter (\<lambda>(k, j). P j) al)"
  by (induction al) auto

lemma keys_of_filtered:
  assumes "distinct (map fst al)"
  shows "fst ` set (filter (\<lambda>(k, j). P j) al) = {k. \<exists>j. map_of al k = Some j \<and> P j}"
proof -
  have "(k, j) \<in> set al \<longleftrightarrow> map_of al k = Some j" for k j
    using assms by simp
  then show ?thesis by (auto simp: image_iff)
qed

text \<open>
  Claim C4. With the jobs file readable and writable, and every entry stored under its
  own \<^verbatim>\<open>job_id\<close>, \<^verbatim>\<open>resume_failed_jobs\<close> returns, each once, exactly the ids
  of the jobs that are failed with attempts below \<^verbatim>\<open>max_attempts\<close>. Afterwards each
  of those jobs is pending with its attempts unchanged, and every other job is exactly
  as it was and is not in the returned list: in particular a failed job whose attempts
  have reached \<^verbatim>\<open>max_attempts\<close> is not returned and is still failed.
\<close>

theorem resume_failed_jobs_exact:
  assumes io0: "\<not> read_fails env"
    and ios: "\<forall>k. \<not> read_fails (envs k) \<and> write_result (envs k) = Written"
    and doc: "jobs_file dk = Some (Document d)"
    and keys: "distinct (map fst (jobs d))"
    and ids: "\<forall>(k, j) \<in> set (jobs d). job_id j = k"
  shows "\<exists>resumed dk' d'.
      resume_failed_jobs env envs dk = (resumed, dk') \<and>
      jobs_file dk' = Some (Document d') \<and>
      distinct resumed \<and>
      set resumed =
        {k. \<exists>j. map_of (jobs d) k = Some j \<and>
                 status j = JobStatus_value FAILED \<and> attempts j < max_attempts j} \<and>
      (\<forall>k j. map_of (jobs d) k = Some j \<longrightarrow>
         (\<exists>j'. map_of (jobs d') k = Some j' \<and>
            (if status j = JobStatus_value FAILED \<and> attempts j < max_attempts j
             then k \<in> set resumed \<and> status j' = JobStatus_value PENDING \<and>
                  attempts j' = attempts j
             else k \<notin> set resumed \<and> j' = j))) \<and>
      (\<forall>k. map_of (jobs d) k = None \<longrightarrow> map_of (jobs d') k = None)"
proof -
  define js where "js = get_failed_jobs env dk"
  have el: "eligible = (\<lambda>j. status j = JobStatus_value FAILED \<and> attempts j < max_attempts j)"
    by (simp add: fun_eq_iff eligible_def)
  have js: "js = filter eligible (map snd (jobs d))"
    by (simp only: js_def get_failed_jobs_def load_jobs_state_ok[OF io0 doc] el)
  have idl: "map job_id js = map fst (filter (\<lambda>(k, j). eligible j) (jobs d))"
    unfolding js by (rule job_ids_of_filtered[OF ids])
  have dist: "distinct (map job_id js)"
    unfolding idl using keys by (rule distinct_map_filter)
  have idset: "job_id ` set js = {k. \<exists>j. map_of (jobs d) k = Some j \<and> eligible j}"
  proof -
    have "job_id ` set js = set (map job_id js)" by simp
    also have "\<dots> = fst ` set (filter (\<lambda>(k, j). eligible j) (jobs d))"
      unfolding idl by simp
    also have "\<dots> = {k. \<exists>j. map_of (jobs d) k = Some j \<and> eligible j}"
      by (rule keys_of_filtered[OF keys])
    finally show ?thesis .
  qed
  have pres: "\<forall>j \<in> set js. map_of (jobs d) (job_id j) \<noteq> None"
  proof
    fix j assume "j \<in> set js"
    then have "job_id j \<in> job_id ` set js" by simp
    then show "map_of (jobs d) (job_id j) \<noteq> None" unfolding idset by auto
  qed
  from resume_loop_all[OF ios doc dist pres, of "[]"]
  obtain dk' d' where
    loop: "resume_loop envs js [] dk = ([] @ map job_id js, dk')"
    and file': "jobs_file dk' = Some (Document d')"
    and look: "\<forall>k. map_of (jobs d') k =
           (if k \<in> job_id ` set js then map_option (pend envs k) (map_of (jobs d) k)
            else map_of (jobs d) k)"
    by (elim exE conjE) (rule that)
  define resumed where "resumed = map job_id js"
  have run: "resume_failed_jobs env envs dk = (resumed, dk')"
    using loop by (simp add: resume_failed_jobs_def js_def resumed_def)
  have rset: "set resumed = {k. \<exists>j. map_of (jobs d) k = Some j \<and> eligible j}"
    using idset by (simp add: resumed_def)
  have rdist: "distinct resumed" using dist by (simp add: resumed_def)
  have each: "\<exists>j'. map_of (jobs d') k = Some j' \<and>
            (if eligible j
             then k \<in> set resumed \<and> status j' = JobStatus_value PENDING \<and>
                  attempts j' = attempts j
             else k \<notin> set resumed \<and> j' = j)" if m: "map_of (jobs d) k = Some j" for k j
  proof (cases "eligible j")
    case True
    then have kin: "k \<in> set resumed" using m by (simp add: rset)
    then have "k \<in> job_id ` set js" by (simp add: resumed_def)
    then have "map_of (jobs d') k = Some (pend envs k j)"
      using look[rule_format, of k] m by simp
    then show ?thesis using True kin by (simp add: pend_fields)
  next
    case False
    then have kout: "k \<notin> set resumed" using m by (simp add: rset)
    then have "k \<notin> job_id ` set js" by (simp add: resumed_def)
    then have "map_of (jobs d') k = Some j"
      using look[rule_format, of k] m by simp
    then show ?thesis using False kout by simp
  qed
  have none: "map_of (jobs d') k = None" if m: "map_of (jobs d) k = None" for k
    using look[rule_format, of k] m by simp
  have rset': "set resumed =
        {k. \<exists>j. map_of (jobs d) k = Some j \<and>
                 status j = JobStatus_value FAILED \<and> attempts j < max_attempts j}"
    using rset by (simp only: eligible_def)
  have each': "\<forall>k j. map_of (jobs d) k = Some j \<longrightarrow>
         (\<exists>j'. map_of (jobs d') k = Some j' \<and>
            (if status j = JobStatus_value FAILED \<and> attempts j < max_attempts j
             then k \<in> set resumed \<and> status j' = JobStatus_value PENDING \<and>
                  attempts j' = attempts j
             else k \<notin> set resumed \<and> j' = j))"
    using each by (simp only: eligible_def) blast
  have none': "\<forall>k. map_of (jobs d) k = None \<longrightarrow> map_of (jobs d') k = None"
    using none by blast
  show ?thesis
    apply (rule exI[of _ resumed], rule exI[of _ dk'], rule exI[of _ d'])
    using run file' rdist rset' each' none' by (intro conjI)
qed

theorem resume_failed_jobs_exact_witness:
  "jobs_file retry_store = Some (Document retry_jobs_state) \<and>
   distinct (map fst (jobs retry_jobs_state)) \<and>
   (\<exists>resumed dk' d' ja jb.
      resume_failed_jobs (call_at ''2024-05-03T07:00:00'' ''20240503_070000'')
        (\<lambda>k. call_at ''2024-05-03T07:00:01'' ''20240503_070001'') retry_store = (resumed, dk') \<and>
      ''job-a'' \<in> set resumed \<and> ''job-b'' \<notin> set resumed \<and>
      jobs_file dk' = Some (Document d') \<and>
      map_of (jobs d') ''job-a'' = Some ja \<and> status ja = ''pending'' \<and>
      map_of (jobs d') ''job-b'' = Some jb \<and> status jb = ''failed'' \<and> attempts jb = 3)"
proof -
  let ?e = "call_at ''2024-05-03T07:00:00'' ''20240503_070000''"
  let ?es = "\<lambda>k::string. call_at ''2024-05-03T07:00:01'' ''20240503_070001''"
  let ?ja = "example_job\<lparr>job_id := ''job-a'', status := ''failed'', attempts := 1\<rparr>"
  let ?jb = "example_job\<lparr>job_id := ''job-b'', status := ''failed'', attempts := 3\<rparr>"
  have h1: "\<not> read_fails ?e" by (simp add: call_at_def)
  have h2: "\<forall>k. \<not> read_fails (?es k) \<and> write_result (?es k) = Written"
    by (simp add: call_at_def)
  have h3: "jobs_file retry_store = Some (Document retry_jobs_state)"
    by (simp add: retry_store_def)
  have h4: "distinct (map fst (jobs retry_jobs_state))"
    by (simp add: retry_jobs_state_def)
  have h5: "\<forall>(k, j) \<in> set (jobs retry_jobs_state). job_id j = k"
    by (simp add: retry_jobs_state_def)
  have ma: "map_of (jobs retry_jobs_state) ''job-a'' = Some ?ja"
    and mb: "map_of (jobs retry_jobs_state) ''job-b'' = Some ?jb"
    by (simp_all add: retry_jobs_state_def)
  have ea: "status ?ja = JobStatus_value FAILED \<and> attempts ?ja < max_attempts ?ja"
    by (simp add: example_job_def)
  have eb: "\<not> (status ?jb = JobStatus_value FAILED \<and> attempts ?jb < max_attempts ?jb)"
    by (simp add: example_job_def)
  from resume_failed_jobs_exact[OF h1 h2 h3 h4 h5]
  obtain resumed dk' d' where
    run: "resume_failed_jobs ?e ?es retry_store = (resumed, dk')"
    and file': "jobs_file dk' = Some (Document d')"
    and each: "\<forall>k j. map_of (jobs retry_jobs_state) k = Some j \<longrightarrow>
         (\<exists>j'. map_of (jobs d') k = Some j' \<and>
            (if status j = JobStatus_value FAILED \<and> attempts j < max_attempts j
             then k \<in> set resumed \<and> status j' = JobStatus_value PENDING \<and>
                  attempts j' = attempts j
             else k \<notin> set resumed \<and> j' = j))"
    by (elim exE conjE) (rule that)
  from each[rule_format, OF ma, unfolded if_P[OF ea]] obtain ja where
    a: "map_of (jobs d') ''job-a'' = Some ja" "''job-a'' \<in> set resumed"
       "status ja = JobStatus_value PENDING"
    by (elim exE conjE) (rule that)
  from each[rule_format, OF mb, unfolded if_not_P[OF eb]] obtain jb where
    b: "map_of (jobs d') ''job-b'' = Some jb" "''job-b'' \<notin> set resumed" "jb = ?jb"
    by (elim exE conjE) (rule that)
  have sb: "status jb = ''failed''" "attempts jb = 3" by (simp_all add: b(3))
  have sa: "status ja = ''pending''" using a(3) by simp
  have "\<exists>resumed dk' d' ja jb.
      resume_failed_jobs ?e ?es retry_store = (resumed, dk') \<and>
      ''job-a'' \<in> set resumed \<and> ''job-b'' \<notin> set resumed \<and>
      jobs_file dk' = Some (Document d') \<and>
      map_of (jobs d') ''job-a'' = Some ja \<and> status ja = ''pending'' \<and>
      map_of (jobs d') ''job-b'' = Some jb \<and> status jb = ''failed'' \<and> attempts jb = 3"
    apply (rule exI[of _ resumed], rule exI[of _ dk'], rule exI[of _ d'], rule exI[of _ ja],
           rule exI[of _ jb])
    using run a(2) b(2) file' a(1) sa b(1) sb by (intro conjI)
  with h3 h4 show ?thesis by (intro conjI)
qed

text \<open>
  Claim C7 says that \<^verbatim>\<open>add_job\<close> returns \<^verbatim>\<open>False\<close> whenever the write of the
  jobs file fails. The code does not do so: when opening the jobs file for writing
  raises, \<^verbatim>\<open>_save_jobs_state\<close> catches the error itself, so \<^verbatim>\<open>add_job\<close> returns
  \<^verbatim>\<open>True\<close> although the jobs file is unchanged and the job is not stored; only the
  backup copy has been made.
\<close>

theorem add_job_true_when_write_fails:
  assumes "write_result env = Open_failed"
  shows "add_job cfg env jid jdata dk =
     (True, dk\<lparr>jobs_backups := backup_state_file env (jobs_file dk) (jobs_backups dk)\<rparr>)"
  using assms
  by (simp add: add_job_def add_job_body_def save_jobs_state_def write_jobs_file_def Let_def)

theorem add_job_true_when_write_fails_witness:
  "write_result ((call_at ''2024-05-02T08:00:00'' ''20240502_080000'')\<lparr>write_result := Open_failed\<rparr>)
     = Open_failed \<and>
   (\<exists>dk'. add_job get_default_settings
        ((call_at ''2024-05-02T08:00:00'' ''20240502_080000'')\<lparr>write_result := Open_failed\<rparr>)
        ''job-2'' [(''title'', ''Second'')] example_store = (True, dk') \<and>
      jobs_file dk' = jobs_file example_store \<and>
      get_job (call_at ''2024-05-02T08:00:01'' ''20240502_080001'') ''job-2'' dk' = None)"
proof -
  let ?e = "(call_at ''2024-05-02T08:00:00'' ''20240502_080000'')\<lparr>write_result := Open_failed\<rparr>"
  let ?dk = "example_store\<lparr>jobs_backups :=
      backup_state_file ?e (jobs_file example_store) (jobs_backups example_store)\<rparr>"
  have h: "write_result ?e = Open_failed" by simp
  have run: "add_job get_default_settings ?e ''job-2'' [(''title'', ''Second'')] example_store
      = (True, ?dk)"
    by (rule add_job_true_when_write_fails[OF h])
  have same: "jobs_file ?dk = jobs_file example_store" by simp
  have gone: "get_job (call_at ''2024-05-02T08:00:01'' ''20240502_080001'') ''job-2'' ?dk = None"
    by (simp add: get_job_def load_jobs_state_def read_jobs_file_def call_at_def
        example_store_def example_jobs_state_def)
  have "\<exists>dk'. add_job get_default_settings ?e ''job-2'' [(''title'', ''Second'')] example_store
        = (True, dk') \<and> jobs_file dk' = jobs_file example_store \<and>
      get_job (call_at ''2024-05-02T08:00:01'' ''20240502_080001'') ''job-2'' dk' = None"
    apply (rule exI[of _ ?dk])
    using run same gone by (intro conjI)
  with h show ?thesis by (intro conjI)
qed

lemma backoff_delay_eq:
  assumes "retry_cfg cfg = Some rp" "base_backoff_seconds rp = Some b"
    "max_backoff_seconds rp = Some mx" "backoff_multiplier rp = Some m" "m \<noteq> 0"
    "\<bar>m powi (n - 1)\<bar> < float_overflow"
  shows "calculate_backoff_delay cfg rnd n =
     Inr (if jitter rp = Some False then min (b * m powi (n - 1)) mx
          else min (b * m powi (n - 1)) mx
                 + (1 / 10 + (3 / 10 - 1 / 10) * rnd) * min (b * m powi (n - 1)) mx)"
  using assms by (auto simp add: calculate_backoff_delay_def Let_def split: option.splits)

text \<open>
  The float power has a last attempt: with the default settings attempt 1024 still returns
  a delay and attempt 1025 raises \<^verbatim>\<open>OverflowError\<close>.
\<close>

lemma backoff_delay_overflow:
  "calculate_backoff_delay get_default_settings rnd 1024 = Inr (60 + (1 / 10 + 2 / 10 * rnd) * 60) \<and>
   calculate_backoff_delay get_default_settings rnd 1025 = Inl OverflowError"
  by (simp add: calculate_backoff_delay_def get_default_settings_def
      DEFAULT_BASE_BACKOFF_def DEFAULT_MAX_BACKOFF_def DEFAULT_BACKOFF_MULTIPLIER_def
      DEFAULT_MAX_ATTEMPTS_def Let_def float_overflow_def)

text \<open>
  Claim C6, as amended. Let \<open>d = min (base * multiplier ^ (attempt - 1)) max_delay\<close>.
  For a base that is not negative, a multiplier of at least 1 and attempts whose power
  \<open>multiplier ^ (attempt - 1)\<close> is not too large for a float,
  \<^verbatim>\<open>calculate_backoff_delay\<close> returns \<open>d\<close> when jitter is switched off and
  \<open>d + j * d\<close> with \<open>j = 0.1 + 0.2 * random()\<close> otherwise; \<open>d\<close> does not decrease
  when the attempt number grows and never exceeds \<open>max_delay\<close>. Without jitter the
  returned delay is therefore non-decreasing. With jitter the returned value lies between
  \<open>1.1 * d\<close> and \<open>1.3 * d\<close> (for \<open>max_delay\<close> not negative), and the returned delay
  of the later attempt is not smaller whenever \<open>13 * d \<le> 11 * d'\<close>; for attempts
  \<open>n < n'\<close> this is so when the multiplier is at least \<open>13 / 11\<close> (as the default 2.0
  is) and the later attempt is not capped, that is
  \<open>base * multiplier ^ (n' - 1) \<le> max_delay\<close>. For attempt 1, base 2, multiplier 2 and
  \<open>max_delay\<close> at least 2 the returned value is at least 2 and below \<open>2 * 1.3\<close>.
\<close>

theorem backoff_delay_shape:
  assumes rp: "retry_cfg cfg = Some rp" "base_backoff_seconds rp = Some b"
      "max_backoff_seconds rp = Some mx" "backoff_multiplier rp = Some m"
    and b: "0 \<le> b" and m: "1 \<le> m"
    and r: "0 \<le> rnd" "rnd < 1" and r': "0 \<le> rnd'" "rnd' < 1"
    and nn: "n \<le> n'"
    and rng: "m powi (n' - 1) < float_overflow"
  shows "\<exists>d d' v v'.
      calculate_backoff_delay cfg rnd n = Inr v \<and>
      calculate_backoff_delay cfg rnd' n' = Inr v' \<and>
      d = min (b * m powi (n - 1)) mx \<and> d' = min (b * m powi (n' - 1)) mx \<and>
      d \<le> d' \<and> d' \<le> mx \<and>
      (jitter rp = Some False \<longrightarrow> v = d \<and> v' = d' \<and> v \<le> v') \<and>
      (jitter rp \<noteq> Some False \<longrightarrow>
         v = d + (1 / 10 + 2 / 10 * rnd) * d \<and> v' = d' + (1 / 10 + 2 / 10 * rnd') * d' \<and>
         (0 \<le> mx \<longrightarrow> d + 1 / 10 * d \<le> v \<and> v \<le> d + 3 / 10 * d) \<and>
         (0 \<le> d \<and> 13 * d \<le> 11 * d' \<longrightarrow> v \<le> v') \<and>
         (n < n' \<and> 13 / 11 \<le> m \<and> b * m powi (n' - 1) \<le> mx \<longrightarrow> v \<le> v')) \<and>
      (b = 2 \<and> m = 2 \<and> n = 1 \<and> 2 \<le> mx \<longrightarrow> 2 \<le> v \<and> v < 2 * (13 / 10))"
proof -
  define d where "d = min (b * m powi (n - 1)) mx"
  define d' where "d' = min (b * m powi (n' - 1)) mx"
  define v where "v = (if jitter rp = Some False then d else d + (1 / 10 + 2 / 10 * rnd) * d)"
  define v' where "v' = (if jitter rp = Some False then d' else d' + (1 / 10 + 2 / 10 * rnd') * d')"
  have m0: "m \<noteq> 0" and mpos: "0 < m" using m by simp_all
  have pw: "m powi (n - 1) \<le> m powi (n' - 1)"
    using nn m by (intro power_int_increasing) simp_all
  have p0: "0 \<le> m powi (n - 1)" and p0': "0 \<le> m powi (n' - 1)" using m by simp_all
  have rng': "\<bar>m powi (n' - 1)\<bar> < float_overflow" using rng p0' by simp
  have rng1: "\<bar>m powi (n - 1)\<bar> < float_overflow" using rng pw p0 by simp
  have p1: "calculate_backoff_delay cfg rnd n = Inr v"
    unfolding v_def d_def by (simp add: backoff_delay_eq[OF rp m0 rng1])
  have p2: "calculate_backoff_delay cfg rnd' n' = Inr v'"
    unfolding v'_def d'_def by (simp add: backoff_delay_eq[OF rp m0 rng'])
  have "b * m powi (n - 1) \<le> b * m powi (n' - 1)"
    using pw b by (rule mult_left_mono)
  then have mono: "d \<le> d'" unfolding d_def d'_def by simp
  have cap: "d' \<le> mx" unfolding d'_def by simp
  have u0: "0 \<le> b * m powi (n - 1)" using b p0 by simp
  have nonneg: "0 \<le> d" if "0 \<le> mx"
    using u0 that unfolding d_def by simp
  have plain: "v = d \<and> v' = d' \<and> v \<le> v'" if "jitter rp = Some False"
    using that mono by (simp add: v_def v'_def)
  have band: "d + 1 / 10 * d \<le> v \<and> v \<le> d + 3 / 10 * d"
    if j: "jitter rp \<noteq> Some False" and mx: "0 \<le> mx"
  proof -
    have "1 / 10 * d \<le> (1 / 10 + 2 / 10 * rnd) * d"
      using nonneg[OF mx] r by (intro mult_right_mono) simp_all
    moreover have "(1 / 10 + 2 / 10 * rnd) * d \<le> 3 / 10 * d"
      using nonneg[OF mx] r by (intro mult_right_mono) simp_all
    ultimately show ?thesis using j unfolding v_def by simp
  qed
  have ratio: "v \<le> v'"
    if j: "jitter rp \<noteq> Some False" and h: "0 \<le> d \<and> 13 * d \<le> 11 * d'"
  proof -
    from h have d0: "0 \<le> d" and k: "13 * d \<le> 11 * d'" by simp_all
    have d'0: "0 \<le> d'" using k d0 by simp
    have "(1 / 10 + 2 / 10 * rnd) * d \<le> 3 / 10 * d"
      using d0 r by (intro mult_right_mono) simp_all
    then have "v \<le> d + 3 / 10 * d" using j by (simp add: v_def)
    also have "\<dots> \<le> d' + 1 / 10 * d'" using k by simp
    also have "\<dots> \<le> d' + (1 / 10 + 2 / 10 * rnd') * d'"
    proof -
      have "1 / 10 * d' \<le> (1 / 10 + 2 / 10 * rnd') * d'"
        using d'0 r' by (intro mult_right_mono) simp_all
      then show ?thesis by simp
    qed
    also have "\<dots> = v'" using j by (simp add: v'_def)
    finally show ?thesis .
  qed
  have below: "v \<le> v'"
    if j: "jitter rp \<noteq> Some False"
      and h: "n < n' \<and> 13 / 11 \<le> m \<and> b * m powi (n' - 1) \<le> mx"
  proof -
    from h have lt: "n < n'" and m13: "13 / 11 \<le> m" and un: "b * m powi (n' - 1) \<le> mx"
      by simp_all
    have mx0: "0 \<le> mx" using un b p0' by (meson mult_nonneg_nonneg order_trans)
    have d'eq: "d' = b * m powi (n' - 1)" using un unfolding d'_def by simp
    have deq: "d = b * m powi (n - 1)"
      using un \<open>b * m powi (n - 1) \<le> b * m powi (n' - 1)\<close> unfolding d_def by simp
    have "m powi n \<le> m powi (n' - 1)"
      using lt m by (intro power_int_increasing) simp_all
    moreover have "m powi n = m * m powi (n - 1)"
      using m0 power_int_add[of m 1 "n - 1"] by simp
    ultimately have "m * m powi (n - 1) \<le> m powi (n' - 1)" by simp
    then have "b * (m * m powi (n - 1)) \<le> b * m powi (n' - 1)"
      using b by (rule mult_left_mono)
    then have md: "m * d \<le> d'" unfolding deq d'eq by (simp add: mult.left_commute)
    have d0: "0 \<le> d" using nonneg[OF mx0] .
    have "13 / 11 * d \<le> m * d" using m13 d0 by (rule mult_right_mono)
    with md have "13 / 11 * d \<le> d'" by simp
    then have "13 * d \<le> 11 * d'" by simp
    with d0 show ?thesis by (intro ratio[OF j]) simp
  qed
  have jit: "v = d + (1 / 10 + 2 / 10 * rnd) * d \<and> v' = d' + (1 / 10 + 2 / 10 * rnd') * d' \<and>
         (0 \<le> mx \<longrightarrow> d + 1 / 10 * d \<le> v \<and> v \<le> d + 3 / 10 * d) \<and>
         (0 \<le> d \<and> 13 * d \<le> 11 * d' \<longrightarrow> v \<le> v') \<and>
         (n < n' \<and> 13 / 11 \<le> m \<and> b * m powi (n' - 1) \<le> mx \<longrightarrow> v \<le> v')"
    if j: "jitter rp \<noteq> Some False"
  proof -
    have a: "v = d + (1 / 10 + 2 / 10 * rnd) * d" "v' = d' + (1 / 10 + 2 / 10 * rnd') * d'"
      using j by (simp_all add: v_def v'_def)
    have c: "0 \<le> mx \<longrightarrow> d + 1 / 10 * d \<le> v \<and> v \<le> d + 3 / 10 * d"
      by (rule impI) (rule band[OF j])
    have g: "0 \<le> d \<and> 13 * d \<le> 11 * d' \<longrightarrow> v \<le> v'"
      by (rule impI) (rule ratio[OF j])
    have e: "n < n' \<and> 13 / 11 \<le> m \<and> b * m powi (n' - 1) \<le> mx \<longrightarrow> v \<le> v'"
      by (rule impI) (rule below[OF j])
    from a c g e show ?thesis by (intro conjI)
  qed
  have first: "2 \<le> v \<and> v < 2 * (13 / 10)"
    if "b = 2 \<and> m = 2 \<and> n = 1 \<and> 2 \<le> mx"
  proof -
    have "d = 2" using that unfolding d_def by simp
    then show ?thesis using r unfolding v_def by simp
  qed
  have P: "jitter rp = Some False \<longrightarrow> v = d \<and> v' = d' \<and> v \<le> v'"
    by (rule impI) (rule plain)
  have J: "jitter rp \<noteq> Some False \<longrightarrow>
         v = d + (1 / 10 + 2 / 10 * rnd) * d \<and> v' = d' + (1 / 10 + 2 / 10 * rnd') * d' \<and>
         (0 \<le> mx \<longrightarrow> d + 1 / 10 * d \<le> v \<and> v \<le> d + 3 / 10 * d) \<and>
         (0 \<le> d \<and> 13 * d \<le> 11 * d' \<longrightarrow> v \<le> v') \<and>
         (n < n' \<and> 13 / 11 \<le> m \<and> b * m powi (n' - 1) \<le> mx \<longrightarrow> v \<le> v')"
    by (rule impI) (rule jit)
  have F: "b = 2 \<and> m = 2 \<and> n = 1 \<and> 2 \<le> mx \<longrightarrow> 2 \<le> v \<and> v < 2 * (13 / 10)"
    by (rule impI) (rule first)
  show ?thesis
    apply (rule exI[of _ d], rule exI[of _ d'], rule exI[of _ v], rule exI[of _ v'])
    using p1 p2 d_def d'_def mono cap P J F by (intro conjI)
qed

theorem backoff_delay_shape_witness:
  "retry_cfg get_default_settings =
     Some \<lparr>policy_max_attempts = Some 3, base_backoff_seconds = Some 2,
           max_backoff_seconds = Some 60, backoff_multiplier = Some 2, jitter = Some True\<rparr> \<and>
   (3::int) \<le> 5 \<and> (2::real) powi (5 - 1) < float_overflow \<and>
   (\<exists>v v'.
      calculate_backoff_delay get_default_settings (9 / 10) 3 = Inr v \<and>
      calculate_backoff_delay get_default_settings 0 5 = Inr v' \<and>
      v = 256 / 25 \<and> v' = 176 / 5 \<and> v \<le> v')"
proof -
  let ?rp = "\<lparr>policy_max_attempts = Some 3, base_backoff_seconds = Some 2,
           max_backoff_seconds = Some 60, backoff_multiplier = Some 2, jitter = Some True\<rparr>"
  have rp: "retry_cfg get_default_settings = Some ?rp"
    by (simp add: get_default_settings_def DEFAULT_MAX_ATTEMPTS_def DEFAULT_BASE_BACKOFF_def
        DEFAULT_MAX_BACKOFF_def DEFAULT_BACKOFF_MULTIPLIER_def)
  have k: "base_backoff_seconds ?rp = Some 2" "max_backoff_seconds ?rp = Some 60"
    "backoff_multiplier ?rp = Some 2"
    by simp_all
  have h: "(0::real) \<le> 2" "(1::real) \<le> 2" "(0::real) \<le> 9 / 10" "(9 / 10 :: real) < 1"
    "(0::real) \<le> 0" "(0 :: real) < 1" "(3::int) \<le> 5"
    by simp_all
  have g: "(2::real) powi (5 - 1) < float_overflow" by (simp add: float_overflow_def)
  have j: "jitter ?rp \<noteq> Some False" by simp
  from backoff_delay_shape[OF rp k h g]
  obtain d d' v v' where
    f: "calculate_backoff_delay get_default_settings (9 / 10) 3 = Inr v"
      "calculate_backoff_delay get_default_settings 0 5 = Inr v'"
      "d = min (2 * 2 powi (3 - 1)) 60" "d' = min (2 * 2 powi (5 - 1)) 60"
      "jitter ?rp \<noteq> Some False \<longrightarrow>
         v = d + (1 / 10 + 2 / 10 * (9 / 10)) * d \<and> v' = d' + (1 / 10 + 2 / 10 * 0) * d' \<and>
         (0 \<le> (60::real) \<longrightarrow> d + 1 / 10 * d \<le> v \<and> v \<le> d + 3 / 10 * d) \<and>
         (0 \<le> d \<and> 13 * d \<le> 11 * d' \<longrightarrow> v \<le> v') \<and>
         ((3::int) < 5 \<and> (13 / 11 :: real) \<le> 2 \<and> 2 * 2 powi (5 - 1) \<le> (60::real) \<longrightarrow> v \<le> v')"
    by (elim exE conjE) (rule that)
  have d8: "d = 8" using f(3) by simp
  have d32: "d' = 32" using f(4) by simp
  have v: "v = 256 / 25" using f(5) j d8 by simp
  have v': "v' = 176 / 5" using f(5) j d32 by simp
  have le: "v \<le> v'" using f(5) j by simp
  have "\<exists>v v'.
      calculate_backoff_delay get_default_settings (9 / 10) 3 = Inr v \<and>
      calculate_backoff_delay get_default_settings 0 5 = Inr v' \<and>
      v = 256 / 25 \<and> v' = 176 / 5 \<and> v \<le> v'"
    apply (rule exI[of _ v], rule exI[of _ v'])
    using f(1) f(2) v v' le by (intro conjI)
  with rp g show ?thesis by simp
qed

text \<open>
  Claim C6 as stated fails: the returned delay is not non-decreasing in the attempt
  number. With the default settings (jitter on) attempt 6 can return 76.8 and attempt 7
  only 66, both at the cap; below the cap, with jitter and multiplier 1.1 (less than
  \<open>13 / 11\<close>), attempt 1 can return 2.56 and attempt 2 only 2.42; and without jitter a
  multiplier of 0.5 gives 2 for attempt 1 and 1 for attempt 2.
\<close>

theorem backoff_delay_not_monotone:
  "calculate_backoff_delay get_default_settings (9 / 10) 6 = Inr (384 / 5) \<and>
   calculate_backoff_delay get_default_settings 0 7 = Inr 66 \<and>
   (66 :: real) < 384 / 5 \<and>
   calculate_backoff_delay (policy_settings 2 (11 / 10) 60 True) (9 / 10) 1 = Inr (64 / 25) \<and>
   calculate_backoff_delay (policy_settings 2 (11 / 10) 60 True) 0 2 = Inr (121 / 50) \<and>
   (121 / 50 :: real) < 64 / 25 \<and>
   calculate_backoff_delay (policy_settings 2 (1 / 2) 60 False) 0 1 = Inr 2 \<and>
   calculate_backoff_delay (policy_settings 2 (1 / 2) 60 False) 0 2 = Inr 1 \<and>
   (1 :: real) < 2"
  by (simp add: calculate_backoff_delay_def get_default_settings_def policy_settings_def
      DEFAULT_BASE_BACKOFF_def DEFAULT_MAX_BACKOFF_def DEFAULT_BACKOFF_MULTIPLIER_def
      DEFAULT_MAX_ATTEMPTS_def DEFAULT_SESSION_MAX_AGE_def Let_def float_overflow_def)

lemma load_session_state_ok:
  "\<not> read_fails env \<Longrightarrow> session_file dk = Some (Document sess) \<Longrightarrow>
   load_session_state env dk = sess"
  by (simp add: load_session_state_def read_session_file_def)

lemma load_session_state_failed:
  "read_fails env \<or> session_file dk = None \<or> session_file dk = Some Garbled \<Longrightarrow>
   last_state_saved_at (load_session_state env dk) = None"
  by (auto simp add: load_session_state_def read_session_file_def)

lemma check_session_ttl_no_timestamp:
  "last_state_saved_at (load_session_state env dk) = None \<or>
   last_state_saved_at (load_session_state env dk) = Some [] \<Longrightarrow>
   check_session_ttl f cfg now env dk = INVALID"
  by (auto simp add: check_session_ttl_def Let_def)

lemma check_session_ttl_unparsable:
  "last_state_saved_at (load_session_state env dk) = Some s \<Longrightarrow> f (replace_Z s) = Inl e \<Longrightarrow>
   check_session_ttl f cfg now env dk = INVALID"
  by (simp add: check_session_ttl_def Let_def)

lemma check_session_ttl_age:
  assumes "last_state_saved_at (load_session_state env dk) = Some s" "s \<noteq> []"
    "f (replace_Z s) = Inr t" "session_cfg cfg = Some sc" "max_age_seconds sc = Some M"
  shows "check_session_ttl f cfg now env dk =
     (if now - t > M then EXPIRED else if now - t > M * (8 / 10) then STALE else VALID)"
  using assms by (simp add: check_session_ttl_def Let_def)

text \<open>
  Claim C5. With a configured \<open>max_age\<close> that is not negative,
  \<^verbatim>\<open>check_session_ttl\<close> gives invalid when the session file cannot be read or holds
  no document, when \<^verbatim>\<open>last_state_saved_at\<close> is missing or empty, and when the
  timestamp cannot be parsed. Otherwise, with \<open>age = now - last_saved\<close>, it gives valid
  exactly when \<open>age \<le> 0.8 * max_age\<close>, stale exactly when
  \<open>0.8 * max_age < age \<le> max_age\<close> and expired exactly when \<open>age > max_age\<close>: the
  result depends on nothing but the stored timestamp, the clock and \<open>max_age\<close>.
\<close>

theorem check_session_ttl_classifies:
  assumes cfg: "session_cfg cfg = Some sc" "max_age_seconds sc = Some M" and M: "0 \<le> M"
  shows "(read_fails env \<or> session_file dk = None \<or> session_file dk = Some Garbled \<longrightarrow>
        check_session_ttl f cfg now env dk = INVALID) \<and>
     (\<forall>sess. \<not> read_fails env \<and> session_file dk = Some (Document sess) \<longrightarrow>
        (last_state_saved_at sess = None \<or> last_state_saved_at sess = Some [] \<longrightarrow>
           check_session_ttl f cfg now env dk = INVALID) \<and>
        (\<forall>s e. last_state_saved_at sess = Some s \<and> f (replace_Z s) = Inl e \<longrightarrow>
           check_session_ttl f cfg now env dk = INVALID) \<and>
        (\<forall>s t. last_state_saved_at sess = Some s \<and> s \<noteq> [] \<and> f (replace_Z s) = Inr t \<longrightarrow>
           (check_session_ttl f cfg now env dk = VALID \<longleftrightarrow> now - t \<le> 8 / 10 * M) \<and>
           (check_session_ttl f cfg now env dk = STALE \<longleftrightarrow>
              8 / 10 * M < now - t \<and> now - t \<le> M) \<and>
           (check_session_ttl f cfg now env dk = EXPIRED \<longleftrightarrow> M < now - t) \<and>
           check_session_ttl f cfg now env dk \<noteq> INVALID))"
proof (intro conjI allI impI)
  assume "read_fails env \<or> session_file dk = None \<or> session_file dk = Some Garbled"
  then have "last_state_saved_at (load_session_state env dk) = None"
    by (rule load_session_state_failed)
  then show "check_session_ttl f cfg now env dk = INVALID"
    by (simp add: check_session_ttl_no_timestamp)
next
  fix sess
  assume a: "\<not> read_fails env \<and> session_file dk = Some (Document sess)"
    and b: "last_state_saved_at sess = None \<or> last_state_saved_at sess = Some []"
  from a have "load_session_state env dk = sess" by (simp add: load_session_state_ok)
  with b show "check_session_ttl f cfg now env dk = INVALID"
    by (simp add: check_session_ttl_no_timestamp)
next
  fix sess s e
  assume a: "\<not> read_fails env \<and> session_file dk = Some (Document sess)"
    and b: "last_state_saved_at sess = Some s \<and> f (replace_Z s) = Inl e"
  from a have "load_session_state env dk = sess" by (simp add: load_session_state_ok)
  with b show "check_session_ttl f cfg now env dk = INVALID"
    by (simp add: check_session_ttl_unparsable)
next
  fix sess s t
  assume a: "\<not> read_fails env \<and> session_file dk = Some (Document sess)"
    and b: "last_state_saved_at sess = Some s \<and> s \<noteq> [] \<and> f (replace_Z s) = Inr t"
  from a have l: "load_session_state env dk = sess" by (simp add: load_session_state_ok)
  from b have b1: "last_state_saved_at (load_session_state env dk) = Some s"
    and b2: "s \<noteq> []" and b3: "f (replace_Z s) = Inr t"
    by (simp_all add: l)
  have r: "check_session_ttl f cfg now env dk =
     (if now - t > M then EXPIRED else if now - t > M * (8 / 10) then STALE else VALID)"
    using b1 b2 b3 cfg by (rule check_session_ttl_age)
  have le: "M * (8 / 10) \<le> M" using M by simp
  show "check_session_ttl f cfg now env dk = VALID \<longleftrightarrow> now - t \<le> 8 / 10 * M"
    using le by (auto simp add: r)
  show "check_session_ttl f cfg now env dk = STALE \<longleftrightarrow> 8 / 10 * M < now - t \<and> now - t \<le> M"
    using le by (auto simp add: r)
  show "check_session_ttl f cfg now env dk = EXPIRED \<longleftrightarrow> M < now - t"
    using le by (auto simp add: r)
  show "check_session_ttl f cfg now env dk \<noteq> INVALID"
    by (simp add: r)
qed


theorem check_session_ttl_classifies_witness:
  "session_cfg get_default_settings = Some \<lparr>max_age_seconds = Some 3600\<rparr> \<and>
   check_session_ttl example_fromisoformat get_default_settings 3800
     (call_at ''2024-05-01T10:46:40'' ''20240501_104640'')
     (session_store (Some ''2024-05-01T10:00:00Z'')) = VALID \<and>
   check_session_ttl example_fromisoformat get_default_settings 3900
     (call_at ''2024-05-01T10:48:20'' ''20240501_104820'')
     (session_store (Some ''2024-05-01T10:00:00Z'')) = STALE \<and>
   check_session_ttl example_fromisoformat get_default_settings 4700
     (call_at ''2024-05-01T11:01:40'' ''20240501_110140'')
     (session_store (Some ''2024-05-01T10:00:00Z'')) = EXPIRED \<and>
   check_session_ttl example_fromisoformat get_default_settings 4700
     (call_at ''2024-05-01T11:01:40'' ''20240501_110140'')
     (session_store None) = INVALID \<and>
   check_session_ttl example_fromisoformat get_default_settings 4700
     (call_at ''2024-05-01T11:01:40'' ''20240501_110140'')
     (session_store (Some ''yesterday'')) = INVALID"
proof -
  let ?sc = "\<lparr>max_age_seconds = Some (3600::real)\<rparr>"
  have c1: "session_cfg get_default_settings = Some ?sc"
    by (simp add: get_default_settings_def DEFAULT_SESSION_MAX_AGE_def)
  have c2: "max_age_seconds ?sc = Some 3600" by simp
  have m: "(0::real) \<le> 3600" by simp
  note T = check_session_ttl_classifies[OF c1 c2 m, where f = example_fromisoformat]
  have ok: "\<not> read_fails (call_at a b)" for a b by (simp add: call_at_def)
  have doc: "session_file (session_store saved) = Some (Document
        \<lparr>last_state_saved_at = saved, session_valid = Some True,
         state_file_path = Some ''state/browser.json'', login_count = Some 1,
         last_validation_at = Some ''2024-05-01T10:00:00''\<rparr>)" for saved
    by (simp add: session_store_def)
  have z: "replace_Z ''2024-05-01T10:00:00Z'' = ''2024-05-01T10:00:00+00:00''"
    by (simp add: replace_Z_def)
  have p: "example_fromisoformat (replace_Z ''2024-05-01T10:00:00Z'') = Inr 1000"
    by (simp add: z example_fromisoformat_def)
  have q: "example_fromisoformat (replace_Z ''yesterday'') = Inl ValueError"
    by (simp add: replace_Z_def example_fromisoformat_def)
  have valid: "check_session_ttl example_fromisoformat get_default_settings 3800
     (call_at ''2024-05-01T10:46:40'' ''20240501_104640'')
     (session_store (Some ''2024-05-01T10:00:00Z'')) = VALID"
    using T[where now = 3800 and env = "call_at ''2024-05-01T10:46:40'' ''20240501_104640''"
        and dk = "session_store (Some ''2024-05-01T10:00:00Z'')"] p
    by (simp add: ok doc)
  have stale: "check_session_ttl example_fromisoformat get_default_settings 3900
     (call_at ''2024-05-01T10:48:20'' ''20240501_104820'')
     (session_store (Some ''2024-05-01T10:00:00Z'')) = STALE"
    using T[where now = 3900 and env = "call_at ''2024-05-01T10:48:20'' ''20240501_104820''"
        and dk = "session_store (Some ''2024-05-01T10:00:00Z'')"] p
    by (simp add: ok doc)
  have expired: "check_session_ttl example_fromisoformat get_default_settings 4700
     (call_at ''2024-05-01T11:01:40'' ''20240501_110140'')
     (session_store (Some ''2024-05-01T10:00:00Z'')) = EXPIRED"
    using T[where now = 4700 and env = "call_at ''2024-05-01T11:01:40'' ''20240501_110140''"
        and dk = "session_store (Some ''2024-05-01T10:00:00Z'')"] p
    by (simp add: ok doc)
  have missing: "check_session_ttl example_fromisoformat get_default_settings 4700
     (call_at ''2024-05-01T11:01:40'' ''20240501_110140'')
     (session_store None) = INVALID"
    using T[where now = 4700 and env = "call_at ''2024-05-01T11:01:40'' ''20240501_110140''"
        and dk = "session_store None"]
    by (simp add: ok doc)
  have unparsable: "check_session_ttl example_fromisoformat get_default_settings 4700
     (call_at ''2024-05-01T11:01:40'' ''20240501_110140'')
     (session_store (Some ''yesterday'')) = INVALID"
    using T[where now = 4700 and env = "call_at ''2024-05-01T11:01:40'' ''20240501_110140''"
        and dk = "session_store (Some ''yesterday'')"] q
    by (simp add: ok doc)
  from c1 valid stale expired missing unparsable show ?thesis by (intro conjI)
qed

lemma validate_input_mismatch:
  assumes cur: "calculate_checksum env (input_video (config ed)) dk = Inr current"
    and saved: "input_checksum (metadata (state ed)) = Some old" "old \<noteq> []" "old \<noteq> current"
  shows "validate_input env ed dk =
     (case save_error env (reset_state current) of
        Some e \<Rightarrow> (Some e, ed\<lparr>state := reset_state current\<rparr>, dk)
      | None \<Rightarrow> (Some AttributeError, ed\<lparr>state := reset_state current\<rparr>,
                  dk\<lparr>state_doc := Some (reset_state current)\<rparr>))"
  using assms
  by (simp add: validate_input_def Let_def truthy_def save_state_def clear_old_work_def
      chunk_dir_def split: option.splits)

text \<open>
  Claim C2 says that a run on a changed input discards the stored state and empties and
  recreates the chunk directory. The code replaces and saves the state, but then reads
  \<^verbatim>\<open>self.chunk_dir\<close>, an attribute that does not exist (the constructor sets
  \<^verbatim>\<open>chunks_dir\<close>): \<^verbatim>\<open>AttributeError\<close> is raised and caught by the handler of
  \<^verbatim>\<open>run\<close>. So whenever the stored checksum is a non-empty string different from the
  fresh one, \<^verbatim>\<open>run\<close> returns \<^verbatim>\<open>False\<close> and every file and directory is still in
  place; if the state could be saved, it is the reset state.
\<close>

theorem changed_input_leaves_chunk_files:
  assumes cur: "calculate_checksum env (input_video (config ed)) dk = Inr current"
    and saved: "input_checksum (metadata (state ed)) = Some old" "old \<noteq> []" "old \<noteq> current"
  shows "\<exists>ed' dk'. run env ed dk = Some (False, ed', dk') \<and>
      files dk' = files dk \<and> dirs dk' = dirs dk \<and>
      (save_error env (reset_state current) = None \<longrightarrow>
         state ed' = reset_state current \<and> state_doc dk' = Some (reset_state current))"
proof (cases "save_error env (reset_state current)")
  case None
  then have "run env ed dk = Some (False, ed\<lparr>state := reset_state current\<rparr>,
      dk\<lparr>state_doc := Some (reset_state current)\<rparr>)"
    by (simp add: run_def validate_input_mismatch[OF assms])
  then show ?thesis using None by simp
next
  case (Some e)
  then have "run env ed dk = Some (False, ed\<lparr>state := reset_state current\<rparr>, dk)"
    by (simp add: run_def validate_input_mismatch[OF assms])
  then show ?thesis using Some by simp
qed

lemma fmt03d_0: "fmt03d 0 = ''000''"
  by code_simp

lemma fmt03d_1: "fmt03d (Suc 0) = ''001''"
  by code_simp

theorem changed_input_leaves_chunk_files_witness:
  "\<exists>ed1 dk1 ed2 dk2.
     run changed_env (fst (init_editor example_config ''work'' stale_disk))
       (snd (init_editor example_config ''work'' stale_disk)) = Some (False, ed1, dk1) \<and>
     ''work/chunks/chunk_000_output.mp4'' \<in> files dk1 \<and>
     state_doc dk1 = Some (reset_state ''n3w1'') \<and>
     run changed_env (fst (init_editor example_config ''work'' dk1))
       (snd (init_editor example_config ''work'' dk1)) = Some (True, ed2, dk2) \<and>
     map processed (chunks (state ed2)) = [False] \<and>
     files dk2 = files stale_disk"
proof -
  let ?ed = "fst (init_editor example_config ''work'' stale_disk)"
  let ?dk = "snd (init_editor example_config ''work'' stale_disk)"
  have dk: "?dk = stale_disk"
    by (simp add: init_editor_def Let_def mkdir_p_def stale_disk_def path_join_def insert_commute)
  have h1: "calculate_checksum changed_env (input_video (config ?ed)) ?dk = Inr ''n3w1''"
    by (simp add: init_editor_def Let_def calculate_checksum_def changed_env_def
        example_config_def stale_disk_def mkdir_p_def)
  have h2: "input_checksum (metadata (state ?ed)) = Some ''0ld5''"
    by (simp add: init_editor_def Let_def load_state_def stale_disk_def stale_state_def)
  have h3: "''0ld5'' \<noteq> []" and h4: "''0ld5'' \<noteq> ''n3w1''" by simp_all
  from changed_input_leaves_chunk_files[OF h1 h2 h3 h4]
  obtain ed1 dk1 where run1: "run changed_env ?ed ?dk = Some (False, ed1, dk1)"
    and f1: "files dk1 = files ?dk" and d1: "dirs dk1 = dirs ?dk"
    and s1: "save_error changed_env (reset_state ''n3w1'') = None \<longrightarrow>
         state ed1 = reset_state ''n3w1'' \<and> state_doc dk1 = Some (reset_state ''n3w1'')"
    by (elim exE conjE) (rule that)
  have doc1: "state_doc dk1 = Some (reset_state ''n3w1'')"
    using s1 by (simp add: changed_env_def)
  have dk1: "dk1 = stale_disk\<lparr>state_doc := Some (reset_state ''n3w1'')\<rparr>"
    using f1 d1 doc1 by (simp add: dk)
  have kept: "''work/chunks/chunk_000_output.mp4'' \<in> files dk1"
    by (simp add: dk1 stale_disk_def)
  let ?c = "\<lparr>chunk_id = 0, start_time = 0, end_time = 120, duration = 120,
             input_path = ''work/chunks/chunk_000_input.mp4'',
             output_path = ''work/chunks/chunk_000_output.mp4'',
             processed = False, checksum = None\<rparr>"
  define ed2 where "ed2 = fst (init_editor example_config ''work'' dk1)"
  define dk2 where "dk2 = snd (init_editor example_config ''work'' dk1)"
  have dk2: "dk2 = dk1"
    unfolding dk2_def
    by (simp add: dk1 init_editor_def Let_def mkdir_p_def stale_disk_def path_join_def
        insert_commute)
  have ed2: "ed2 = \<lparr>config = example_config, work_dir = ''work'', chunks_dir = ''work/chunks'',
      temp_dir = ''work/temp'', state_file = ''work/edit_state.json'',
      state = reset_state ''n3w1''\<rparr>"
    unfolding ed2_def
    by (simp add: dk1 init_editor_def Let_def load_state_def path_join_def)
  have v: "validate_input changed_env ed2 dk2 = (None, ed2, dk2)"
    by (simp add: ed2 dk2 dk1 validate_input_def calculate_checksum_def changed_env_def
        example_config_def stale_disk_def reset_state_def truthy_def Let_def)
  have loop: "chunk_loop ed2 120 [] 0 0 = Some [?c]"
    by (simp add: ed2 chunk_loop.simps make_chunk_def example_config_def Let_def path_join_def
        fmt03d_0)
  define ed3 where "ed3 = ed2\<lparr>state := (state ed2)\<lparr>chunks := [?c],
       metadata := (metadata (state ed2))\<lparr>total_chunks := Some 1, total_duration := Some 120\<rparr>\<rparr>\<rparr>"
  have c0: "chunks (state ed2) = []" "completed_steps (state ed2) = []"
    by (simp_all add: ed2 reset_state_def)
  have pr: "probe_duration changed_env v = Inr 120" for v
    by (simp add: changed_env_def)
  have sv: "save_error changed_env s = None" for s
    by (simp add: changed_env_def)
  have calc: "calculate_chunks changed_env ed2 dk2 =
      Some (Inr [?c], ed3, dk2\<lparr>state_doc := Some (state ed3)\<rparr>)"
    by (simp add: calculate_chunks_def c0 pr loop save_state_def sv Let_def ed3_def)
  define ed4 where "ed4 = ed3\<lparr>state := (state ed3)\<lparr>completed_steps := [''chunk_calculation'']\<rparr>\<rparr>"
  define ed5 where "ed5 = ed4\<lparr>state := (state ed4)
      \<lparr>completed_steps := [''chunk_calculation'', ''chunk_splitting'']\<rparr>\<rparr>"
  have c3: "completed_steps (state ed3) = []" by (simp add: ed3_def c0)
  have step1: "complete_step changed_env ''chunk_calculation'' ed3 (dk2\<lparr>state_doc := Some (state ed3)\<rparr>)
      = (None, ed4, dk2\<lparr>state_doc := Some (state ed4)\<rparr>)"
    by (simp add: complete_step_def save_state_def sv Let_def ed4_def c3)
  have fl: "files dk2 = files stale_disk"
    by (simp add: dk2 dk1)
  have inp: "''work/chunks/chunk_000_input.mp4'' \<in> files stale_disk"
    and outp: "''work/chunks/chunk_000_output.mp4'' \<in> files stale_disk"
    by (simp_all add: stale_disk_def)
  have split: "split_into_chunks changed_env [?c] (dk2\<lparr>state_doc := x\<rparr>) = (None, dk2\<lparr>state_doc := x\<rparr>)"
    for x
    by (simp add: fl inp)
  have c4: "completed_steps (state ed4) = [''chunk_calculation'']" by (simp add: ed4_def)
  have step2: "split_step changed_env [?c] ed4 (dk2\<lparr>state_doc := Some (state ed4)\<rparr>)
      = (Inr [?c], ed5, dk2\<lparr>state_doc := Some (state ed5)\<rparr>)"
    by (simp add: split_step_def fl inp complete_step_def save_state_def sv Let_def ed5_def c4)
  have prep: "prepare_chunks changed_env ed2 dk2 =
      Some (Inr [?c], ed5, dk2\<lparr>state_doc := Some (state ed5)\<rparr>)"
    by (simp add: prepare_chunks_def c0 calc step1 step2)
  have pc: "process_chunk changed_env ed5 ?c (dk2\<lparr>state_doc := x\<rparr>) = (True, ?c, dk2\<lparr>state_doc := x\<rparr>)"
    for x
    by (simp add: process_chunk_def fl outp)
  have c5: "chunks (state ed5) = [?c]" by (simp add: ed5_def ed4_def ed3_def)
  define ed6 where "ed6 = ed5\<lparr>state := (state ed5)\<lparr>chunks := [?c]\<rparr>\<rparr>"
  have loop3: "process_chunks changed_env ed5 [?c] (dk2\<lparr>state_doc := Some (state ed5)\<rparr>) =
      (Completed, [?c], ed6, dk2\<lparr>state_doc := Some (state ed6)\<rparr>)"
    by (simp add: process_chunk_def fl outp c5 save_state_def sv Let_def ed6_def)
  have ls: "later_steps changed_env cs e d = (None, e, d)" for cs e d
    by (simp add: changed_env_def)
  define dkf where "dkf = dk2\<lparr>state_doc := Some (state ed6)\<rparr>"
  have run2: "run changed_env ed2 dk2 = Some (True, ed6, dkf)"
    by (simp add: run_def v prep loop3 ls dkf_def del: process_chunks.simps)
  have flags: "map processed (chunks (state ed6)) = [False]" by (simp add: ed6_def)
  have ff: "files dkf = files stale_disk" by (simp add: dkf_def fl)
  have "run changed_env ?ed ?dk = Some (False, ed1, dk1) \<and>
     ''work/chunks/chunk_000_output.mp4'' \<in> files dk1 \<and>
     state_doc dk1 = Some (reset_state ''n3w1'') \<and>
     run changed_env (fst (init_editor example_config ''work'' dk1))
       (snd (init_editor example_config ''work'' dk1)) = Some (True, ed6, dkf) \<and>
     map processed (chunks (state ed6)) = [False] \<and>
     files dkf = files stale_disk"
    using run1 kept doc1 run2[unfolded ed2_def dk2_def] flags ff by (intro conjI)
  then show ?thesis
    by (intro exI)
qed

lemma under_temp_path: "under d (path_join d n)"
  by (simp add: under_def path_join_def)

lemma run_helper_files: "files (area cr) \<subseteq> files (area (run_helper env h out cr))"
  by (auto simp add: run_helper_def Let_def split: option.splits)

lemma run_helper_temp_files: "temp_files (run_helper env h out cr) = temp_files cr"
  by (simp add: run_helper_def Let_def split: option.splits)

lemma temp_step_files: "files (area cr) \<subseteq> files (area (temp_step env ed c h sfx cr))"
proof -
  let ?out = "path_join (temp_dir ed) (''chunk_'' @ fmt03d (chunk_id c) @ sfx)"
  have "files (area (cr\<lparr>temp_files := temp_files cr @ [?out]\<rparr>))
      \<subseteq> files (area (run_helper env h ?out (cr\<lparr>temp_files := temp_files cr @ [?out]\<rparr>)))"
    by (rule run_helper_files)
  then show ?thesis by (simp add: temp_step_def Let_def)
qed

lemma temp_step_temp_files:
  assumes "\<forall>t \<in> set (temp_files cr). under (temp_dir ed) t"
  shows "\<forall>t \<in> set (temp_files (temp_step env ed c h sfx cr)). under (temp_dir ed) t"
  using assms by (simp add: temp_step_def Let_def run_helper_temp_files under_temp_path)

lemma temp_step_sticky:
  "failure cr = Some e \<Longrightarrow> temp_step env ed c h sfx cr = cr"
  by (simp add: temp_step_def)

lemma run_helper_sticky:
  "failure cr = Some e \<Longrightarrow> run_helper env h out cr = cr"
  by (simp add: run_helper_def)

lemma fold_steps_files:
  "files (area cr) \<subseteq> files (area (fold (\<lambda>(h, sfx). temp_step env ed c h sfx) xs cr))"
proof (induction xs arbitrary: cr)
  case Nil
  then show ?case by simp
next
  case (Cons x xs)
  obtain h sfx where x: "x = (h, sfx)" by (cases x)
  have "files (area cr) \<subseteq> files (area (temp_step env ed c h sfx cr))"
    by (rule temp_step_files)
  also have "\<dots> \<subseteq> files (area (fold (\<lambda>(h, sfx). temp_step env ed c h sfx) xs
      (temp_step env ed c h sfx cr)))"
    by (rule Cons.IH)
  finally show ?case by (simp add: x)
qed

lemma fold_steps_temp_files:
  "\<forall>t \<in> set (temp_files cr). under (temp_dir ed) t \<Longrightarrow>
   \<forall>t \<in> set (temp_files (fold (\<lambda>(h, sfx). temp_step env ed c h sfx) xs cr)).
     under (temp_dir ed) t"
proof (induction xs arbitrary: cr)
  case Nil
  then show ?case by simp
next
  case (Cons x xs)
  obtain h sfx where x: "x = (h, sfx)" by (cases x)
  have "\<forall>t \<in> set (temp_files (temp_step env ed c h sfx cr)). under (temp_dir ed) t"
    using Cons.prems by (rule temp_step_temp_files)
  then show ?case using Cons.IH by (simp add: x)
qed

lemma run_steps_files: "files dk \<subseteq> files (area (run_steps env ed c dk))"
proof -
  let ?cr0 = "\<lparr>current_input = input_path c, temp_files = [], area = dk, failure = None\<rparr>"
  let ?cr6 = "fold (\<lambda>(h, sfx). temp_step env ed c h sfx) (chunk_steps (config ed)) ?cr0"
  have "files dk = files (area ?cr0)" by simp
  also have "\<dots> \<subseteq> files (area ?cr6)" by (rule fold_steps_files)
  also have "\<dots> \<subseteq> files (area (run_helper env Reencode_for_concat (output_path c) ?cr6))"
    by (rule run_helper_files)
  finally show ?thesis by (simp add: run_steps_def)
qed

lemma run_steps_temp_files:
  "\<forall>t \<in> set (temp_files (run_steps env ed c dk)). under (temp_dir ed) t"
proof -
  let ?cr0 = "\<lparr>current_input = input_path c, temp_files = [], area = dk, failure = None\<rparr>"
  have "\<forall>t \<in> set (temp_files ?cr0). under (temp_dir ed) t" by simp
  then have "\<forall>t \<in> set (temp_files
      (fold (\<lambda>(h, sfx). temp_step env ed c h sfx) (chunk_steps (config ed)) ?cr0)).
      under (temp_dir ed) t"
    by (rule fold_steps_temp_files)
  then show ?thesis by (simp add: run_steps_def run_helper_temp_files)
qed

lemma process_body_area:
  "area (fst (process_body env ed c dk)) = area (run_steps env ed c dk)"
  "temp_files (fst (process_body env ed c dk)) = temp_files (run_steps env ed c dk)"
  by (simp_all add: process_body_def Let_def split: sum.splits)

lemma process_body_result:
  assumes "process_body env ed c dk = (cr, c1)"
  shows "output_path c1 = output_path c \<and> chunk_id c1 = chunk_id c \<and>
     (failure cr = None \<longrightarrow> processed c1 \<and> output_path c \<in> files (area cr)) \<and>
     (failure cr \<noteq> None \<longrightarrow> c1 = c)"
proof (cases "failure (run_steps env ed c dk)")
  case (Some e)
  with assms show ?thesis by (auto simp add: process_body_def Let_def)
next
  case None
  show ?thesis
  proof (cases "calculate_checksum env (output_path c) (area (run_steps env ed c dk))")
    case (Inl e)
    with None assms show ?thesis by (auto simp add: process_body_def Let_def)
  next
    case (Inr h)
    then have "output_path c \<in> files (area (run_steps env ed c dk))"
      by (simp add: calculate_checksum_def split: if_splits)
    with None Inr assms show ?thesis by (auto simp add: process_body_def Let_def)
  qed
qed

lemma process_chunk_skip:
  "output_path c \<in> files dk \<Longrightarrow> process_chunk env ed c dk = (True, c, dk)"
  by (simp add: process_chunk_def)

lemma cleanup_keeps:
  "p \<in> files dk \<Longrightarrow> p \<notin> set tmp \<Longrightarrow> p \<in> files (cleanup env tmp dk)"
  by (simp add: cleanup_def)

lemma process_chunk_keeps:
  assumes "p \<in> files dk" "\<not> under (temp_dir ed) p"
  shows "p \<in> files (snd (snd (process_chunk env ed c dk)))"
proof (cases "output_path c \<in> files dk")
  case True
  then show ?thesis using assms by (simp add: process_chunk_skip)
next
  case False
  obtain cr c1 where b: "process_body env ed c dk = (cr, c1)" by (cases "process_body env ed c dk")
  have a: "area cr = area (run_steps env ed c dk)"
    and t: "temp_files cr = temp_files (run_steps env ed c dk)"
    using process_body_area[of env ed c dk] b by simp_all
  have "p \<in> files (area cr)" using assms(1) run_steps_files[of dk env ed c] a by auto
  moreover have "p \<notin> set (temp_files cr)"
    using assms(2) run_steps_temp_files[of env ed c dk] t by auto
  ultimately have "p \<in> files (cleanup env (temp_files cr) (area cr))" by (rule cleanup_keeps)
  then show ?thesis using False b by (simp add: process_chunk_def)
qed

lemma process_chunk_result:
  assumes r: "process_chunk env ed c dk = (ok, c1, dk1)"
    and nt: "\<not> under (temp_dir ed) (output_path c)"
  shows "output_path c1 = output_path c \<and> chunk_id c1 = chunk_id c \<and>
     (ok \<longrightarrow> output_path c \<in> files dk1) \<and> (\<not> ok \<longrightarrow> c1 = c) \<and>
     (processed c1 \<and> \<not> processed c \<longrightarrow> ok)"
proof (cases "output_path c \<in> files dk")
  case True
  then show ?thesis using r by (auto simp add: process_chunk_skip)
next
  case False
  obtain cr c2 where b: "process_body env ed c dk = (cr, c2)" by (cases "process_body env ed c dk")
  from r False b have ok: "ok = (failure cr = None)" and c1: "c1 = c2"
    and dk1: "dk1 = cleanup env (temp_files cr) (area cr)"
    by (simp_all add: process_chunk_def)
  note res = process_body_result[OF b]
  have t: "temp_files cr = temp_files (run_steps env ed c dk)"
    using process_body_area[of env ed c dk] b by simp
  have notmp: "output_path c \<notin> set (temp_files cr)"
    using nt run_steps_temp_files[of env ed c dk] t by auto
  have "output_path c \<in> files dk1" if "ok"
  proof -
    from that ok res have "output_path c \<in> files (area cr)" by simp
    then show ?thesis unfolding dk1 using notmp by (rule cleanup_keeps)
  qed
  moreover have "c1 = c" if "\<not> ok" using that ok res c1 by simp
  moreover have "ok" if "processed c1 \<and> \<not> processed c"
  proof (rule ccontr)
    assume "\<not> ok"
    then have "c1 = c" using ok res c1 by simp
    with that show False by simp
  qed
  ultimately show ?thesis using res c1 by blast
qed

lemma save_state_files:
  "save_state env ed dk = Inr dk' \<Longrightarrow> files dk' = files dk"
  by (auto simp add: save_state_def split: option.splits)

lemma process_chunks_keeps:
  "process_chunks env ed cs dk = (r, cs', ed', dk') \<Longrightarrow> p \<in> files dk \<Longrightarrow>
   \<not> under (temp_dir ed) p \<Longrightarrow> p \<in> files dk'"
proof (induction cs arbitrary: ed dk r cs' ed' dk')
  case Nil
  then show ?case by simp
next
  case (Cons c cs)
  show ?case
  proof (cases "processed c")
    case True
    obtain r1 cs1 ed1 dk1 where rec: "process_chunks env ed cs dk = (r1, cs1, ed1, dk1)"
      by (cases "process_chunks env ed cs dk")
    with True Cons.prems(1) have "dk' = dk1" by simp
    moreover have "p \<in> files dk1" by (rule Cons.IH[OF rec Cons.prems(2) Cons.prems(3)])
    ultimately show ?thesis by simp
  next
    case False
    obtain ok c1 dk1 where pc: "process_chunk env ed c dk = (ok, c1, dk1)"
      by (cases "process_chunk env ed c dk")
    have k1: "p \<in> files dk1"
      using process_chunk_keeps[OF Cons.prems(2) Cons.prems(3), of env c] pc by simp
    show ?thesis
    proof (cases ok)
      case False
      with \<open>\<not> processed c\<close> pc Cons.prems(1) have "dk' = dk1" by simp
      with k1 show ?thesis by simp
    next
      case True
      define ed1 where "ed1 = ed\<lparr>state := (state ed)
          \<lparr>chunks := update_state_chunk c1 (chunks (state ed))\<rparr>\<rparr>"
      have td: "temp_dir ed1 = temp_dir ed" by (simp add: ed1_def)
      show ?thesis
      proof (cases "save_state env ed1 dk1")
        case (Inl e)
        with True \<open>\<not> processed c\<close> pc Cons.prems(1) have "dk' = dk1"
          by (simp add: ed1_def Let_def)
        with k1 show ?thesis by simp
      next
        case (Inr dk2)
        obtain r3 cs3 ed3 dk3 where rec: "process_chunks env ed1 cs dk2 = (r3, cs3, ed3, dk3)"
          by (cases "process_chunks env ed1 cs dk2")
        from Inr True \<open>\<not> processed c\<close> pc rec Cons.prems(1) have "dk' = dk3"
          by (simp add: ed1_def Let_def)
        moreover have "p \<in> files dk2" using k1 save_state_files[OF Inr] by simp
        then have "p \<in> files dk3"
          using Cons.prems(3) td by (intro Cons.IH[OF rec]) simp_all
        ultimately show ?thesis by simp
      qed
    qed
  qed
qed

lemma process_chunks_inv:
  "process_chunks env ed cs dk = (r, cs', ed', dk') \<Longrightarrow>
   \<forall>c \<in> set cs. \<not> under (temp_dir ed) (output_path c) \<Longrightarrow>
   \<forall>c \<in> set cs. processed c \<longrightarrow> output_path c \<in> files dk \<Longrightarrow>
   map output_path cs' = map output_path cs \<and>
   (\<forall>c \<in> set cs'. processed c \<longrightarrow> output_path c \<in> files dk')"
proof (induction cs arbitrary: ed dk r cs' ed' dk')
  case Nil
  then show ?case by auto
next
  case (Cons c cs)
  from Cons.prems(2) have ntc: "\<not> under (temp_dir ed) (output_path c)"
    and nts: "\<forall>c \<in> set cs. \<not> under (temp_dir ed) (output_path c)" by simp_all
  from Cons.prems(3) have invs: "\<forall>c \<in> set cs. processed c \<longrightarrow> output_path c \<in> files dk"
    by simp
  show ?case
  proof (cases "processed c")
    case True
    obtain r1 cs1 ed1 dk1 where rec: "process_chunks env ed cs dk = (r1, cs1, ed1, dk1)"
      by (cases "process_chunks env ed cs dk")
    with True Cons.prems(1) have res: "cs' = c # cs1" "dk' = dk1" by simp_all
    from Cons.IH[OF rec nts invs] have ih: "map output_path cs1 = map output_path cs"
      "\<forall>c \<in> set cs1. processed c \<longrightarrow> output_path c \<in> files dk1" by simp_all
    have "output_path c \<in> files dk" using True Cons.prems(3) by simp
    then have "output_path c \<in> files dk1" using ntc by (rule process_chunks_keeps[OF rec])
    with ih res show ?thesis by simp
  next
    case False
    obtain ok c1 dk1 where pc: "process_chunk env ed c dk = (ok, c1, dk1)"
      by (cases "process_chunk env ed c dk")
    note pr = process_chunk_result[OF pc ntc]
    have keep1: "p \<in> files dk1" if "p \<in> files dk" "\<not> under (temp_dir ed) p" for p
      using process_chunk_keeps[OF that, of env c] pc by simp
    have invs1: "\<forall>c \<in> set cs. processed c \<longrightarrow> output_path c \<in> files dk1"
      using invs nts keep1 by blast
    show ?thesis
    proof (cases ok)
      case False
      with \<open>\<not> processed c\<close> pc Cons.prems(1) have res: "cs' = c1 # cs" "dk' = dk1" by simp_all
      have "c1 = c" using pr False by simp
      with res invs1 \<open>\<not> processed c\<close> show ?thesis by simp
    next
      case True
      then have out1: "output_path c \<in> files dk1" using pr by simp
      define ed1 where "ed1 = ed\<lparr>state := (state ed)
          \<lparr>chunks := update_state_chunk c1 (chunks (state ed))\<rparr>\<rparr>"
      have td: "temp_dir ed1 = temp_dir ed" by (simp add: ed1_def)
      show ?thesis
      proof (cases "save_state env ed1 dk1")
        case (Inl e)
        with True \<open>\<not> processed c\<close> pc Cons.prems(1) have res: "cs' = c1 # cs" "dk' = dk1"
          by (simp_all add: ed1_def Let_def)
        with invs1 out1 pr show ?thesis by simp
      next
        case (Inr dk2)
        obtain r3 cs3 ed3 dk3 where rec: "process_chunks env ed1 cs dk2 = (r3, cs3, ed3, dk3)"
          by (cases "process_chunks env ed1 cs dk2")
        from Inr True \<open>\<not> processed c\<close> pc rec Cons.prems(1) have res: "cs' = c1 # cs3" "dk' = dk3"
          by (simp_all add: ed1_def Let_def)
        have f2: "files dk2 = files dk1" by (rule save_state_files[OF Inr])
        have nts1: "\<forall>c \<in> set cs. \<not> under (temp_dir ed1) (output_path c)"
          using nts td by simp
        have invs2: "\<forall>c \<in> set cs. processed c \<longrightarrow> output_path c \<in> files dk2"
          using invs1 f2 by simp
        from Cons.IH[OF rec nts1 invs2] have ih: "map output_path cs3 = map output_path cs"
          "\<forall>c \<in> set cs3. processed c \<longrightarrow> output_path c \<in> files dk3" by simp_all
        have "output_path c \<in> files dk2" using out1 f2 by simp
        then have "output_path c \<in> files dk3"
          using ntc td by (intro process_chunks_keeps[OF rec]) simp_all
        with ih res pr show ?thesis by simp
      qed
    qed
  qed
qed

lemma process_chunks_all_done:
  "\<forall>c \<in> set xs. processed c \<or> output_path c \<in> files dk \<Longrightarrow>
   \<forall>s. save_error env s = None \<Longrightarrow>
   \<exists>ed' dk'. process_chunks env ed xs dk = (Completed, xs, ed', dk') \<and> files dk' = files dk"
proof (induction xs arbitrary: ed dk)
  case Nil
  then show ?case by simp
next
  case (Cons c xs)
  from Cons.prems(1) have rest: "\<forall>c \<in> set xs. processed c \<or> output_path c \<in> files dk"
    by simp
  show ?case
  proof (cases "processed c")
    case True
    from Cons.IH[OF rest Cons.prems(2), of ed] obtain ed' dk' where
      "process_chunks env ed xs dk = (Completed, xs, ed', dk')" "files dk' = files dk"
      by (elim exE conjE)
    with True show ?thesis by simp
  next
    case False
    with Cons.prems(1) have out: "output_path c \<in> files dk" by simp
    define ed1 where "ed1 = ed\<lparr>state := (state ed)
          \<lparr>chunks := update_state_chunk c (chunks (state ed))\<rparr>\<rparr>"
    define dk1 where "dk1 = dk\<lparr>state_doc := Some (state ed1)\<rparr>"
    have sv: "save_state env ed1 dk = Inr dk1"
      using Cons.prems(2) by (simp add: save_state_def dk1_def)
    have f1: "files dk1 = files dk" by (simp add: dk1_def)
    have rest1: "\<forall>c \<in> set xs. processed c \<or> output_path c \<in> files dk1"
      using rest f1 by simp
    from Cons.IH[OF rest1 Cons.prems(2), of ed1] obtain ed' dk' where
      rec: "process_chunks env ed1 xs dk1 = (Completed, xs, ed', dk')" and f: "files dk' = files dk1"
      by (elim exE conjE)
    have "process_chunks env ed (c # xs) dk = (Completed, c # xs, ed', dk')"
      using False rec sv by (simp add: process_chunk_skip[OF out] ed1_def Let_def)
    then show ?thesis using f f1 by simp
  qed
qed

lemma process_chunk_ok_iff:
  "output_path c \<notin> files d \<Longrightarrow>
   fst (process_chunk env ed c d) = (failure (fst (process_body env ed c d)) = None)"
  by (simp add: process_chunk_def split: prod.splits)

lemma run_helper_state_doc:
  "state_doc (area (run_helper env h out cr)) = state_doc (area cr)"
  by (simp add: run_helper_def Let_def split: option.splits)

lemma temp_step_state_doc:
  "state_doc (area (temp_step env ed c h sfx cr)) = state_doc (area cr)"
  by (simp add: temp_step_def Let_def run_helper_state_doc)

lemma fold_steps_state_doc:
  "state_doc (area (fold (\<lambda>(h, sfx). temp_step env ed c h sfx) xs cr)) = state_doc (area cr)"
proof (induction xs arbitrary: cr)
  case Nil
  then show ?case by simp
next
  case (Cons x xs)
  obtain h sfx where x: "x = (h, sfx)" by (cases x)
  show ?case by (simp add: x Cons.IH temp_step_state_doc)
qed

lemma run_steps_state_doc: "state_doc (area (run_steps env ed c dk)) = state_doc dk"
  by (simp add: run_steps_def run_helper_state_doc fold_steps_state_doc)

lemma process_chunk_state_doc:
  assumes "process_chunk env ed c dk = (ok, c1, dk1)"
  shows "state_doc dk1 = state_doc dk"
proof (cases "output_path c \<in> files dk")
  case True
  then show ?thesis using assms by (simp add: process_chunk_skip)
next
  case False
  obtain cr c2 where b: "process_body env ed c dk = (cr, c2)" by (cases "process_body env ed c dk")
  have a: "area cr = area (run_steps env ed c dk)"
    using process_body_area[of env ed c dk] b by simp
  from assms False b have "dk1 = cleanup env (temp_files cr) (area cr)"
    by (simp add: process_chunk_def)
  then show ?thesis by (simp add: cleanup_def a run_steps_state_doc)
qed

lemma process_chunk_same:
  assumes "process_chunk env ed c dk = (ok, c1, dk1)"
  shows "chunk_id c1 = chunk_id c \<and> output_path c1 = output_path c \<and> (\<not> ok \<longrightarrow> c1 = c)"
proof (cases "output_path c \<in> files dk")
  case True
  then show ?thesis using assms by (simp add: process_chunk_skip)
next
  case False
  obtain cr c2 where b: "process_body env ed c dk = (cr, c2)" by (cases "process_body env ed c dk")
  from assms False b have "ok = (failure cr = None)" "c1 = c2"
    by (simp_all add: process_chunk_def)
  then show ?thesis using process_body_result[OF b] by simp
qed

lemma process_chunk_raises:
  assumes out: "output_path c \<notin> files dk"
    and exn: "failure (fst (process_body env ed c dk)) = Some e"
  shows "\<exists>dk'. process_chunk env ed c dk = (False, c, dk') \<and> state_doc dk' = state_doc dk \<and>
     (\<forall>q \<in> files dk. \<not> under (temp_dir ed) q \<longrightarrow> q \<in> files dk')"
proof -
  obtain ok c1 dk1 where pc: "process_chunk env ed c dk = (ok, c1, dk1)"
    by (cases "process_chunk env ed c dk")
  have "fst (process_chunk env ed c dk) = False"
    using out exn by (simp add: process_chunk_ok_iff)
  then have ok: "\<not> ok" using pc by simp
  then have c1: "c1 = c" using process_chunk_same[OF pc] by simp
  have sd: "state_doc dk1 = state_doc dk" by (rule process_chunk_state_doc[OF pc])
  have keep: "\<forall>q \<in> files dk. \<not> under (temp_dir ed) q \<longrightarrow> q \<in> files dk1"
  proof (intro ballI impI)
    fix q assume "q \<in> files dk" "\<not> under (temp_dir ed) q"
    then show "q \<in> files dk1" using process_chunk_keeps[of q dk ed env c] pc by simp
  qed
  have "process_chunk env ed c dk = (False, c, dk1)" using pc ok c1 by simp
  then show ?thesis using sd keep by (intro exI[of _ dk1] conjI)
qed

lemma update_state_chunk_at:
  "chunk_id c1 = chunk_id c \<Longrightarrow> chunk_id c \<notin> chunk_id ` set ds \<Longrightarrow>
   update_state_chunk c1 (ds @ c # cs) = ds @ c1 # cs"
  by (induction ds) auto

lemma process_chunks_editor:
  "process_chunks env ed cs dk = (r, cs', ed', dk') \<Longrightarrow>
   temp_dir ed' = temp_dir ed \<and> config ed' = config ed \<and> work_dir ed' = work_dir ed"
proof (induction cs arbitrary: ed dk r cs' ed' dk')
  case Nil
  then show ?case by simp
next
  case (Cons c cs)
  show ?case
  proof (cases "processed c")
    case True
    obtain r1 cs1 ed1 dk1 where rec: "process_chunks env ed cs dk = (r1, cs1, ed1, dk1)"
      by (cases "process_chunks env ed cs dk")
    with True Cons.prems have "ed' = ed1" by simp
    then show ?thesis using Cons.IH[OF rec] by simp
  next
    case False
    obtain ok c1 dk1 where pc: "process_chunk env ed c dk = (ok, c1, dk1)"
      by (cases "process_chunk env ed c dk")
    show ?thesis
    proof (cases ok)
      case False
      with \<open>\<not> processed c\<close> pc Cons.prems have "ed' = ed" by simp
      then show ?thesis by simp
    next
      case True
      define ed1 where "ed1 = ed\<lparr>state := (state ed)
          \<lparr>chunks := update_state_chunk c1 (chunks (state ed))\<rparr>\<rparr>"
      have same: "temp_dir ed1 = temp_dir ed" "config ed1 = config ed" "work_dir ed1 = work_dir ed"
        by (simp_all add: ed1_def)
      show ?thesis
      proof (cases "save_state env ed1 dk1")
        case (Inl e)
        with True \<open>\<not> processed c\<close> pc Cons.prems have "ed' = ed1"
          by (simp add: ed1_def Let_def)
        then show ?thesis using same by simp
      next
        case (Inr dk2)
        obtain r3 cs3 ed3 dk3 where rec: "process_chunks env ed1 cs dk2 = (r3, cs3, ed3, dk3)"
          by (cases "process_chunks env ed1 cs dk2")
        from Inr True \<open>\<not> processed c\<close> pc rec Cons.prems have "ed' = ed3"
          by (simp add: ed1_def Let_def)
        then show ?thesis using Cons.IH[OF rec] same by simp
      qed
    qed
  qed
qed

lemma process_chunks_state:
  "process_chunks env ed cs dk = (r, cs', ed', dk') \<Longrightarrow> chunks (state ed) = ds @ cs \<Longrightarrow>
   distinct (map chunk_id (ds @ cs)) \<Longrightarrow>
   chunks (state ed') = ds @ cs' \<and> map chunk_id cs' = map chunk_id cs"
proof (induction cs arbitrary: ed dk r cs' ed' dk' ds)
  case Nil
  then show ?case by simp
next
  case (Cons c cs)
  from Cons.prems(3) have fresh: "chunk_id c \<notin> chunk_id ` set ds" by auto
  show ?case
  proof (cases "processed c")
    case True
    obtain r1 cs1 ed1 dk1 where rec: "process_chunks env ed cs dk = (r1, cs1, ed1, dk1)"
      by (cases "process_chunks env ed cs dk")
    with True Cons.prems(1) have res: "cs' = c # cs1" "ed' = ed1" by simp_all
    have "chunks (state ed) = (ds @ [c]) @ cs" using Cons.prems(2) by simp
    moreover have "distinct (map chunk_id ((ds @ [c]) @ cs))" using Cons.prems(3) by simp
    ultimately have "chunks (state ed1) = (ds @ [c]) @ cs1 \<and> map chunk_id cs1 = map chunk_id cs"
      by (rule Cons.IH[OF rec])
    then show ?thesis using res by simp
  next
    case False
    obtain ok c1 dk1 where pc: "process_chunk env ed c dk = (ok, c1, dk1)"
      by (cases "process_chunk env ed c dk")
    note sm = process_chunk_same[OF pc]
    show ?thesis
    proof (cases ok)
      case False
      with \<open>\<not> processed c\<close> pc Cons.prems(1) have res: "cs' = c1 # cs" "ed' = ed" by simp_all
      have "c1 = c" using sm False by simp
      then show ?thesis using res Cons.prems(2) by simp
    next
      case True
      define ed1 where "ed1 = ed\<lparr>state := (state ed)
          \<lparr>chunks := update_state_chunk c1 (chunks (state ed))\<rparr>\<rparr>"
      have "update_state_chunk c1 (ds @ c # cs) = ds @ c1 # cs"
        using sm fresh by (intro update_state_chunk_at) simp_all
      then have st1: "chunks (state ed1) = (ds @ [c1]) @ cs"
        using Cons.prems(2) by (simp add: ed1_def)
      have di1: "distinct (map chunk_id ((ds @ [c1]) @ cs))"
        using Cons.prems(3) sm by simp
      show ?thesis
      proof (cases "save_state env ed1 dk1")
        case (Inl e)
        with True \<open>\<not> processed c\<close> pc Cons.prems(1) have res: "cs' = c1 # cs" "ed' = ed1"
          by (simp_all add: ed1_def Let_def)
        then show ?thesis using st1 sm by simp
      next
        case (Inr dk2)
        obtain r3 cs3 ed3 dk3 where rec: "process_chunks env ed1 cs dk2 = (r3, cs3, ed3, dk3)"
          by (cases "process_chunks env ed1 cs dk2")
        from Inr True \<open>\<not> processed c\<close> pc rec Cons.prems(1) have res: "cs' = c1 # cs3" "ed' = ed3"
          by (simp_all add: ed1_def Let_def)
        have "chunks (state ed3) = (ds @ [c1]) @ cs3 \<and> map chunk_id cs3 = map chunk_id cs"
          using st1 di1 by (rule Cons.IH[OF rec])
        then show ?thesis using res sm by simp
      qed
    qed
  qed
qed

lemma process_chunks_saved:
  "process_chunks env ed cs dk = (r, cs', ed', dk') \<Longrightarrow> state_doc dk = Some (state ed) \<Longrightarrow>
   r = Completed \<or> r = Chunk_failed \<Longrightarrow> state_doc dk' = Some (state ed')"
proof (induction cs arbitrary: ed dk r cs' ed' dk')
  case Nil
  then show ?case by simp
next
  case (Cons c cs)
  show ?case
  proof (cases "processed c")
    case True
    obtain r1 cs1 ed1 dk1 where rec: "process_chunks env ed cs dk = (r1, cs1, ed1, dk1)"
      by (cases "process_chunks env ed cs dk")
    with True Cons.prems(1) have res: "r = r1" "ed' = ed1" "dk' = dk1" by simp_all
    show ?thesis using Cons.IH[OF rec Cons.prems(2)] Cons.prems(3) res by simp
  next
    case False
    obtain ok c1 dk1 where pc: "process_chunk env ed c dk = (ok, c1, dk1)"
      by (cases "process_chunk env ed c dk")
    have sd1: "state_doc dk1 = state_doc dk" by (rule process_chunk_state_doc[OF pc])
    show ?thesis
    proof (cases ok)
      case False
      with \<open>\<not> processed c\<close> pc Cons.prems(1) have "ed' = ed" "dk' = dk1" by simp_all
      then show ?thesis using sd1 Cons.prems(2) by simp
    next
      case True
      define ed1 where "ed1 = ed\<lparr>state := (state ed)
          \<lparr>chunks := update_state_chunk c1 (chunks (state ed))\<rparr>\<rparr>"
      show ?thesis
      proof (cases "save_state env ed1 dk1")
        case (Inl e)
        with True \<open>\<not> processed c\<close> pc Cons.prems(1) have "r = Save_raised e"
          by (simp add: ed1_def Let_def)
        with Cons.prems(3) show ?thesis by simp
      next
        case (Inr dk2)
        obtain r3 cs3 ed3 dk3 where rec: "process_chunks env ed1 cs dk2 = (r3, cs3, ed3, dk3)"
          by (cases "process_chunks env ed1 cs dk2")
        from Inr True \<open>\<not> processed c\<close> pc rec Cons.prems(1)
        have res: "r = r3" "ed' = ed3" "dk' = dk3"
          by (simp_all add: ed1_def Let_def)
        have "state_doc dk2 = Some (state ed1)"
          using Inr by (auto simp add: save_state_def split: option.splits)
        then show ?thesis using Cons.IH[OF rec] Cons.prems(3) res by simp
      qed
    qed
  qed
qed

lemma process_chunks_append:
  "process_chunks env ed xs dk = (Completed, xs', ed', dk') \<Longrightarrow>
   process_chunks env ed (xs @ ys) dk =
     (case process_chunks env ed' ys dk' of (r, ys', ed'', dk'') \<Rightarrow> (r, xs' @ ys', ed'', dk''))"
proof (induction xs arbitrary: ed dk xs')
  case Nil
  then show ?case by (simp split: prod.splits)
next
  case (Cons c xs)
  show ?case
  proof (cases "processed c")
    case True
    obtain r1 xs1 ed1 dk1 where rec: "process_chunks env ed xs dk = (r1, xs1, ed1, dk1)"
      by (cases "process_chunks env ed xs dk")
    with True Cons.prems have res: "r1 = Completed" "xs' = c # xs1" "ed1 = ed'" "dk1 = dk'"
      by simp_all
    have "process_chunks env ed xs dk = (Completed, xs1, ed', dk')" using rec res by simp
    note ih = Cons.IH[OF this]
    show ?thesis using True res ih by (simp split: prod.splits)
  next
    case False
    obtain ok c1 dk1 where pc: "process_chunk env ed c dk = (ok, c1, dk1)"
      by (cases "process_chunk env ed c dk")
    have ok: ok
    proof (rule ccontr)
      assume "\<not> ok"
      with False pc Cons.prems show False by simp
    qed
    define ed1 where "ed1 = ed\<lparr>state := (state ed)
          \<lparr>chunks := update_state_chunk c1 (chunks (state ed))\<rparr>\<rparr>"
    show ?thesis
    proof (cases "save_state env ed1 dk1")
      case (Inl e)
      with ok False pc Cons.prems show ?thesis by (simp add: ed1_def Let_def)
    next
      case (Inr dk2)
      obtain r3 xs3 ed3 dk3 where rec: "process_chunks env ed1 xs dk2 = (r3, xs3, ed3, dk3)"
        by (cases "process_chunks env ed1 xs dk2")
      from Inr ok False pc rec Cons.prems
      have res: "r3 = Completed" "xs' = c1 # xs3" "ed3 = ed'" "dk3 = dk'"
        by (simp_all add: ed1_def Let_def)
      have "process_chunks env ed1 xs dk2 = (Completed, xs3, ed', dk')" using rec res by simp
      note ih = Cons.IH[OF this]
      show ?thesis using False ok pc Inr res ih
        by (simp add: ed1_def[symmetric] Let_def split: prod.splits)
    qed
  qed
qed

lemma process_chunks_completed:
  "process_chunks env ed cs dk = (Completed, cs', ed', dk') \<Longrightarrow>
   \<forall>c \<in> set cs. \<not> under (temp_dir ed) (output_path c) \<Longrightarrow>
   \<forall>c \<in> set cs. processed c \<longrightarrow> output_path c \<in> files dk \<Longrightarrow>
   \<forall>x \<in> set cs'. output_path x \<in> files dk'"
proof (induction cs arbitrary: ed dk cs' ed' dk')
  case Nil
  then show ?case by auto
next
  case (Cons c cs)
  from Cons.prems(2) have ntc: "\<not> under (temp_dir ed) (output_path c)"
    and nts: "\<forall>c \<in> set cs. \<not> under (temp_dir ed) (output_path c)" by simp_all
  from Cons.prems(3) have invs: "\<forall>c \<in> set cs. processed c \<longrightarrow> output_path c \<in> files dk"
    by simp
  show ?case
  proof (cases "processed c")
    case True
    obtain r1 cs1 ed1 dk1 where rec: "process_chunks env ed cs dk = (r1, cs1, ed1, dk1)"
      by (cases "process_chunks env ed cs dk")
    with True Cons.prems(1) have res: "r1 = Completed" "cs' = c # cs1" "dk' = dk1" by simp_all
    have rec': "process_chunks env ed cs dk = (Completed, cs1, ed1, dk1)" using rec res by simp
    have ih: "\<forall>x \<in> set cs1. output_path x \<in> files dk1" by (rule Cons.IH[OF rec' nts invs])
    have "output_path c \<in> files dk" using True Cons.prems(3) by simp
    then have "output_path c \<in> files dk1" using ntc by (rule process_chunks_keeps[OF rec])
    with ih res show ?thesis by simp
  next
    case False
    obtain ok c1 dk1 where pc: "process_chunk env ed c dk = (ok, c1, dk1)"
      by (cases "process_chunk env ed c dk")
    have ok: ok
    proof (rule ccontr)
      assume "\<not> ok"
      with False pc Cons.prems(1) show False by simp
    qed
    note pr = process_chunk_result[OF pc ntc]
    have out1: "output_path c \<in> files dk1" using pr ok by simp
    have keep1: "p \<in> files dk1" if "p \<in> files dk" "\<not> under (temp_dir ed) p" for p
      using process_chunk_keeps[OF that, of env c] pc by simp
    have invs1: "\<forall>c \<in> set cs. processed c \<longrightarrow> output_path c \<in> files dk1"
      using invs nts keep1 by blast
    define ed1 where "ed1 = ed\<lparr>state := (state ed)
          \<lparr>chunks := update_state_chunk c1 (chunks (state ed))\<rparr>\<rparr>"
    have td: "temp_dir ed1 = temp_dir ed" by (simp add: ed1_def)
    show ?thesis
    proof (cases "save_state env ed1 dk1")
      case (Inl e)
      with ok False pc Cons.prems(1) show ?thesis by (simp add: ed1_def Let_def)
    next
      case (Inr dk2)
      obtain r3 cs3 ed3 dk3 where rec: "process_chunks env ed1 cs dk2 = (r3, cs3, ed3, dk3)"
        by (cases "process_chunks env ed1 cs dk2")
      from Inr ok False pc rec Cons.prems(1)
      have res: "r3 = Completed" "cs' = c1 # cs3" "dk' = dk3"
        by (simp_all add: ed1_def Let_def)
      have rec': "process_chunks env ed1 cs dk2 = (Completed, cs3, ed3, dk3)" using rec res by simp
      have f2: "files dk2 = files dk1" by (rule save_state_files[OF Inr])
      have nts1: "\<forall>c \<in> set cs. \<not> under (temp_dir ed1) (output_path c)"
        using nts td by simp
      have invs2: "\<forall>c \<in> set cs. processed c \<longrightarrow> output_path c \<in> files dk2"
        using invs1 f2 by simp
      have ih: "\<forall>x \<in> set cs3. output_path x \<in> files dk3" by (rule Cons.IH[OF rec' nts1 invs2])
      have "output_path c \<in> files dk2" using out1 f2 by simp
      then have "output_path c \<in> files dk3"
        using ntc td by (intro process_chunks_keeps[OF rec]) simp_all
      with ih res pr show ?thesis by simp
    qed
  qed
qed

lemma process_chunks_flagged:
  "\<forall>x \<in> set xs. processed x \<Longrightarrow> process_chunks env ed xs dk = (Completed, xs, ed, dk)"
  by (induction xs) simp_all

lemma complete_step_chunks:
  "complete_step env name ed dk = (r, ed', dk') \<Longrightarrow> chunks (state ed') = chunks (state ed)"
  by (auto simp add: complete_step_def Let_def split: sum.splits)

lemma split_step_chunks:
  "split_step env cs ed dk = (Inr cs', ed', dk') \<Longrightarrow>
   cs' = cs \<and> chunks (state ed') = chunks (state ed)"
proof (cases "''chunk_splitting'' \<notin> set (completed_steps (state ed))")
  case False
  then show "split_step env cs ed dk = (Inr cs', ed', dk') \<Longrightarrow> ?thesis"
    by (simp add: split_step_def)
next
  case True
  assume a: "split_step env cs ed dk = (Inr cs', ed', dk')"
  obtain e1 dk1 where s: "split_into_chunks env cs dk = (e1, dk1)"
    by (cases "split_into_chunks env cs dk")
  show ?thesis
  proof (cases e1)
    case (Some e)
    with a True s show ?thesis by (simp add: split_step_def)
  next
    case None
    obtain r2 ed2 dk2 where c: "complete_step env ''chunk_splitting'' ed dk1 = (r2, ed2, dk2)"
      by (cases "complete_step env ''chunk_splitting'' ed dk1")
    show ?thesis
    proof (cases r2)
      case (Some e)
      with a True s None c show ?thesis by (simp add: split_step_def)
    next
      case n2: None
      with a True s None c have "cs' = cs" "ed' = ed2" by (simp_all add: split_step_def)
      then show ?thesis using complete_step_chunks[OF c] by simp
    qed
  qed
qed

lemma calculate_chunks_chunks:
  "calculate_chunks env ed dk = Some (Inr cs, ed', dk') \<Longrightarrow> chunks (state ed') = cs"
  by (auto simp add: calculate_chunks_def Let_def split: if_splits sum.splits option.splits)

lemma prepare_chunks_chunks:
  assumes "prepare_chunks env ed dk = Some (Inr cs, ed', dk')"
  shows "chunks (state ed') = cs"
proof (cases "''chunk_calculation'' \<notin> set (completed_steps (state ed))")
  case False
  with assms have "split_step env (chunks (state ed)) ed dk = (Inr cs, ed', dk')"
    by (simp add: prepare_chunks_def)
  from split_step_chunks[OF this] show ?thesis by simp
next
  case True
  obtain res where cc: "calculate_chunks env ed dk = res" by simp
  show ?thesis
  proof (cases res)
    case None
    with assms True cc show ?thesis by (simp add: prepare_chunks_def)
  next
    case (Some t)
    obtain x ed1 dk1 where t: "t = (x, ed1, dk1)" by (cases t)
    show ?thesis
    proof (cases x)
      case (Inl e)
      with assms True cc Some t show ?thesis by (simp add: prepare_chunks_def)
    next
      case (Inr cs1)
      have c1: "chunks (state ed1) = cs1"
        using cc Some t Inr by (intro calculate_chunks_chunks[of env ed dk]) simp
      obtain r2 ed2 dk2 where c: "complete_step env ''chunk_calculation'' ed1 dk1 = (r2, ed2, dk2)"
        by (cases "complete_step env ''chunk_calculation'' ed1 dk1")
      show ?thesis
      proof (cases r2)
        case (Some e)
        with assms True cc \<open>res = Some t\<close> t Inr c show ?thesis by (simp add: prepare_chunks_def)
      next
        case None
        with assms True cc \<open>res = Some t\<close> t Inr c
        have "split_step env cs1 ed2 dk2 = (Inr cs, ed', dk')" by (simp add: prepare_chunks_def)
        from split_step_chunks[OF this] have "cs = cs1" "chunks (state ed') = chunks (state ed2)"
          by simp_all
        then show ?thesis using complete_step_chunks[OF c] c1 by simp
      qed
    qed
  qed
qed

text \<open>
  Claim C8, as amended. Suppose \<^verbatim>\<open>run\<close> gets past the checksum comparison and
  steps 1 and 2 with a chunk list \<open>pre @ c # post\<close> of distinct ids, the state file holds
  the editor's state, the loop of step 3 gets through the chunks \<open>pre\<close>, and then, for
  the unflagged chunk \<open>c\<close> without output file, an exception \<open>e\<close> is raised inside the
  \<^verbatim>\<open>try\<close> block of \<^verbatim>\<open>_process_chunk\<close>. No output path of \<open>pre\<close> lies under the
  temporary directory, and the chunks of \<open>pre\<close> that were flagged before have their output
  files. Then:
  \<^item> \<^verbatim>\<open>_process_chunk\<close> catches the exception and returns \<^verbatim>\<open>False\<close>, the chunk
    unchanged;
  \<^item> \<^verbatim>\<open>run\<close> returns \<^verbatim>\<open>False\<close> at once, at the editor state of that moment;
  \<^item> every file that was on disk outside the temporary directory is still there, and
    every chunk the loop got through has its output file on disk;
  \<^item> the state file holds the chunk list as the loop left it, with the flags the loop
    set, so the next invocation reads that list;
  \<^item> in a later invocation the loop of \<^verbatim>\<open>run\<close> passes over flagged chunks by their
    flag alone, without calling \<^verbatim>\<open>_process_chunk\<close> and whatever the disk holds; an
    unflagged chunk whose output file exists is skipped by the check at the start of
    \<^verbatim>\<open>_process_chunk\<close>; and so the loop gets through the chunks \<open>pre'\<close> again
    without changing a file, on every disk that still holds the files of this one.
\<close>

theorem failed_chunk_aborts_run:
  assumes v: "validate_input env ed dk = (None, ed0, dk0)"
    and p: "prepare_chunks env ed0 dk0 = Some (Inr (pre @ c # post), ed1, dk1)"
    and pre: "process_chunks env ed1 pre dk1 = (Completed, pre', ed2, dk2)"
    and c: "\<not> processed c" "output_path c \<notin> files dk2"
    and exn: "failure (fst (process_body env ed2 c dk2)) = Some e"
    and nt: "\<forall>x \<in> set pre. \<not> under (temp_dir ed1) (output_path x)"
    and inv: "\<forall>x \<in> set pre. processed x \<longrightarrow> output_path x \<in> files dk1"
    and ids: "distinct (map chunk_id (pre @ c # post))"
    and sd: "state_doc dk1 = Some (state ed1)"
  shows "\<exists>dk3.
      process_chunk env ed2 c dk2 = (False, c, dk3) \<and>
      run env ed dk = Some (False, ed2, dk3) \<and>
      (\<forall>q \<in> files dk1. \<not> under (temp_dir ed1) q \<longrightarrow> q \<in> files dk3) \<and>
      map output_path pre' = map output_path pre \<and>
      (\<forall>x \<in> set pre'. output_path x \<in> files dk3) \<and>
      load_state dk3 = state ed2 \<and> chunks (state ed2) = pre' @ c # post \<and>
      (\<forall>env2 ed3 d xs. (\<forall>x \<in> set xs. processed x) \<longrightarrow>
         process_chunks env2 ed3 xs d = (Completed, xs, ed3, d)) \<and>
      (\<forall>env2 ed3 d x. output_path x \<in> files d \<longrightarrow> process_chunk env2 ed3 x d = (True, x, d)) \<and>
      (\<forall>env2 ed3 d. files dk3 \<subseteq> files d \<and> (\<forall>s. save_error env2 s = None) \<longrightarrow>
         (\<exists>ed4 d4. process_chunks env2 ed3 pre' d = (Completed, pre', ed4, d4) \<and>
            files d4 = files d))"
proof -
  from process_chunk_raises[OF c(2) exn] obtain dk3 where
    pc: "process_chunk env ed2 c dk2 = (False, c, dk3)"
    and sd3: "state_doc dk3 = state_doc dk2"
    and keep3: "\<forall>q \<in> files dk2. \<not> under (temp_dir ed2) q \<longrightarrow> q \<in> files dk3"
    by (elim exE conjE)
  have td: "temp_dir ed2 = temp_dir ed1" using process_chunks_editor[OF pre] by simp
  have loop: "process_chunks env ed1 (pre @ c # post) dk1 = (Chunk_failed, pre' @ c # post, ed2, dk3)"
    using process_chunks_append[OF pre, of "c # post"] c(1) pc by simp
  have r: "run env ed dk = Some (False, ed2, dk3)"
    by (simp add: run_def v p loop del: process_chunks.simps)
  have keep: "\<forall>q \<in> files dk1. \<not> under (temp_dir ed1) q \<longrightarrow> q \<in> files dk3"
  proof (intro ballI impI)
    fix q assume q: "q \<in> files dk1" "\<not> under (temp_dir ed1) q"
    then have "q \<in> files dk2" by (rule process_chunks_keeps[OF pre])
    then show "q \<in> files dk3" using keep3 q(2) td by simp
  qed
  have paths: "map output_path pre' = map output_path pre"
    using process_chunks_inv[OF pre nt inv] by simp
  have outs2: "\<forall>x \<in> set pre'. output_path x \<in> files dk2"
    by (rule process_chunks_completed[OF pre nt inv])
  have ntp: "\<forall>x \<in> set pre'. \<not> under (temp_dir ed1) (output_path x)"
  proof
    fix x assume "x \<in> set pre'"
    then have "output_path x \<in> set (map output_path pre')" by simp
    then have "output_path x \<in> set (map output_path pre)" using paths by simp
    then show "\<not> under (temp_dir ed1) (output_path x)" using nt by auto
  qed
  have outs: "\<forall>x \<in> set pre'. output_path x \<in> files dk3"
    using outs2 ntp keep3 td by simp
  have st1: "chunks (state ed1) = [] @ (pre @ c # post)"
    using prepare_chunks_chunks[OF p] by simp
  have ids': "distinct (map chunk_id ([] @ (pre @ c # post)))" using ids by simp
  have "chunks (state ed2) = [] @ (pre' @ c # post)"
    using process_chunks_state[OF loop st1 ids'] by simp
  then have st2: "chunks (state ed2) = pre' @ c # post" by simp
  have "state_doc dk2 = Some (state ed2)"
    using process_chunks_saved[OF pre sd] by simp
  then have ld: "load_state dk3 = state ed2" using sd3 by (simp add: load_state_def)
  have flag: "\<forall>env2 ed3 d xs. (\<forall>x \<in> set xs. processed x) \<longrightarrow>
         process_chunks env2 ed3 xs d = (Completed, xs, ed3, d)"
    by (intro allI impI) (rule process_chunks_flagged)
  have exist: "\<forall>env2 ed3 d x. output_path x \<in> files d \<longrightarrow>
      process_chunk env2 ed3 x d = (True, x, d)"
    by (intro allI impI) (rule process_chunk_skip)
  have nxt: "\<forall>env2 ed3 d. files dk3 \<subseteq> files d \<and> (\<forall>s. save_error env2 s = None) \<longrightarrow>
         (\<exists>ed4 d4. process_chunks env2 ed3 pre' d = (Completed, pre', ed4, d4) \<and>
            files d4 = files d)"
  proof (intro allI impI)
    fix env2 :: environment and ed3 :: VideoEditor and d :: disk
    assume a: "files dk3 \<subseteq> files d \<and> (\<forall>s. save_error env2 s = None)"
    then have "\<forall>x \<in> set pre'. processed x \<or> output_path x \<in> files d" using outs by auto
    moreover have "\<forall>s. save_error env2 s = None" using a by simp
    ultimately show "\<exists>ed4 d4. process_chunks env2 ed3 pre' d = (Completed, pre', ed4, d4) \<and>
            files d4 = files d"
      by (rule process_chunks_all_done)
  qed
  show ?thesis
    apply (rule exI[of _ dk3])
    using pc r keep paths outs ld st2 flag exist nxt by (intro conjI)
qed

lemma steps_example: "chunk_steps example_config =
   [(Remove_silence, ''_nosilence.mp4''), (Apply_speed, ''_speed.mp4''),
    (Apply_jump_cuts, ''_jumpcuts.mp4''), (Apply_zoom_effects, ''_zoom.mp4''),
    (Add_transitions, ''_trans.mp4''), (Add_sound_effects, ''_sfx.mp4'')]"
  by (simp add: chunk_steps_def example_config_def)

lemmas chunk_eval = process_chunk_def process_body_def cleanup_def calculate_checksum_def

theorem failed_chunk_aborts_run_witness:
  "\<exists>c0 ed2 dk2 dk3.
     process_chunks failing_env resume_editor [resume_chunk 0 0 300] resume_disk
       = (Completed, [c0], ed2, dk2) \<and>
     failure (fst (process_body failing_env ed2 (resume_chunk 1 300 450) dk2))
       = Some CalledProcessError \<and>
     process_chunk failing_env ed2 (resume_chunk 1 300 450) dk2
       = (False, resume_chunk 1 300 450, dk3) \<and>
     run failing_env resume_editor resume_disk = Some (False, ed2, dk3) \<and>
     processed c0 \<and>
     chunks (load_state dk3) = [c0, resume_chunk 1 300 450] \<and>
     ''work/chunks/chunk_000_output.mp4'' \<in> files dk3 \<and>
     process_chunks example_env ed2 [c0] dk3 = (Completed, [c0], ed2, dk3)"
proof -
  let ?E = failing_env
  define K0 where "K0 = resume_chunk 0 0 300"
  define K1 where "K1 = resume_chunk 1 300 450"
  have k0p: "\<not> processed K0" "output_path K0 = ''work/chunks/chunk_000_output.mp4''"
    "input_path K0 = ''work/chunks/chunk_000_input.mp4''" "chunk_id K0 = 0"
    by (simp_all add: K0_def resume_chunk_def fmt03d_0)
  have out1: "output_path K1 = ''work/chunks/chunk_001_output.mp4''"
    "input_path K1 = ''work/chunks/chunk_001_input.mp4''" "chunk_id K1 = Suc 0"
    "\<not> processed K1"
    by (simp_all add: K1_def resume_chunk_def fmt03d_1)
  have cfg: "config resume_editor = example_config" "temp_dir resume_editor = ''work/temp''"
    by (simp_all add: resume_editor_def example_editor_def)
  have rd: "files resume_disk = {''downloads/raw.mp4'', ''work/chunks/chunk_000_input.mp4'',
               ''work/chunks/chunk_001_input.mp4''}"
    by (simp add: resume_disk_def)
  note step_defs = run_steps_def steps_example temp_step_def run_helper_def Let_def
        path_join_def fmt03d_0 fmt03d_1 failing_env_def example_env_def
  define C0 where "C0 = fst (snd (process_chunk ?E resume_editor K0 resume_disk))"
  define DA where "DA = snd (snd (process_chunk ?E resume_editor K0 resume_disk))"
  have ok0: "fst (process_chunk ?E resume_editor K0 resume_disk) = True"
    by (simp add: chunk_eval step_defs k0p cfg rd)
  have pc0: "process_chunk ?E resume_editor K0 resume_disk = (True, C0, DA)"
    using ok0 by (simp add: C0_def DA_def prod_eq_iff)
  have C0: "processed C0" "output_path C0 = ''work/chunks/chunk_000_output.mp4''"
    "chunk_id C0 = 0"
    unfolding C0_def by (simp_all add: chunk_eval step_defs k0p cfg rd)
  have DA: "''work/chunks/chunk_001_output.mp4'' \<notin> files DA"
    unfolding DA_def by (simp_all add: chunk_eval step_defs k0p cfg rd)
  have sv: "save_error ?E s = None" for s
    by (simp add: failing_env_def example_env_def)
  have cs: "chunks (state resume_editor) = [K0, K1]"
    by (simp add: resume_editor_def resume_state_def K0_def K1_def)
  define ed1 where "ed1 = resume_editor\<lparr>state := (state resume_editor)
      \<lparr>chunks := update_state_chunk C0 (chunks (state resume_editor))\<rparr>\<rparr>"
  define DB where "DB = DA\<lparr>state_doc := Some (state ed1)\<rparr>"
  have save1: "save_state ?E ed1 DA = Inr DB"
    by (simp add: save_state_def sv DB_def)
  have fB: "files DB = files DA" by (simp add: DB_def)
  have ed1: "config ed1 = example_config" "temp_dir ed1 = ''work/temp''"
    by (simp_all add: ed1_def resume_editor_def example_editor_def)
  have fail1: "failure (run_steps ?E ed1 K1 DB) = Some CalledProcessError"
    by (simp add: step_defs ed1 out1)
  have exn: "failure (fst (process_body ?E ed1 K1 DB)) = Some CalledProcessError"
    using fail1 by (simp add: process_body_def Let_def)
  have pre: "process_chunks ?E resume_editor [K0] resume_disk = (Completed, [C0], ed1, DB)"
    by (simp add: k0p pc0 save1 Let_def ed1_def[symmetric])
  have c: "\<not> processed K1" "output_path K1 \<notin> files DB"
    using out1 DA fB by simp_all
  have v: "validate_input ?E resume_editor resume_disk = (None, resume_editor, resume_disk)"
    by (simp add: validate_input_def calculate_checksum_def Let_def truthy_def rd
        resume_editor_def example_editor_def example_config_def resume_state_def
        failing_env_def example_env_def)
  have p: "prepare_chunks ?E resume_editor resume_disk
      = Some (Inr ([K0] @ K1 # []), resume_editor, resume_disk)"
    by (simp add: prepare_chunks_def split_step_def cs)
       (simp add: resume_editor_def resume_state_def)
  have nt: "\<forall>x \<in> set [K0]. \<not> under (temp_dir resume_editor) (output_path x)"
    by (simp add: k0p cfg under_def)
  have inv: "\<forall>x \<in> set [K0]. processed x \<longrightarrow> output_path x \<in> files resume_disk"
    by (simp add: k0p)
  have ids: "distinct (map chunk_id ([K0] @ K1 # []))"
    by (simp add: k0p out1)
  have sd: "state_doc resume_disk = Some (state resume_editor)"
    by (simp add: resume_disk_def resume_editor_def)
  from failed_chunk_aborts_run[OF v p pre c exn nt inv ids sd]
  obtain dk3 where
    t1: "process_chunk ?E ed1 K1 DB = (False, K1, dk3)"
    and t2: "run ?E resume_editor resume_disk = Some (False, ed1, dk3)"
    and t3: "\<forall>x \<in> set [C0]. output_path x \<in> files dk3"
    and t4: "load_state dk3 = state ed1"
    and t5: "chunks (state ed1) = [C0] @ K1 # []"
    and t6: "\<forall>env2 ed3 d xs. (\<forall>x \<in> set xs. processed x) \<longrightarrow>
         process_chunks env2 ed3 xs d = (Completed, xs, ed3, d)"
    by (elim exE conjE) (rule that)
  have o: "''work/chunks/chunk_000_output.mp4'' \<in> files dk3" using t3 C0 by simp
  have l: "chunks (load_state dk3) = [C0, K1]" using t4 t5 by simp
  have "\<forall>x \<in> set [C0]. processed x" using C0 by simp
  then have s: "process_chunks example_env ed1 [C0] dk3 = (Completed, [C0], ed1, dk3)"
    using t6 by blast
  have "process_chunks ?E resume_editor [resume_chunk 0 0 300] resume_disk
       = (Completed, [C0], ed1, DB) \<and>
     failure (fst (process_body ?E ed1 (resume_chunk 1 300 450) DB)) = Some CalledProcessError \<and>
     process_chunk ?E ed1 (resume_chunk 1 300 450) DB = (False, resume_chunk 1 300 450, dk3) \<and>
     run ?E resume_editor resume_disk = Some (False, ed1, dk3) \<and>
     processed C0 \<and>
     chunks (load_state dk3) = [C0, resume_chunk 1 300 450] \<and>
     ''work/chunks/chunk_000_output.mp4'' \<in> files dk3 \<and>
     process_chunks example_env ed1 [C0] dk3 = (Completed, [C0], ed1, dk3)"
    using pre[unfolded K0_def] exn[unfolded K1_def] t1[unfolded K1_def] t2 C0(1)
      l[unfolded K1_def] o s by (intro conjI)
  then show ?thesis by (intro exI)
qed

text \<open>
  Claim C8 as stated fails in its last part: it is not the output-existence check that
  makes \<^verbatim>\<open>run\<close> skip a chunk processed earlier. Here the state file lists one chunk
  with its flag set, and its output file is missing. The loop of \<^verbatim>\<open>run\<close> passes over
  the chunk and completes, although every helper would raise: \<^verbatim>\<open>_process_chunk\<close>,
  whose check finds no output file, is never called; had it been called it would have
  returned \<^verbatim>\<open>False\<close>.
\<close>

theorem flagged_chunk_passed_without_output:
  "processed flagged_chunk \<and>
   output_path flagged_chunk \<notin> files flagged_disk \<and>
   init_editor example_config ''work'' flagged_disk = (flagged_editor, flagged_disk) \<and>
   validate_input broken_env flagged_editor flagged_disk = (None, flagged_editor, flagged_disk) \<and>
   prepare_chunks broken_env flagged_editor flagged_disk
     = Some (Inr [flagged_chunk], flagged_editor, flagged_disk) \<and>
   process_chunks broken_env flagged_editor [flagged_chunk] flagged_disk
     = (Completed, [flagged_chunk], flagged_editor, flagged_disk) \<and>
   fst (process_chunk broken_env flagged_editor flagged_chunk flagged_disk) = False"
proof -
  have a: "processed flagged_chunk" by (simp add: flagged_chunk_def)
  have b: "output_path flagged_chunk \<notin> files flagged_disk"
    by (simp add: flagged_chunk_def flagged_disk_def)
  have i: "init_editor example_config ''work'' flagged_disk = (flagged_editor, flagged_disk)"
    by (simp add: init_editor_def Let_def path_join_def mkdir_p_def load_state_def
        flagged_editor_def example_editor_def flagged_disk_def insert_absorb)
  have cs: "chunks (state flagged_editor) = [flagged_chunk]"
    by (simp add: flagged_editor_def flagged_state_def)
  have v: "validate_input broken_env flagged_editor flagged_disk
      = (None, flagged_editor, flagged_disk)"
    by (simp add: validate_input_def calculate_checksum_def Let_def truthy_def
        flagged_editor_def example_editor_def example_config_def flagged_state_def
        flagged_disk_def broken_env_def example_env_def)
  have p: "prepare_chunks broken_env flagged_editor flagged_disk
     = Some (Inr [flagged_chunk], flagged_editor, flagged_disk)"
    by (simp add: prepare_chunks_def split_step_def cs)
       (simp add: flagged_editor_def flagged_state_def)
  have l: "process_chunks broken_env flagged_editor [flagged_chunk] flagged_disk
     = (Completed, [flagged_chunk], flagged_editor, flagged_disk)"
    using a by simp
  have cfg: "config flagged_editor = example_config"
    by (simp add: flagged_editor_def example_editor_def)
  have "failure (run_steps broken_env flagged_editor flagged_chunk flagged_disk)
      = Some CalledProcessError"
    by (simp add: run_steps_def steps_example temp_step_def run_helper_def Let_def cfg
        broken_env_def example_env_def)
  then have "failure (fst (process_body broken_env flagged_editor flagged_chunk flagged_disk))
      = Some CalledProcessError"
    by (simp add: process_body_def Let_def)
  then have f: "fst (process_chunk broken_env flagged_editor flagged_chunk flagged_disk) = False"
    using b by (simp add: process_chunk_ok_iff)
  from a b i v p l f show ?thesis by (intro conjI)
qed

end
